(* ===== verification/Exn_Monad.thy ===== *)
theory Exn_Monad
  imports Main
begin

text \<open>
  Sequential programs with state and exceptions: how an \<open>async\<close> method of the client runs between
  two events. A computation takes a state and returns a result, or the exception it threw, with the
  new state. \<open>wp\<close> is the predicate transformer the component proofs use: it steps through a
  program operation by operation, keeping the exceptional exit beside the normal one.
\<close>

type_synonym ('s, 'e, 'a) prog = "'s \<Rightarrow> ('e + 'a) \<times> 's"

definition ret :: "'a \<Rightarrow> ('s, 'e, 'a) prog" where
  "ret x = (\<lambda>s. (Inr x, s))"

definition throw :: "'e \<Rightarrow> ('s, 'e, 'a) prog" where
  "throw e = (\<lambda>s. (Inl e, s))"

definition bindm :: "('s, 'e, 'a) prog \<Rightarrow> ('a \<Rightarrow> ('s, 'e, 'b) prog) \<Rightarrow> ('s, 'e, 'b) prog" where
  "bindm m f = (\<lambda>s. case m s of (Inr x, s') \<Rightarrow> f x s' | (Inl e, s') \<Rightarrow> (Inl e, s'))"

definition thenm :: "('s, 'e, 'a) prog \<Rightarrow> ('s, 'e, 'b) prog \<Rightarrow> ('s, 'e, 'b) prog" where
  "thenm m k = bindm m (\<lambda>_. k)"

definition try_catch :: "('s, 'e, 'a) prog \<Rightarrow> ('e \<Rightarrow> ('s, 'e, 'a) prog) \<Rightarrow> ('s, 'e, 'a) prog" where
  "try_catch m h = (\<lambda>s. case m s of (Inl e, s') \<Rightarrow> h e s' | (Inr x, s') \<Rightarrow> (Inr x, s'))"

text \<open>\<open>try { m } finally { f }\<close>: an exception of the finaliser replaces the outcome of the body.\<close>

definition finallym :: "('s, 'e, 'a) prog \<Rightarrow> ('s, 'e, unit) prog \<Rightarrow> ('s, 'e, 'a) prog" where
  "finallym m f = (\<lambda>s. case m s of (r, s') \<Rightarrow>
     (case f s' of (Inl e, s'') \<Rightarrow> (Inl e, s'') | (Inr _, s'') \<Rightarrow> (r, s'')))"

definition reads :: "('s \<Rightarrow> 'a) \<Rightarrow> ('s, 'e, 'a) prog" where
  "reads f = (\<lambda>s. (Inr (f s), s))"

definition modifies :: "('s \<Rightarrow> 's) \<Rightarrow> ('s, 'e, unit) prog" where
  "modifies f = (\<lambda>s. (Inr (), f s))"

definition whenm :: "bool \<Rightarrow> ('s, 'e, unit) prog \<Rightarrow> ('s, 'e, unit) prog" where
  "whenm b m = (if b then m else ret ())"

text \<open>A statement list.\<close>

fun do_all :: "('s, 'e, unit) prog list \<Rightarrow> ('s, 'e, unit) prog" where
  "do_all [] = ret ()"
| "do_all [m] = m"
| "do_all (m # ms) = thenm m (do_all ms)"

text \<open>
  A \<open>for\<close> loop with \<open>break\<close>: the guard is evaluated before each element; \<open>continue\<close> is the body
  returning early.
\<close>

fun for_each :: "('s \<Rightarrow> bool) \<Rightarrow> 'a list \<Rightarrow> ('a \<Rightarrow> ('s, 'e, unit) prog) \<Rightarrow> ('s, 'e, unit) prog" where
  "for_each brk [] body = ret ()"
| "for_each brk (x # xs) body =
     bindm (reads brk) (\<lambda>stop. if stop then ret () else thenm (body x) (for_each brk xs body))"

text \<open>The state after a run, whatever its outcome, and whether it threw.\<close>

definition final :: "('s, 'e, 'a) prog \<Rightarrow> 's \<Rightarrow> 's" where
  "final m s = snd (m s)"

definition threw :: "('s, 'e, 'a) prog \<Rightarrow> 's \<Rightarrow> bool" where
  "threw m s = (case fst (m s) of Inl _ \<Rightarrow> True | Inr _ \<Rightarrow> False)"

section \<open>Weakest preconditions\<close>

definition wp :: "('s, 'e, 'a) prog \<Rightarrow> ('a \<Rightarrow> 's \<Rightarrow> bool) \<Rightarrow> ('e \<Rightarrow> 's \<Rightarrow> bool) \<Rightarrow> 's \<Rightarrow> bool" where
  "wp m Q R s = (case m s of (Inr x, s') \<Rightarrow> Q x s' | (Inl e, s') \<Rightarrow> R e s')"

named_theorems wp_rules \<open>weakest preconditions of the program constructors\<close>

lemma wp_ret [wp_rules]: "wp (ret x) Q R = Q x"
  by (simp add: fun_eq_iff wp_def ret_def)

lemma wp_throw [wp_rules]: "wp (throw e) Q R = R e"
  by (simp add: fun_eq_iff wp_def throw_def)

lemma wp_reads [wp_rules]: "wp (reads f) Q R = (\<lambda>s. Q (f s) s)"
  by (simp add: fun_eq_iff wp_def reads_def)

lemma wp_modifies [wp_rules]: "wp (modifies f) Q R = (\<lambda>s. Q () (f s))"
  by (simp add: fun_eq_iff wp_def modifies_def)

lemma wp_bindm [wp_rules]: "wp (bindm m f) Q R = wp m (\<lambda>x. wp (f x) Q R) R"
  by (auto simp: fun_eq_iff wp_def bindm_def split: prod.splits sum.splits)

lemma wp_thenm [wp_rules]: "wp (thenm m k) Q R = wp m (\<lambda>_. wp k Q R) R"
  by (simp add: thenm_def wp_bindm)

lemma wp_try_catch [wp_rules]: "wp (try_catch m h) Q R = wp m Q (\<lambda>e. wp (h e) Q R)"
  by (auto simp: fun_eq_iff wp_def try_catch_def split: prod.splits sum.splits)

lemma wp_finallym [wp_rules]:
  "wp (finallym m f) Q R = wp m (\<lambda>x. wp f (\<lambda>_. Q x) R) (\<lambda>e. wp f (\<lambda>_. R e) R)"
  by (auto simp: fun_eq_iff wp_def finallym_def split: prod.splits sum.splits)

lemma wp_whenm [wp_rules]: "wp (whenm b m) Q R = (if b then wp m Q R else Q ())"
  by (simp add: whenm_def wp_ret)

lemma wp_if [wp_rules]: "wp (if b then m else n) Q R = (if b then wp m Q R else wp n Q R)"
  by simp

lemma wp_do_all_Nil [wp_rules]: "wp (do_all []) Q R = Q ()"
  by (simp add: wp_ret)

lemma wp_do_all_Cons [wp_rules]: "wp (do_all (m # ms)) Q R = wp m (\<lambda>_. wp (do_all ms) Q R) R"
  by (cases ms) (simp_all add: wp_ret wp_thenm)

lemma wp_for_each_Nil [wp_rules]: "wp (for_each brk [] body) Q R = Q ()"
  by (simp add: wp_ret)

lemma wp_for_each_Cons [wp_rules]:
  "wp (for_each brk (x # xs) body) Q R =
     (\<lambda>s. if brk s then Q () s else wp (body x) (\<lambda>_. wp (for_each brk xs body) Q R) R s)"
  by (simp add: fun_eq_iff wp_bindm wp_reads wp_ret wp_thenm)

lemma wp_conseq:
  assumes "wp m Q R s" and "\<And>x s'. Q x s' \<Longrightarrow> Q' x s'" and "\<And>e s'. R e s' \<Longrightarrow> R' e s'"
  shows "wp m Q' R' s"
  using assms by (auto simp: wp_def split: prod.splits sum.splits)

lemma wp_conj:
  "wp m Q R s \<Longrightarrow> wp m Q' R' s \<Longrightarrow> wp m (\<lambda>x s. Q x s \<and> Q' x s) (\<lambda>e s. R e s \<and> R' e s) s"
  by (auto simp: wp_def split: prod.splits sum.splits)

lemma wp_final: "wp m (\<lambda>_. P) (\<lambda>_. P) s \<Longrightarrow> P (final m s)"
  by (auto simp: wp_def final_def split: prod.splits sum.splits)

lemma final_wp: "P (final m s) \<Longrightarrow> wp m (\<lambda>_. P) (\<lambda>_. P) s"
  by (auto simp: wp_def final_def split: prod.splits sum.splits)

lemma wp_True [simp]: "wp m (\<lambda>_ _. True) (\<lambda>_ _. True) s"
  by (auto simp: wp_def split: prod.splits sum.splits)

text \<open>An invariant of the state alone, kept on both exits.\<close>

definition keeps :: "('s \<Rightarrow> bool) \<Rightarrow> ('s, 'e, 'a) prog \<Rightarrow> bool" where
  "keeps P m \<longleftrightarrow> (\<forall>s. P s \<longrightarrow> wp m (\<lambda>_. P) (\<lambda>_. P) s)"

named_theorems keeps_rules \<open>invariants through the program constructors\<close>

lemma keepsI: "(\<And>s. P s \<Longrightarrow> wp m (\<lambda>_. P) (\<lambda>_. P) s) \<Longrightarrow> keeps P m"
  by (simp add: keeps_def)

lemma keepsD: "keeps P m \<Longrightarrow> P s \<Longrightarrow> wp m (\<lambda>_. P) (\<lambda>_. P) s"
  by (simp add: keeps_def)

lemma keeps_ret [keeps_rules]: "keeps P (ret x)"
  by (simp add: keeps_def wp_rules)

lemma keeps_throw [keeps_rules]: "keeps P (throw e)"
  by (simp add: keeps_def wp_rules)

lemma keeps_reads [keeps_rules]: "keeps P (reads f)"
  by (simp add: keeps_def wp_rules)

lemma keeps_modifies: "(\<And>s. P s \<Longrightarrow> P (f s)) \<Longrightarrow> keeps P (modifies f)"
  by (simp add: keeps_def wp_rules)

lemma keeps_bindm [keeps_rules]: "keeps P m \<Longrightarrow> (\<And>x. keeps P (f x)) \<Longrightarrow> keeps P (bindm m f)"
  unfolding keeps_def wp_bindm by (blast intro: wp_conseq)

lemma keeps_thenm [keeps_rules]: "keeps P m \<Longrightarrow> keeps P k \<Longrightarrow> keeps P (thenm m k)"
  by (simp add: thenm_def keeps_bindm)

lemma keeps_try_catch [keeps_rules]:
  "keeps P m \<Longrightarrow> (\<And>e. keeps P (h e)) \<Longrightarrow> keeps P (try_catch m h)"
  unfolding keeps_def wp_try_catch by (blast intro: wp_conseq)

lemma keeps_finallym [keeps_rules]: "keeps P m \<Longrightarrow> keeps P f \<Longrightarrow> keeps P (finallym m f)"
  unfolding keeps_def wp_finallym by (blast intro: wp_conseq)

lemma keeps_whenm [keeps_rules]: "(b \<Longrightarrow> keeps P m) \<Longrightarrow> keeps P (whenm b m)"
  by (auto simp: keeps_def wp_rules)

lemma keeps_if [keeps_rules]:
  "(b \<Longrightarrow> keeps P m) \<Longrightarrow> (\<not> b \<Longrightarrow> keeps P n) \<Longrightarrow> keeps P (if b then m else n)"
  by simp

lemma keeps_let [keeps_rules]: "keeps P (f x) \<Longrightarrow> keeps P (Let x f)"
  by simp

lemma keeps_case_option [keeps_rules]:
  "keeps P m \<Longrightarrow> (\<And>x. keeps P (f x)) \<Longrightarrow> keeps P (case v of None \<Rightarrow> m | Some x \<Rightarrow> f x)"
  by (simp split: option.split)

lemma keeps_case_sum [keeps_rules]:
  "(\<And>x. keeps P (f x)) \<Longrightarrow> (\<And>x. keeps P (g x)) \<Longrightarrow> keeps P (case v of Inl x \<Rightarrow> f x | Inr x \<Rightarrow> g x)"
  by (simp split: sum.split)

lemma keeps_do_all [keeps_rules]: "(\<And>m. m \<in> set ms \<Longrightarrow> keeps P m) \<Longrightarrow> keeps P (do_all ms)"
  by (induction ms rule: do_all.induct) (auto intro: keeps_rules)

lemma keeps_for_each [keeps_rules]:
  "(\<And>x. x \<in> set xs \<Longrightarrow> keeps P (body x)) \<Longrightarrow> keeps P (for_each brk xs body)"
  by (induction xs) (auto intro!: keeps_rules)

lemma keeps_final: "keeps P m \<Longrightarrow> P s \<Longrightarrow> P (final m s)"
  by (rule wp_final) (rule keepsD)

end
