(* ===== verification/HS_Prelude.thy ===== *)
theory HS_Prelude
  imports Main "HOL-Library.Sublist"
begin

text \<open>
  Shared vocabulary of the development: JavaScript values that may be absent, the string
  operations the client uses (\<open>startsWith\<close>, \<open>endsWith\<close>, \<open>split\<close>, \<open>basename\<close>), and the generic
  lemmas on them.

  A JavaScript string is a HOL \<open>string\<close>. The two operations whose result depends on the Unicode
  tables, \<open>normalize('NFC')\<close> and \<open>toLowerCase()\<close>, are parameters of the definitions that use them.
\<close>

named_theorems js_simps \<open>evaluation of JavaScript truthiness and defaulting\<close>
named_theorems str_simps \<open>string operations on concatenations and literals\<close>

section \<open>Absent values\<close>

text \<open>
  A property read from a message may be \<open>undefined\<close>, one read from an SQL row \<open>null\<close>. The two are
  different for \<open>===\<close>, which is HOL equality here, and equally falsy for \<open>||\<close> and \<open>&&\<close>.
\<close>

datatype 'a jsv = Undef | Null | Val 'a

fun str_truthy :: "string jsv \<Rightarrow> bool" where
  "str_truthy (Val s) = (s \<noteq> [])"
| "str_truthy _ = False"

fun num_truthy :: "int jsv \<Rightarrow> bool" where
  "num_truthy (Val n) = (n \<noteq> 0)"
| "num_truthy _ = False"

text \<open>\<open>a || b\<close> on strings and on numbers, and \<open>a ?? b\<close>.\<close>

definition str_or :: "string jsv \<Rightarrow> string jsv \<Rightarrow> string jsv" where
  "str_or a b = (if str_truthy a then a else b)"

definition num_or :: "int jsv \<Rightarrow> int jsv \<Rightarrow> int jsv" where
  "num_or a b = (if num_truthy a then a else b)"

fun nullish_or :: "'a jsv \<Rightarrow> 'a jsv \<Rightarrow> 'a jsv" where
  "nullish_or (Val a) b = Val a"
| "nullish_or _ b = b"

fun num_val :: "int jsv \<Rightarrow> int" where
  "num_val (Val n) = n"
| "num_val _ = 0"

lemma str_truthy_iff: "str_truthy v \<longleftrightarrow> (\<exists>s. v = Val s \<and> s \<noteq> [])"
  by (cases v) auto

lemma str_truthyE [elim]:
  assumes "str_truthy v"
  obtains s where "v = Val s" and "s \<noteq> []"
  using assms by (cases v) auto

lemma str_or_truthy [js_simps]: "str_truthy a \<Longrightarrow> str_or a b = a"
  by (simp add: str_or_def)

lemma str_or_falsy [js_simps]: "\<not> str_truthy a \<Longrightarrow> str_or a b = b"
  by (simp add: str_or_def)

lemma str_or_Null_idem [js_simps]: "str_or (str_or a Null) Null = str_or a Null"
  by (simp add: str_or_def)

lemma nullish_or_idem [js_simps]: "nullish_or (nullish_or a b) b = nullish_or a b"
  by (cases a; cases b) auto

lemma num_or_idem [js_simps]: "num_or (num_or a b) b = num_or a b"
  by (simp add: num_or_def)

section \<open>Strings\<close>

type_synonym path = string

abbreviation slash :: char where "slash \<equiv> CHR ''/''"
abbreviation star :: char where "star \<equiv> CHR ''*''"
abbreviation backslash :: char where "backslash \<equiv> CHR 0x5C"

abbreviation starts_with :: "string \<Rightarrow> string \<Rightarrow> bool" where
  "starts_with s p \<equiv> prefix p s"

abbreviation ends_with :: "string \<Rightarrow> string \<Rightarrow> bool" where
  "ends_with s p \<equiv> suffix p s"

text \<open>\<open>s.split(c)\<close> for a single character \<open>c\<close>; never the empty list.\<close>

fun split_on :: "char \<Rightarrow> string \<Rightarrow> string list" where
  "split_on c [] = [[]]"
| "split_on c (x # xs) =
     (if x = c then [] # split_on c xs
      else (case split_on c xs of [] \<Rightarrow> [[x]] | s # ss \<Rightarrow> (x # s) # ss))"

text \<open>\<open>s.split(c).join('/')\<close>.\<close>

definition fold_sep :: "char \<Rightarrow> string \<Rightarrow> string" where
  "fold_sep c s = map (\<lambda>x. if x = c then slash else x) s"

text \<open>\<open>path.posix.basename\<close>: trailing slashes are dropped, then the last segment is taken.\<close>

definition strip_slashes :: "string \<Rightarrow> string" where
  "strip_slashes s = rev (dropWhile (\<lambda>c. c = slash) (rev s))"

definition basename :: "string \<Rightarrow> string" where
  "basename s = rev (takeWhile (\<lambda>c. c \<noteq> slash) (rev (strip_slashes s)))"

text \<open>\<open>path.posix.dirname\<close> of a relative path without trailing or doubled slashes.\<close>

definition dirname :: "string \<Rightarrow> string" where
  "dirname s =
     (let r = dropWhile (\<lambda>c. c \<noteq> slash) (rev (strip_slashes s))
      in if r = [] then ''.'' else if tl r = [] then ''/'' else rev (tl r))"

lemma split_on_nonempty [simp]: "split_on c s \<noteq> []"
  by (induction s) (auto split: list.splits)

lemma split_on_no_sep: "c \<notin> set s \<Longrightarrow> split_on c s = [s]"
  by (induction s) auto

lemma split_on_Cons_other:
  "x \<noteq> c \<Longrightarrow> split_on c (x # xs) = (x # hd (split_on c xs)) # tl (split_on c xs)"
  by (cases "split_on c xs") auto

lemma split_on_append_sep [str_simps]:
  "split_on c (s @ c # t) = split_on c s @ split_on c t"
proof (induction s)
  case Nil
  show ?case by simp
next
  case (Cons x s)
  show ?case
  proof (cases "x = c")
    case True
    with Cons show ?thesis by simp
  next
    case False
    with Cons show ?thesis
      by (cases "split_on c s") (auto split: list.splits)
  qed
qed

lemma split_on_parts_no_sep: "p \<in> set (split_on c s) \<Longrightarrow> c \<notin> set p"
  by (induction s arbitrary: p) (auto split: list.splits if_splits)

lemma split_on_part_subset: "p \<in> set (split_on c s) \<Longrightarrow> set p \<subseteq> set s"
  by (induction s arbitrary: p) (fastforce split: list.splits if_splits)+

text \<open>
  A canonical relative path: no empty segment, hence no leading, trailing or doubled slash.
  Every path the watcher and the state database hold has this form.
\<close>

definition canon_path :: "path \<Rightarrow> bool" where
  "canon_path p \<longleftrightarrow> [] \<notin> set (split_on slash p)"

lemma canon_path_no_leading [str_simps]: "\<not> canon_path (slash # p)"
  by (simp add: canon_path_def)

lemma canon_path_nonempty: "canon_path p \<Longrightarrow> p \<noteq> []"
  by (auto simp: canon_path_def)

lemma canon_path_append:
  "canon_path (p @ slash # q) \<longleftrightarrow> canon_path p \<and> canon_path q"
  by (auto simp: canon_path_def split_on_append_sep)

lemma canon_path_no_trailing [str_simps]: "\<not> canon_path (p @ [slash])"
  by (simp add: canon_path_append) (simp add: canon_path_def)

lemma canon_path_no_double: "\<not> canon_path (p @ slash # slash # q)"
  by (simp add: canon_path_append canon_path_no_leading)

section \<open>Basename\<close>

lemma strip_slashes_id: "p = [] \<or> last p \<noteq> slash \<Longrightarrow> strip_slashes p = p"
  by (cases p rule: rev_cases) (auto simp: strip_slashes_def)

lemma canon_path_strip [simp]:
  assumes "canon_path p"
  shows "strip_slashes p = p"
proof (rule strip_slashes_id, rule disjI2, rule notI)
  assume "last p = slash"
  moreover from assms have "p \<noteq> []" by (rule canon_path_nonempty)
  ultimately have "p = butlast p @ [slash]" by (metis append_butlast_last_id)
  with assms canon_path_no_trailing show False by metis
qed

lemma takeWhile_rev_all: "c \<notin> set b \<Longrightarrow> takeWhile (\<lambda>x. x \<noteq> c) (rev b) = rev b"
  by (rule takeWhile_eq_all_conv [THEN iffD2]) auto

lemma basename_no_slash: "slash \<notin> set (basename p)"
  by (auto simp: basename_def dest: set_takeWhileD)

lemma basename_no_sep: "slash \<notin> set p \<Longrightarrow> basename p = p"
proof -
  assume *: "slash \<notin> set p"
  then have "strip_slashes p = p"
    by (cases p rule: rev_cases) (auto simp: strip_slashes_def)
  with * show ?thesis by (simp add: basename_def takeWhile_rev_all)
qed

lemma set_basename: "set (basename p) \<subseteq> set p"
  by (auto simp: basename_def strip_slashes_def dest!: set_takeWhileD set_dropWhileD)

lemma basename_append:
  assumes "slash \<notin> set b" and "b \<noteq> []"
  shows "basename (d @ slash # b) = b"
proof -
  from assms have "last (d @ slash # b) \<noteq> slash"
    by (metis last_ConsR last_appendR last_in_set list.distinct(1))
  then have "strip_slashes (d @ slash # b) = d @ slash # b"
    by (simp add: strip_slashes_id)
  moreover have "takeWhile (\<lambda>c. c \<noteq> slash) (rev b @ slash # rev d) = rev b"
    using assms(1) by (subst takeWhile_append2) auto
  ultimately show ?thesis
    by (simp add: basename_def)
qed

end
