(* ===== verification/Js_Value.thy ===== *)
theory Js_Value
  imports HS_Prelude
begin

text \<open>
  JavaScript values read from JSON or the environment, whose types the program checks at run time, and
  numbers as text.
\<close>

section \<open>Values\<close>

text \<open>A number is an integer, a finite fraction, or infinite (a literal too large for a double); only the
  first passes \<open>Number.isInteger\<close>. The keys of an object are distinct.\<close>

datatype js =
    JUndef | JNull | JBool bool | JInt int | JFraction | JInfinite
  | JStr string | JArr "js list" | JObj "(string \<times> js) list"

fun js_truthy :: "js \<Rightarrow> bool" where
  "js_truthy JUndef = False"
| "js_truthy JNull = False"
| "js_truthy (JBool b) = b"
| "js_truthy (JInt n) = (n \<noteq> 0)"
| "js_truthy (JStr s) = (s \<noteq> [])"
| "js_truthy _ = True"

text \<open>Property access on an object; any other value has none of the properties read here.\<close>

fun field :: "js \<Rightarrow> string \<Rightarrow> js" where
  "field (JObj kvs) k = (case map_of kvs k of None \<Rightarrow> JUndef | Some v \<Rightarrow> v)"
| "field _ k = JUndef"

fun is_string :: "js \<Rightarrow> bool" where
  "is_string (JStr s) = True"
| "is_string _ = False"

fun is_object :: "js \<Rightarrow> bool" where
  "is_object (JObj kvs) = True"
| "is_object _ = False"

text \<open>\<open>v == null\<close>.\<close>

definition absent :: "js \<Rightarrow> bool" where
  "absent v \<longleftrightarrow> v = JUndef \<or> v = JNull"

lemma is_string_iff: "is_string v \<longleftrightarrow> (\<exists>s. v = JStr s)"
  by (cases v) auto

section \<open>Numbers as text\<close>

text \<open>\<open>String(n)\<close> of an integer and \<open>parseInt(s, 10)\<close>, \<open>None\<close> being \<open>NaN\<close>.\<close>

definition digit_char :: "nat \<Rightarrow> char" where
  "digit_char k = char_of (48 + k)"

fun nat_str :: "nat \<Rightarrow> string" where
  "nat_str n = (if n < 10 then [digit_char n] else nat_str (n div 10) @ [digit_char (n mod 10)])"

declare nat_str.simps [simp del]

definition int_str :: "int \<Rightarrow> string" where
  "int_str i = (if i < 0 then CHR ''-'' # nat_str (nat (- i)) else nat_str (nat i))"

definition is_digit :: "char \<Rightarrow> bool" where
  "is_digit c \<longleftrightarrow> (48 :: nat) \<le> of_char c \<and> of_char c \<le> (57 :: nat)"

definition digits_val :: "string \<Rightarrow> nat" where
  "digits_val s = foldl (\<lambda>a c. 10 * a + (of_char c - 48)) 0 s"

definition parse_nat :: "string \<Rightarrow> int option" where
  "parse_nat s =
     (let ds = takeWhile is_digit s in if ds = [] then None else Some (int (digits_val ds)))"

definition is_space :: "char \<Rightarrow> bool" where
  "is_space c \<longleftrightarrow> of_char c \<in> {9 :: nat, 10, 11, 12, 13, 32}"

fun parse_int :: "string \<Rightarrow> int option" where
  "parse_int s =
     (case dropWhile is_space s of
        [] \<Rightarrow> None
      | c # cs \<Rightarrow> if c = CHR ''-'' then map_option uminus (parse_nat cs)
                  else if c = CHR ''+'' then parse_nat cs
                  else parse_nat (c # cs))"

declare parse_int.simps [simp del]

lemma is_digit_digit_char: "k < 10 \<Longrightarrow> is_digit (digit_char k)"
  by (simp add: is_digit_def digit_char_def)

lemma of_digit_char: "k < 10 \<Longrightarrow> (of_char (digit_char k) :: nat) = 48 + k"
  by (simp add: digit_char_def)

lemma digits_val_snoc: "digits_val (s @ [c]) = 10 * digits_val s + (of_char c - 48)"
  by (simp add: digits_val_def)

lemma nat_str_digits: "\<forall>c \<in> set (nat_str n). is_digit c"
proof (induction n rule: nat_str.induct)
  case (1 n)
  then show ?case
    by (subst nat_str.simps) (auto simp: is_digit_digit_char)
qed

lemma nat_str_nonempty: "nat_str n \<noteq> []"
  by (subst nat_str.simps) simp

lemma digits_val_nat_str: "digits_val (nat_str n) = n"
proof (induction n rule: nat_str.induct)
  case (1 n)
  show ?case
  proof (cases "n < 10")
    case True
    then show ?thesis
      by (subst nat_str.simps) (simp add: digits_val_def of_digit_char)
  next
    case False
    with 1 show ?thesis
      by (subst nat_str.simps) (simp add: digits_val_snoc of_digit_char)
  qed
qed

lemma parse_nat_nat_str: "parse_nat (nat_str n) = Some (int n)"
proof -
  have "takeWhile is_digit (nat_str n) = nat_str n"
    by (rule takeWhile_eq_all_conv [THEN iffD2]) (rule nat_str_digits)
  then have "parse_nat (nat_str n) = (if nat_str n = [] then None else Some (int (digits_val (nat_str n))))"
    by (simp only: parse_nat_def Let_def)
  then show ?thesis by (simp add: nat_str_nonempty digits_val_nat_str)
qed

lemma digit_not_space_or_sign: "is_digit c \<Longrightarrow> \<not> is_space c \<and> c \<noteq> CHR ''-'' \<and> c \<noteq> CHR ''+''"
  by (auto simp: is_digit_def is_space_def)

lemma parse_int_int_str: "0 \<le> n \<Longrightarrow> parse_int (int_str n) = Some n"
proof -
  assume n: "0 \<le> n"
  obtain c cs where s: "nat_str (nat n) = c # cs"
    by (meson nat_str_nonempty neq_Nil_conv)
  then have "is_digit c" using nat_str_digits [of "nat n"] by auto
  with digit_not_space_or_sign n s parse_nat_nat_str [of "nat n"] show ?thesis
    by (subst parse_int.simps) (simp add: int_str_def)
qed

text \<open>The double nearest to an integer, ties to even: what a decimal literal becomes.\<close>

fun bit_length :: "nat \<Rightarrow> nat" where
  "bit_length n = (if n = 0 then 0 else Suc (bit_length (n div 2)))"

declare bit_length.simps [simp del]

definition round_double :: "nat \<Rightarrow> nat" where
  "round_double n = (let e = bit_length n - 53; q = n div 2 ^ e; r = n mod 2 ^ e in
     (if 2 * r > 2 ^ e \<or> (2 * r = 2 ^ e \<and> e > 0 \<and> odd q) then q + 1 else q) * 2 ^ e)"

definition js_number :: "int \<Rightarrow> js" where
  "js_number i = (let m = round_double (nat (abs i)) in
     if m \<ge> 2 ^ 1024 then JInfinite else JInt (if i < 0 then - int m else int m))"

text \<open>\<open>trim()\<close> of a string.\<close>

definition js_space :: "char \<Rightarrow> bool" where
  "js_space c \<longleftrightarrow> is_space c \<or> of_char c = (160 :: nat)"

definition js_trim :: "string \<Rightarrow> string" where
  "js_trim s = rev (dropWhile js_space (rev (dropWhile js_space s)))"

definition lower_char :: "char \<Rightarrow> char" where
  "lower_char c = (if (65 :: nat) \<le> of_char c \<and> of_char c \<le> (90 :: nat)
     then char_of (of_char c + (32 :: nat)) else c)"

definition ascii_lower :: "string \<Rightarrow> string" where
  "ascii_lower = map lower_char"

lemma bit_length_bound: "n < 2 ^ k \<Longrightarrow> bit_length n \<le> k"
proof (induction k arbitrary: n)
  case (Suc k)
  then have "bit_length (n div 2) \<le> k" by simp
  then show ?case by (subst bit_length.simps) simp
qed (simp add: bit_length.simps)

text \<open>Integers up to 53 bits are exact.\<close>

lemma js_number_exact: "abs i < 2 ^ 53 \<Longrightarrow> js_number i = JInt i"
proof -
  assume "abs i < 2 ^ 53"
  then have n: "nat (abs i) < 2 ^ 53" by (simp add: nat_less_iff)
  then have "bit_length (nat (abs i)) - 53 = 0" using bit_length_bound [OF n] by simp
  then have r: "round_double (nat (abs i)) = nat (abs i)" by (simp add: round_double_def Let_def)
  have "(2 :: nat) ^ 53 \<le> 2 ^ 1024" by (rule power_increasing) simp_all
  with n have "\<not> 2 ^ 1024 \<le> nat (abs i)" by linarith
  then show ?thesis unfolding js_number_def Let_def r by simp
qed

end
