(* ===== verification/State_Db.thy ===== *)
theory State_Db
  imports Js_Value
begin

text \<open>
  \<open>lib/state-db.js\<close>: the local state database. The \<open>files\<close> table is the list of its rows in rowid
  order (the order \<open>SELECT *\<close> returns), the \<open>sync_state\<close> table an association list, and a closed
  handle an error of every operation. An object literal passed to \<open>upsertFile\<close> and a row read back
  have the same record type: a property the object lacks is \<open>Undef\<close>, an SQL NULL is \<open>Null\<close>.
  A statement can fail (a busy lock, an I/O error); the two transactions take the set of failing
  statements as a parameter.
\<close>

section \<open>Rows\<close>

datatype file_status =
    Synced | PendingUpload | PendingDownload | PendingDelete
  | Uploading | Downloading | ConflictSt | ErrorSt

record file_rec =
  rel_path :: "string jsv"
  server_file_id :: "string jsv"
  local_checksum :: "string jsv"
  server_checksum :: "string jsv"
  local_mtime :: "int jsv"
  fsize :: "int jsv"
  server_seq :: "int jsv"
  fstatus :: "file_status jsv"
  needs_bytes :: "int jsv"

text \<open>The object without properties: what spreading \<open>undefined\<close> contributes.\<close>

definition empty_rec :: file_rec where
  "empty_rec = \<lparr>rel_path = Undef, server_file_id = Undef, local_checksum = Undef,
     server_checksum = Undef, local_mtime = Undef, fsize = Undef, server_seq = Undef,
     fstatus = Undef, needs_bytes = Undef\<rparr>"

fun row_key :: "file_rec \<Rightarrow> string" where
  "row_key r = (case rel_path r of Val p \<Rightarrow> p | _ \<Rightarrow> [])"

declare row_key.simps [simp del]

lemma row_key_update [simp]:
  "row_key (r\<lparr>server_file_id := a\<rparr>) = row_key r" "row_key (r\<lparr>local_checksum := b\<rparr>) = row_key r"
  "row_key (r\<lparr>server_checksum := c\<rparr>) = row_key r" "row_key (r\<lparr>local_mtime := e\<rparr>) = row_key r"
  "row_key (r\<lparr>fsize := f\<rparr>) = row_key r" "row_key (r\<lparr>server_seq := g\<rparr>) = row_key r"
  "row_key (r\<lparr>fstatus := h\<rparr>) = row_key r" "row_key (r\<lparr>needs_bytes := i\<rparr>) = row_key r"
  "row_key (r\<lparr>rel_path := Val p\<rparr>) = p"
  by (simp_all add: row_key.simps)

section \<open>The database\<close>

record state_db =
  db_open :: bool
  db_files :: "file_rec list"
  db_meta :: "(string \<times> string) list"

datatype db_error = NotOpened | BadRelativePath | SqlError

definition db_close :: "state_db \<Rightarrow> state_db" where
  "db_close d = d\<lparr>db_open := False\<rparr>"

definition handle :: "state_db \<Rightarrow> db_error + state_db" where
  "handle d = (if db_open d then Inr d else Inl NotOpened)"

subsection \<open>The key/value table and the cursor\<close>

definition get_meta :: "state_db \<Rightarrow> string \<Rightarrow> string option" where
  "get_meta d k = map_of (db_meta d) k"

fun kv_put :: "string \<Rightarrow> string \<Rightarrow> (string \<times> string) list \<Rightarrow> (string \<times> string) list" where
  "kv_put k v [] = [(k, v)]"
| "kv_put k v ((k', v') # kvs) = (if k = k' then (k, v) # kvs else (k', v') # kv_put k v kvs)"

definition set_meta :: "string \<Rightarrow> string \<Rightarrow> state_db \<Rightarrow> state_db" where
  "set_meta k v d = d\<lparr>db_meta := kv_put k v (db_meta d)\<rparr>"

definition get_last_seq :: "state_db \<Rightarrow> int" where
  "get_last_seq d =
     (case (case get_meta d ''last_seq'' of None \<Rightarrow> None | Some t \<Rightarrow> parse_int t) of
        None \<Rightarrow> 0
      | Some n \<Rightarrow> if 0 \<le> n then n else 0)"

text \<open>\<open>Number.isFinite\<close> fails on \<open>undefined\<close> and \<open>null\<close>.\<close>

fun set_last_seq :: "int jsv \<Rightarrow> state_db \<Rightarrow> state_db" where
  "set_last_seq (Val n) d = (if n < 0 then d else set_meta ''last_seq'' (int_str n) d)"
| "set_last_seq _ d = d"

subsection \<open>File rows\<close>

definition get_file :: "state_db \<Rightarrow> string \<Rightarrow> file_rec option" where
  "get_file d p = find (\<lambda>r. row_key r = p) (db_files d)"

text \<open>SQLite's \<open>NOCASE\<close> collation folds the ASCII letters only.\<close>

definition ascii_lower :: "char \<Rightarrow> char" where
  "ascii_lower c =
     (if (65 :: nat) \<le> of_char c \<and> of_char c \<le> (90 :: nat)
      then char_of (of_char c + (32 :: nat)) else c)"

definition nocase_eq :: "string \<Rightarrow> string \<Rightarrow> bool" where
  "nocase_eq s t \<longleftrightarrow> map ascii_lower s = map ascii_lower t"

definition get_file_folded :: "state_db \<Rightarrow> string \<Rightarrow> bool \<Rightarrow> file_rec option" where
  "get_file_folded d p folded =
     (let exact = get_file d p
      in if exact \<noteq> None \<or> \<not> folded then exact
         else find (\<lambda>r. nocase_eq (row_key r) p) (db_files d))"

definition get_all_files :: "state_db \<Rightarrow> file_rec list" where
  "get_all_files d = db_files d"

definition get_files_by_status :: "state_db \<Rightarrow> file_status \<Rightarrow> file_rec list" where
  "get_files_by_status d st = filter (\<lambda>r. fstatus r = Val st) (db_files d)"

text \<open>The values bound to the INSERT.\<close>

definition bind_row :: "file_rec \<Rightarrow> file_rec" where
  "bind_row f = f\<lparr>
     server_file_id := str_or (server_file_id f) Null,
     local_checksum := str_or (local_checksum f) Null,
     server_checksum := str_or (server_checksum f) Null,
     local_mtime := nullish_or (local_mtime f) Null,
     fsize := nullish_or (fsize f) Null,
     server_seq := num_or (server_seq f) (Val 0),
     fstatus := nullish_or (fstatus f) (Val Synced),
     needs_bytes := num_or (needs_bytes f) (Val 0)\<rparr>"

text \<open>\<open>ON CONFLICT(relativePath) DO UPDATE\<close> keeps the row's place; a new key is appended.\<close>

fun put_row :: "file_rec \<Rightarrow> file_rec list \<Rightarrow> file_rec list" where
  "put_row r [] = [r]"
| "put_row r (x # xs) = (if row_key x = row_key r then r # xs else x # put_row r xs)"

definition put_file :: "file_rec \<Rightarrow> state_db \<Rightarrow> state_db" where
  "put_file f d = d\<lparr>db_files := put_row (bind_row f) (db_files d)\<rparr>"

definition upsert_file :: "file_rec \<Rightarrow> state_db \<Rightarrow> db_error + state_db" where
  "upsert_file f d =
     (case rel_path f of
        Val p \<Rightarrow>
          if p = [] then Inl BadRelativePath
          else (case handle d of
                  Inl e \<Rightarrow> Inl e
                | Inr d \<Rightarrow> Inr (put_file f d))
      | _ \<Rightarrow> Inl BadRelativePath)"

definition update_file_status :: "string \<Rightarrow> file_status \<Rightarrow> state_db \<Rightarrow> state_db" where
  "update_file_status p st d = d\<lparr>db_files :=
     map (\<lambda>r. if row_key r = p then r\<lparr>fstatus := Val st\<rparr> else r) (db_files d)\<rparr>"

definition remove_file :: "string \<Rightarrow> state_db \<Rightarrow> state_db" where
  "remove_file p d = d\<lparr>db_files := filter (\<lambda>r. row_key r \<noteq> p) (db_files d)\<rparr>"

subsection \<open>Transactions\<close>

datatype sql_stmt = SBegin | SRemove | SUpsert | SClearMeta | SClearFiles | SCommit

text \<open>
  \<open>renameFile\<close> and \<open>clearAll\<close>. BEGIN runs outside the \<open>try\<close>: its failure leaves no transaction. Any
  later failure reaches the ROLLBACK, which restores the state BEGIN saw, and rethrows.
\<close>

definition rename_file_faulty ::
    "(sql_stmt \<Rightarrow> bool) \<Rightarrow> string \<Rightarrow> file_rec \<Rightarrow> state_db \<Rightarrow> state_db \<times> (db_error + unit)" where
  "rename_file_faulty fails old_path new_row d =
     (if \<not> db_open d then (d, Inl NotOpened)
      else if fails SBegin then (d, Inl SqlError)
      else if fails SRemove then (d, Inl SqlError)
      else
        (case upsert_file new_row (remove_file old_path d) of
           Inl e \<Rightarrow> (d, Inl e)
         | Inr d' \<Rightarrow>
             if fails SUpsert \<or> fails SCommit then (d, Inl SqlError)
             else (d', Inr ())))"

definition rename_file :: "string \<Rightarrow> file_rec \<Rightarrow> state_db \<Rightarrow> db_error + state_db" where
  "rename_file old_path new_row d =
     (case rename_file_faulty (\<lambda>_. False) old_path new_row d of
        (d', Inl e) \<Rightarrow> Inl e | (d', Inr _) \<Rightarrow> Inr d')"

definition clear_all_faulty :: "(sql_stmt \<Rightarrow> bool) \<Rightarrow> state_db \<Rightarrow> state_db \<times> (db_error + unit)" where
  "clear_all_faulty fails d =
     (if \<not> db_open d then (d, Inl NotOpened)
      else if fails SBegin \<or> fails SClearMeta \<or> fails SClearFiles \<or> fails SCommit
      then (d, Inl SqlError)
      else (d\<lparr>db_meta := [], db_files := []\<rparr>, Inr ()))"

definition clear_all :: "state_db \<Rightarrow> db_error + state_db" where
  "clear_all d = (case clear_all_faulty (\<lambda>_. False) d of
     (d', Inl e) \<Rightarrow> Inl e | (d', Inr _) \<Rightarrow> Inr d')"

section \<open>The tables\<close>

lemma map_of_kv_put: "map_of (kv_put k v kvs) = (map_of kvs)(k \<mapsto> v)"
  by (induction k v kvs rule: kv_put.induct) auto

lemma get_meta_set_meta: "get_meta (set_meta k v d) k' = (if k' = k then Some v else get_meta d k')"
  by (simp add: get_meta_def set_meta_def map_of_kv_put)

lemma get_last_seq_nonneg: "0 \<le> get_last_seq d"
  by (simp add: get_last_seq_def split: option.splits)

lemma get_last_seq_set_last_seq [simp]:
  "0 \<le> n \<Longrightarrow> get_last_seq (set_last_seq (Val n) d) = n"
  by (simp add: get_last_seq_def get_meta_set_meta parse_int_int_str)

lemma get_last_seq_other_key [simp]:
  "k \<noteq> ''last_seq'' \<Longrightarrow> get_last_seq (set_meta k v d) = get_last_seq d"
  by (simp add: get_last_seq_def get_meta_set_meta)

lemma get_last_seq_db_files [simp]: "get_last_seq (d\<lparr>db_files := fs\<rparr>) = get_last_seq d"
  by (simp add: get_last_seq_def get_meta_def)

lemma set_last_seq_files [simp]: "db_files (set_last_seq v d) = db_files d"
  by (cases v) (auto simp: set_meta_def)

lemma set_last_seq_open [simp]: "db_open (set_last_seq v d) = db_open d"
  by (cases v) (auto simp: set_meta_def)

declare set_last_seq.simps [simp del]

lemma set_meta_files [simp]: "db_files (set_meta k v d) = db_files d"
  by (simp add: set_meta_def)

lemma set_meta_open [simp]: "db_open (set_meta k v d) = db_open d"
  by (simp add: set_meta_def)

lemma row_key_bind_row [simp]: "row_key (bind_row r) = row_key r"
  by (simp add: row_key.simps bind_row_def)

lemma find_put_row:
  "find (\<lambda>x. row_key x = k) (put_row r xs) =
     (if k = row_key r then Some r else find (\<lambda>x. row_key x = k) xs)"
  by (induction xs) auto

lemma find_remove:
  "find (\<lambda>x. row_key x = k) (filter (\<lambda>x. row_key x \<noteq> p) xs) =
     (if k = p then None else find (\<lambda>x. row_key x = k) xs)"
  by (induction xs) auto

lemma set_put_row: "set (put_row r xs) \<subseteq> insert r (set xs)"
  by (induction xs) auto

lemma keys_put_row: "row_key ` set (put_row r xs) = insert (row_key r) (row_key ` set xs)"
  by (induction xs) auto

lemma distinct_put_row:
  "distinct (map row_key xs) \<Longrightarrow> distinct (map row_key (put_row r xs))"
proof (induction xs)
  case (Cons x xs)
  then show ?case using keys_put_row [of r xs] by (auto simp: image_iff)
qed simp

text \<open>What the table promises: one row per path, and no row holds \<open>undefined\<close> or an empty key.\<close>

definition row_ok :: "file_rec \<Rightarrow> bool" where
  "row_ok r \<longleftrightarrow> row_key r \<noteq> [] \<and> server_file_id r \<noteq> Undef \<and> local_checksum r \<noteq> Undef \<and>
     server_checksum r \<noteq> Undef \<and> local_mtime r \<noteq> Undef \<and> fsize r \<noteq> Undef \<and>
     server_seq r \<notin> {Undef, Null} \<and> fstatus r \<notin> {Undef, Null} \<and> needs_bytes r \<notin> {Undef, Null}"

definition db_ok :: "state_db \<Rightarrow> bool" where
  "db_ok d \<longleftrightarrow> distinct (map row_key (db_files d)) \<and> (\<forall>r \<in> set (db_files d). row_ok r)"

lemma nullish_or_defined [simp]:
  "nullish_or a Null \<noteq> Undef" "nullish_or a (Val v) \<noteq> Undef" "nullish_or a (Val v) \<noteq> Null"
  by (cases a; simp)+

lemma str_or_defined [simp]: "str_or a Null \<noteq> Undef"
  by (cases a) (auto simp: str_or_def)

lemma num_or_defined [simp]: "num_or a (Val v) \<noteq> Undef" "num_or a (Val v) \<noteq> Null"
  by (cases a; simp add: num_or_def)+

lemma row_ok_bind_row: "rel_path r = Val p \<Longrightarrow> p \<noteq> [] \<Longrightarrow> row_ok (bind_row r)"
  by (simp add: row_ok_def row_key.simps bind_row_def)

lemma bind_row_idem: "bind_row (bind_row r) = bind_row r"
  by (simp add: bind_row_def js_simps)

lemma upsert_file_Inr_iff:
  "upsert_file f d = Inr d' \<longleftrightarrow>
     db_open d \<and> row_key f \<noteq> [] \<and> d' = put_file f d"
  by (auto simp: upsert_file_def row_key.simps handle_def split: jsv.splits)

lemma put_file_db_ok: "db_ok d \<Longrightarrow> row_key f \<noteq> [] \<Longrightarrow> db_ok (put_file f d)"
proof -
  assume ok: "db_ok d" and "row_key f \<noteq> []"
  then have "row_ok (bind_row f)"
    by (cases "rel_path f") (auto simp: row_key.simps intro: row_ok_bind_row)
  with ok set_put_row [of "bind_row f" "db_files d"] show ?thesis
    by (auto simp: db_ok_def put_file_def intro: distinct_put_row)
qed

lemma upsert_file_db_ok: "db_ok d \<Longrightarrow> upsert_file f d = Inr d' \<Longrightarrow> db_ok d'"
  by (auto simp: upsert_file_Inr_iff intro: put_file_db_ok)

lemma get_file_put_file:
  "get_file (put_file f d) k = (if k = row_key f then Some (bind_row f) else get_file d k)"
  by (simp add: get_file_def put_file_def find_put_row)

lemma get_file_remove_file:
  "get_file (remove_file p d) k = (if k = p then None else get_file d k)"
  by (simp add: get_file_def remove_file_def find_remove)

lemma put_file_meta [simp]:
  "get_last_seq (put_file f d) = get_last_seq d" "db_meta (put_file f d) = db_meta d"
  "db_open (put_file f d) = db_open d"
  by (simp_all add: put_file_def)

lemma remove_file_meta [simp]:
  "get_last_seq (remove_file p d) = get_last_seq d" "db_meta (remove_file p d) = db_meta d"
  "db_open (remove_file p d) = db_open d"
  by (simp_all add: remove_file_def)

lemma update_file_status_meta [simp]:
  "get_last_seq (update_file_status p st d) = get_last_seq d"
  "db_meta (update_file_status p st d) = db_meta d"
  "db_open (update_file_status p st d) = db_open d"
  by (simp_all add: update_file_status_def)

lemma db_ok_meta [simp]: "db_ok (set_meta k v d) = db_ok d" "db_ok (set_last_seq n d) = db_ok d"
  by (simp_all add: db_ok_def)

lemma remove_file_db_ok: "db_ok d \<Longrightarrow> db_ok (remove_file p d)"
  by (auto simp: db_ok_def remove_file_def distinct_map_filter)

lemma update_file_status_db_ok: "db_ok d \<Longrightarrow> db_ok (update_file_status p st d)"
proof -
  assume ok: "db_ok d"
  have key: "row_key (if row_key r = p then r\<lparr>fstatus := Val st\<rparr> else r) = row_key r" for r
    by simp
  have "row_ok r \<Longrightarrow> row_ok (r\<lparr>fstatus := Val st\<rparr>)" for r
    by (auto simp: row_ok_def)
  with ok show ?thesis
    by (auto simp: db_ok_def update_file_status_def comp_def key)
qed

lemma get_file_SomeD: "get_file d p = Some r \<Longrightarrow> r \<in> set (db_files d) \<and> row_key r = p"
  by (auto simp: get_file_def find_Some_iff)

lemma get_file_update_status:
  "get_file (update_file_status p st d) q =
     (if q = p then map_option (\<lambda>r. r\<lparr>fstatus := Val st\<rparr>) (get_file d q) else get_file d q)"
proof -
  have "find (\<lambda>r. row_key r = q) (map (\<lambda>r. if row_key r = p then r\<lparr>fstatus := Val st\<rparr> else r) xs)
     = (if q = p then map_option (\<lambda>r. r\<lparr>fstatus := Val st\<rparr>) (find (\<lambda>r. row_key r = q) xs)
        else find (\<lambda>r. row_key r = q) xs)" for xs
    by (induction xs) (auto simp: row_key.simps)
  then show ?thesis by (simp add: get_file_def update_file_status_def)
qed

section \<open>The interface of the row store\<close>

text \<open>
  What a client of the row store relies on. Every engine operation that moves a row goes through
  \<open>put\<close> and \<open>del\<close>, so the laws of a move are proved here once.
\<close>

locale row_store =
  fixes get :: "'s \<Rightarrow> 'k \<Rightarrow> 'r option"
    and put :: "'r \<Rightarrow> 's \<Rightarrow> 's"
    and del :: "'k \<Rightarrow> 's \<Rightarrow> 's"
    and key :: "'r \<Rightarrow> 'k"
    and stored :: "'r \<Rightarrow> 'r"
    and admissible :: "'r \<Rightarrow> bool"
    and invar :: "'s \<Rightarrow> bool"
  assumes get_put: "get (put r s) k = (if k = key r then Some (stored r) else get s k)"
    and get_del: "get (del p s) k = (if k = p then None else get s k)"
    and invar_put: "invar s \<Longrightarrow> admissible r \<Longrightarrow> invar (put r s)"
    and invar_del: "invar s \<Longrightarrow> invar (del p s)"
begin

lemma get_move:
  "get (put r (del p s)) k =
     (if k = key r then Some (stored r) else if k = p then None else get s k)"
  by (simp add: get_put get_del)

lemma move_leaves_one: "p \<noteq> key r \<Longrightarrow> get (put r (del p s)) p = None"
  by (simp add: get_move)

lemma put_last_wins: "key r = key r' \<Longrightarrow> get (put r' (put r s)) = get (put r' s)"
  by (rule ext) (simp add: get_put)

lemma invar_move: "invar s \<Longrightarrow> admissible r \<Longrightarrow> invar (put r (del p s))"
  by (intro invar_put invar_del)

end

interpretation files: row_store get_file put_file remove_file row_key bind_row
    "\<lambda>r. row_key r \<noteq> []" db_ok
  by unfold_locales
    (simp_all add: get_file_put_file get_file_remove_file put_file_db_ok remove_file_db_ok)

section \<open>Properties\<close>

text \<open>Moving a row is all or nothing. Whatever statement fails, either the move
  committed, the new key holds the new row, the old key is free and every other row is untouched,
  or the call reports an error and the database is exactly what it was.\<close>

theorem rename_file_atomic:
  "case rename_file_faulty fails old_path new_row d of
     (d', Inl e) \<Rightarrow> d' = d
   | (d', Inr _) \<Rightarrow>
       (\<forall>k. get_file d' k = (if k = row_key new_row then Some (bind_row new_row)
                            else if k = old_path then None else get_file d k)) \<and>
       db_meta d' = db_meta d"
proof (cases "rename_file_faulty fails old_path new_row d")
  case (Pair d' res)
  then show ?thesis
    by (auto simp: rename_file_faulty_def upsert_file_Inr_iff files.get_move
        split: if_splits sum.splits)
qed

text \<open>The stored cursor reads back as it was written, a write of a missing or negative
  number is refused, and no stored text, torn or hand-edited, makes the reading negative.\<close>

theorem cursor_round_trip:
  "get_last_seq (set_last_seq v d) =
     (case v of Val n \<Rightarrow> if 0 \<le> n then n else get_last_seq d | _ \<Rightarrow> get_last_seq d)
   \<and> 0 \<le> get_last_seq d"
  using get_last_seq_set_last_seq [of _ d]
  by (cases v) (auto simp: get_last_seq_nonneg set_last_seq.simps)

text \<open>The states the module's own operations can produce from a freshly created database.\<close>

inductive db_reachable :: "state_db \<Rightarrow> bool" where
  db_fresh: "db_reachable \<lparr>db_open = True, db_files = [], db_meta = []\<rparr>"
| db_upsert: "db_reachable d \<Longrightarrow> upsert_file f d = Inr d' \<Longrightarrow> db_reachable d'"
| db_remove: "db_reachable d \<Longrightarrow> db_reachable (remove_file p d)"
| db_status: "db_reachable d \<Longrightarrow> db_reachable (update_file_status p st d)"
| db_rename: "db_reachable d \<Longrightarrow> rename_file_faulty fails p r d = (d', res) \<Longrightarrow> db_reachable d'"
| db_clear: "db_reachable d \<Longrightarrow> clear_all_faulty fails d = (d', res) \<Longrightarrow> db_reachable d'"
| db_meta_put: "db_reachable d \<Longrightarrow> db_reachable (set_meta k v d)"
| db_seq: "db_reachable d \<Longrightarrow> db_reachable (set_last_seq n d)"
| db_shut: "db_reachable d \<Longrightarrow> db_reachable (db_close d)"

lemma rename_file_faulty_db_ok:
  "db_ok d \<Longrightarrow> rename_file_faulty fails p r d = (d', res) \<Longrightarrow> db_ok d'"
  by (auto simp: rename_file_faulty_def upsert_file_Inr_iff files.invar_move
      split: if_splits sum.splits)

text \<open>Property C37: in every reachable database there is one row per path, no row has an empty path,
  and no column holds \<open>undefined\<close> or a missing status, sequence number or shortfall.\<close>

theorem db_reachable_ok: "db_reachable d \<Longrightarrow> db_ok d"
proof (induction rule: db_reachable.induct)
  case db_fresh
  show ?case by (simp add: db_ok_def)
next
  case (db_clear d fails d' res)
  then show ?case by (auto simp: clear_all_faulty_def db_ok_def split: if_splits)
next
  case (db_shut d)
  then show ?case by (simp add: db_close_def db_ok_def)
qed (auto intro: upsert_file_db_ok remove_file_db_ok update_file_status_db_ok
      rename_file_faulty_db_ok)

lemma db_reachable_ok_witness:
  "db_ok (set_meta ''k'' ''v'' \<lparr>db_open = True, db_files = [], db_meta = []\<rparr>)"
  by (rule db_reachable_ok) (intro db_meta_put db_fresh)

end
