(* ===== verification/Path_Filter.thy ===== *)
theory Path_Filter
  imports HS_Prelude
begin

text \<open>
  \<open>lib/path-filter.js\<close>: the ignore/include pattern grammar, the matcher, the classifier that
  \<open>config.js\<close> uses to warn about patterns, and the selective-sync composition. The lemmas give the
  matcher a reference semantics on path segments and show in which sense the classifier and the
  matcher agree.
\<close>

section \<open>Code\<close>

text \<open>What the code takes from the runtime: the Unicode functions and the separator \<open>path.sep\<close>.\<close>

record text_ops =
  nfc :: "string \<Rightarrow> string"
  to_lower :: "string \<Rightarrow> string"
  path_sep :: char

text \<open>An entry of a pattern list: \<open>typeof pattern === 'string'\<close> or anything else.\<close>

datatype js_pattern = PStr string | PNonStr

definition has_meta :: "string \<Rightarrow> bool" where
  "has_meta p \<longleftrightarrow>
     CHR ''['' \<in> set p \<or> CHR '']'' \<in> set p \<or> CHR ''?'' \<in> set p \<or> CHR ''!'' \<in> set p"

definition match_str_pattern :: "path \<Rightarrow> string \<Rightarrow> bool" where
  "match_str_pattern f p =
     (if has_meta p then False
      else if f = p then True
      else if slash \<notin> set p then
        (let base = basename f in
         if base = p then True
         else if starts_with p ''*.'' \<and> ends_with base (drop 1 p) then True
         else if p = ''*~'' \<and> ends_with base ''~'' then True
         else False)
      else if ends_with p ''/**'' then
        (let dir = take (length p - 3) p in
         if star \<in> set dir then False
         else if starts_with f (dir @ ''/'') \<or> f = dir then True
         else if slash \<notin> set dir \<and> dir \<in> set (split_on slash f) then True
         else False)
      else if star \<in> set p then False
      else if starts_with f (p @ ''/'') then True
      else False)"

fun match_pattern :: "path \<Rightarrow> js_pattern \<Rightarrow> bool" where
  "match_pattern f (PStr p) = match_str_pattern f p"
| "match_pattern f PNonStr = False"

datatype pattern_class = Unsupported | Tilde | Ext | Basename | RecursiveDir | PathQualified

definition classify_folded :: "string \<Rightarrow> pattern_class" where
  "classify_folded p =
     (if p = [] then Unsupported
      else if starts_with p ''/'' then Unsupported
      else if ends_with p ''/'' then Unsupported
      else if has_meta p then Unsupported
      else if slash \<notin> set p then
        (if p = ''*~'' then Tilde
         else if starts_with p ''*.'' \<and> star \<notin> set (drop 1 p) then Ext
         else if star \<in> set p then Unsupported
         else Basename)
      else if ends_with p ''/**'' then
        (if star \<in> set (take (length p - 3) p) then Unsupported else RecursiveDir)
      else if star \<in> set p then Unsupported
      else PathQualified)"

text \<open>Backslashes of a pattern are folded to slashes and the result is NFC-normalised.\<close>

definition fold_pattern :: "text_ops \<Rightarrow> string \<Rightarrow> string" where
  "fold_pattern T p = nfc T (fold_sep backslash p)"

fun classify_pattern :: "text_ops \<Rightarrow> js_pattern \<Rightarrow> pattern_class" where
  "classify_pattern T PNonStr = Unsupported"
| "classify_pattern T (PStr p) =
     (if p = [] then Unsupported else classify_folded (fold_pattern T p))"

definition normalize_path :: "text_ops \<Rightarrow> bool \<Rightarrow> path \<Rightarrow> path" where
  "normalize_path T case_fold f =
     (let n = nfc T (fold_sep (path_sep T) f) in if case_fold then to_lower T n else n)"

fun match_any_loop :: "text_ops \<Rightarrow> bool \<Rightarrow> path \<Rightarrow> js_pattern list \<Rightarrow> bool" where
  "match_any_loop T cf n [] = False"
| "match_any_loop T cf n (PNonStr # ps) = match_any_loop T cf n ps"
| "match_any_loop T cf n (PStr p # ps) =
     (let q = (if cf then to_lower T (fold_pattern T p) else fold_pattern T p)
      in if match_str_pattern n q then True else match_any_loop T cf n ps)"

text \<open>A pattern list may be missing (\<open>undefined\<close>), which is \<open>None\<close>.\<close>

definition match_any :: "text_ops \<Rightarrow> path \<Rightarrow> js_pattern list option \<Rightarrow> bool \<Rightarrow> bool" where
  "match_any T f patterns cf =
     (case patterns of
        None \<Rightarrow> False
      | Some ps \<Rightarrow> if ps = [] then False else match_any_loop T cf (normalize_path T cf f) ps)"

definition is_ignored :: "text_ops \<Rightarrow> path \<Rightarrow> js_pattern list option \<Rightarrow> bool \<Rightarrow> bool" where
  "is_ignored T f ignore_patterns cf = match_any T f ignore_patterns cf"

definition is_included :: "text_ops \<Rightarrow> path \<Rightarrow> js_pattern list option \<Rightarrow> bool \<Rightarrow> bool" where
  "is_included T f include_patterns cf =
     (case include_patterns of
        None \<Rightarrow> True
      | Some ps \<Rightarrow> if ps = [] then True else match_any T f include_patterns cf)"

record filter_opts =
  opt_include :: "js_pattern list option"
  opt_ignore :: "js_pattern list option"
  opt_case_fold :: bool

definition should_sync :: "text_ops \<Rightarrow> path \<Rightarrow> filter_opts \<Rightarrow> bool" where
  "should_sync T f opts =
     (if \<not> is_included T f (opt_include opts) (opt_case_fold opts) then False
      else if is_ignored T f (opt_ignore opts) (opt_case_fold opts) then False
      else True)"

text \<open>\<open>lib/constants.js\<close>: the patterns that are always ignored.\<close>

definition default_ignores :: "string list" where
  "default_ignores =
     [''.DS_Store'', ''Thumbs.db'', ''desktop.ini'', ''*.tmp'', ''*.swp'', ''*.swo'', ''*~'',
      ''.hermitstash-sync/**'', ''.git/**'', ''.svn/**'', ''node_modules/**'',
      ''__pycache__/**'', ''.Spotlight-V100/**'', ''.Trashes/**'', ''ehthumbs.db'']"

section \<open>Paths and patterns as lists of segments\<close>

abbreviation segments :: "path \<Rightarrow> string list" where
  "segments p \<equiv> split_on slash p"

lemma subtree_iff_prefix_segments:
  "f = d \<or> starts_with f (d @ ''/'') \<longleftrightarrow> prefix (segments d) (segments f)"
proof
  assume "f = d \<or> starts_with f (d @ ''/'')"
  then show "prefix (segments d) (segments f)"
    by (auto simp: prefix_def split_on_append_sep)
next
  show "prefix (segments d) (segments f) \<Longrightarrow> f = d \<or> starts_with f (d @ ''/'')"
  proof (induction d arbitrary: f)
    case Nil
    then show ?case
      by (cases f) (auto split: if_splits list.splits)
  next
    case (Cons x d)
    then obtain y f' where f: "f = y # f'"
      by (cases f) (auto split: if_splits list.splits)
    with Cons.prems have "x = y \<and> prefix (segments d) (segments f')"
      by (cases "segments d"; cases "segments f'") (auto split: if_splits)
    with Cons.IH [of f'] f show ?case by auto
  qed
qed

lemma last_segment_basename:
  assumes "canon_path f"
  shows "last (segments f) = basename f"
proof (cases "slash \<in> set f")
  case False
  then show ?thesis by (simp add: split_on_no_sep basename_no_sep)
next
  case True
  then obtain d b where f: "f = d @ slash # b" and b: "slash \<notin> set b"
    by (meson split_list_last)
  with assms have "b \<noteq> []"
    by (auto simp: canon_path_append dest: canon_path_nonempty)
  with f b show ?thesis
    by (simp add: split_on_append_sep split_on_no_sep basename_append)
qed

section \<open>Reference semantics of the supported patterns\<close>

text \<open>What each branch of the grammar means, on segments.\<close>

fun class_matches :: "pattern_class \<Rightarrow> string \<Rightarrow> path \<Rightarrow> bool" where
  "class_matches Unsupported p f = False"
| "class_matches Tilde p f = ends_with (last (segments f)) ''~''"
| "class_matches Ext p f = ends_with (last (segments f)) (drop 1 p)"
| "class_matches Basename p f = (last (segments f) = p)"
| "class_matches RecursiveDir p f =
     (let d = take (length p - 3) p in
      prefix (segments d) (segments f) \<or> (slash \<notin> set d \<and> d \<in> set (segments f)))"
| "class_matches PathQualified p f = prefix (segments p) (segments f)"

lemma drop_take_suffix: "ends_with p s \<Longrightarrow> p = take (length p - length s) p @ s"
  by (auto simp: suffix_def)

lemma classify_RecursiveDir:
  "classify_folded p = RecursiveDir \<longleftrightarrow>
     p \<noteq> [] \<and> \<not> starts_with p ''/'' \<and> \<not> has_meta p \<and> ends_with p ''/**'' \<and>
     star \<notin> set (take (length p - 3) p)"
  by (auto simp: classify_folded_def suffix_def)

lemma match_str_pattern_RecursiveDir:
  assumes "classify_folded p = RecursiveDir" and "star \<notin> set f"
  shows "match_str_pattern f p \<longleftrightarrow> class_matches RecursiveDir p f"
proof -
  from assms(1) have p: "\<not> has_meta p" "ends_with p ''/**''" "star \<notin> set (take (length p - 3) p)"
    by (simp_all add: classify_RecursiveDir)
  from p(2) have "star \<in> set p" "slash \<in> set p" by (auto simp: suffix_def)
  with assms(2) have "f \<noteq> p" by auto
  with p \<open>slash \<in> set p\<close> show ?thesis
    using subtree_iff_prefix_segments [of f "take (length p - 3) p"]
    by (auto simp: match_str_pattern_def Let_def)
qed

lemma match_str_pattern_PathQualified:
  assumes "classify_folded p = PathQualified"
  shows "match_str_pattern f p \<longleftrightarrow> class_matches PathQualified p f"
proof -
  from assms have "\<not> has_meta p" "slash \<in> set p" "\<not> ends_with p ''/**''" "star \<notin> set p"
    by (auto simp: classify_folded_def split: if_splits)
  then show ?thesis
    using subtree_iff_prefix_segments [of f p]
    by (auto simp: match_str_pattern_def Let_def)
qed

lemma match_str_pattern_basename:
  assumes c: "classify_folded p \<in> {Tilde, Ext, Basename}" and f: "canon_path f" "star \<notin> set f"
  shows "match_str_pattern f p \<longleftrightarrow> class_matches (classify_folded p) p f"
proof -
  from c have p: "\<not> has_meta p" "slash \<notin> set p" "p \<noteq> []"
    by (auto simp: classify_folded_def split: if_splits)
  from f(2) set_basename [of f] have star: "star \<notin> set (basename f)" by auto
  have eq: "f = p \<Longrightarrow> basename f = p"
    using p(2) by (simp add: basename_no_sep)
  have m: "match_str_pattern f p \<longleftrightarrow> basename f = p
      \<or> (starts_with p ''*.'' \<and> ends_with (basename f) (drop 1 p))
      \<or> (p = ''*~'' \<and> ends_with (basename f) ''~'')"
    using p eq by (auto simp: match_str_pattern_def Let_def)
  show ?thesis
    using c p star
    unfolding m by (auto simp: classify_folded_def last_segment_basename [OF f(1)] prefix_def
        split: if_splits)
qed

lemma match_str_pattern_Unsupported:
  assumes c: "classify_folded p = Unsupported" and f: "canon_path f" "star \<notin> set f"
  shows "\<not> match_str_pattern f p"
proof
  assume m: "match_str_pattern f p"
  then have meta: "\<not> has_meta p" by (auto simp: match_str_pattern_def split: if_splits)
  from f(1) have ne: "f \<noteq> []" by (rule canon_path_nonempty)
  from set_basename [of f] f(2) have bstar: "star \<notin> set (basename f)" by auto
  have bne: "basename f \<noteq> []"
    using f(1) last_segment_basename [OF f(1)] by (metis canon_path_def last_in_set split_on_nonempty)
  have not_sub: "\<not> (f = d \<or> starts_with f (d @ ''/''))" if "[] \<in> set (segments d)" for d
    using that f(1) subtree_iff_prefix_segments [of f d]
    by (auto simp: canon_path_def prefix_def)
  consider "p = []" | "starts_with p ''/''" | "ends_with p ''/''" "\<not> starts_with p ''/''"
    | "slash \<notin> set p" "star \<in> set p" "p \<noteq> ''*~''" "\<not> (starts_with p ''*.'' \<and> star \<notin> set (drop 1 p))"
    | "slash \<in> set p" "ends_with p ''/**''" "star \<in> set (take (length p - 3) p)"
    | "slash \<in> set p" "\<not> ends_with p ''/**''" "star \<in> set p"
    using c meta by (auto simp: classify_folded_def split: if_splits)
  then show False
  proof cases
    case 1
    with m ne bne show False by (auto simp: match_str_pattern_def split: if_splits)
  next
    case 2
    then obtain q where p: "p = slash # q" by (auto simp: prefix_def)
    let ?d = "take (length p - 3) p"
    have d: "?d = [] \<or> (\<exists>r. ?d = slash # r)"
      using p by (cases "length p - 3") auto
    then have "[] \<in> set (segments ?d)" by auto
    from not_sub [OF this] have nd: "f \<noteq> ?d" "\<not> starts_with f (?d @ ''/'')" by auto
    from p have "[] \<in> set (segments p)" by simp
    from not_sub [OF this] have np: "f \<noteq> p" "\<not> starts_with f (p @ ''/'')" by auto
    have ns: "slash \<notin> set ?d \<Longrightarrow> ?d \<notin> set (segments f)"
      using d f(1) by (auto simp: canon_path_def)
    from p have "slash \<in> set p" by simp
    with m nd np ns show False
      unfolding match_str_pattern_def Let_def by (simp split: if_splits)
  next
    case 3
    then obtain q where p: "p = q @ [slash]" by (auto simp: suffix_def)
    then have "[] \<in> set (segments p)" by (simp add: split_on_append_sep)
    moreover from p have "\<not> ends_with p ''/**''" by (auto simp: suffix_def)
    ultimately show False
      using m not_sub [of p]
      by (auto simp: match_str_pattern_def p Let_def split: if_splits)
  next
    case 4
    with m meta f(2) bstar show False
      by (auto simp: match_str_pattern_def Let_def suffix_def prefix_def split: if_splits)
  next
    case 5
    then have "star \<in> set p" by (auto dest: in_set_takeD)
    with 5 m f(2) show False
      by (auto simp: match_str_pattern_def Let_def split: if_splits)
  next
    case 6
    with m f(2) show False
      by (auto simp: match_str_pattern_def Let_def split: if_splits)
  qed
qed

section \<open>Properties\<close>

text \<open>Property C38: on a canonical path without a literal star, the matcher decides exactly the
  segment-level meaning of the branch the classifier assigns to the pattern; in particular a
  pattern classified unsupported, which the operator is warned about, matches no such path.\<close>

theorem match_pattern_reference:
  assumes "canon_path f" and "star \<notin> set f"
  shows "match_str_pattern f p \<longleftrightarrow> class_matches (classify_folded p) p f"
proof (cases "classify_folded p")
  case Unsupported
  with assms show ?thesis using match_str_pattern_Unsupported [of p f] by simp
next
  case RecursiveDir
  with assms show ?thesis using match_str_pattern_RecursiveDir [of p f] by simp
next
  case PathQualified
  then show ?thesis using match_str_pattern_PathQualified [of p f] by simp
qed (use assms match_str_pattern_basename [of p f] in simp_all)

lemma match_pattern_reference_witness:
  "match_str_pattern ''a/node_modules/x.js'' ''node_modules/**'' \<longleftrightarrow>
     class_matches (classify_folded ''node_modules/**'') ''node_modules/**'' ''a/node_modules/x.js''"
  by (rule match_pattern_reference) (simp_all add: canon_path_def)

text \<open>The lockstep between classifier and matcher stops at paths that contain the
  wildcard literally: a pattern reported as matching nothing does exclude the file whose name is
  the pattern itself.\<close>

theorem unsupported_matches_literal_star:
  "classify_folded ''temp*'' = Unsupported \<and> match_str_pattern ''temp*'' ''temp*''
   \<and> classify_folded ''*.a*b'' = Unsupported \<and> match_str_pattern ''d/x.a*b'' ''*.a*b''"
  by (simp add: classify_folded_def match_str_pattern_def has_meta_def basename_def
      strip_slashes_def suffix_def prefix_def)

text \<open>A directory pattern with a slash means the same with and without its trailing
  recursive suffix, on every path.\<close>

theorem path_qualified_eq_recursive:
  assumes "slash \<in> set d" and "star \<notin> set d"
  shows "match_str_pattern f (d @ ''/**'') \<longleftrightarrow> match_str_pattern f d"
proof -
  have meta: "has_meta (d @ ''/**'') = has_meta d" by (auto simp: has_meta_def)
  have "\<not> ends_with d ''/**''" using assms(2) by (auto simp: suffix_def)
  moreover have "ends_with (d @ ''/**'') ''/**''" by (simp add: suffix_def)
  ultimately show ?thesis using assms
    by (auto simp: match_str_pattern_def Let_def meta prefix_def)
qed

lemma path_qualified_eq_recursive_witness:
  "match_str_pattern ''src/nm/x'' (''src/nm'' @ ''/**'') \<longleftrightarrow> match_str_pattern ''src/nm/x'' ''src/nm''"
  by (rule path_qualified_eq_recursive) simp_all

text \<open>The folded form of a pattern, and whether it covers a path, in the reference semantics.\<close>

definition effective_pattern :: "text_ops \<Rightarrow> bool \<Rightarrow> string \<Rightarrow> string" where
  "effective_pattern T cf p = (if cf then to_lower T (fold_pattern T p) else fold_pattern T p)"

fun pattern_covers :: "text_ops \<Rightarrow> bool \<Rightarrow> path \<Rightarrow> js_pattern \<Rightarrow> bool" where
  "pattern_covers T cf f PNonStr = False"
| "pattern_covers T cf f (PStr p) =
     (let q = effective_pattern T cf p
      in class_matches (classify_folded q) q (normalize_path T cf f))"

lemma match_any_loop_iff:
  assumes "canon_path (normalize_path T cf f)" and "star \<notin> set (normalize_path T cf f)"
  shows "match_any_loop T cf (normalize_path T cf f) ps \<longleftrightarrow> (\<exists>p \<in> set ps. pattern_covers T cf f p)"
proof (induction ps)
  case Nil
  show ?case by simp
next
  case (Cons p ps)
  have "match_str_pattern (normalize_path T cf f) q \<longleftrightarrow>
      class_matches (classify_folded q) q (normalize_path T cf f)" for q
    by (cases "classify_folded q")
      (use assms match_str_pattern_Unsupported match_str_pattern_RecursiveDir
        match_str_pattern_PathQualified match_str_pattern_basename in auto)
  with Cons show ?case by (cases p) (auto simp: Let_def effective_pattern_def)
qed

lemma match_any_iff:
  assumes "canon_path (normalize_path T cf f)" and "star \<notin> set (normalize_path T cf f)"
  shows "match_any T f pats cf \<longleftrightarrow> (\<exists>ps. pats = Some ps \<and> (\<exists>p \<in> set ps. pattern_covers T cf f p))"
  by (auto simp: match_any_def match_any_loop_iff [OF assms] split: option.splits)

text \<open>Selective sync admits a path exactly when no include list is given or one of its
  patterns covers the path, and no ignore pattern covers it.\<close>

theorem should_sync_iff:
  assumes "canon_path (normalize_path T (opt_case_fold opts) f)"
    and "star \<notin> set (normalize_path T (opt_case_fold opts) f)"
  shows "should_sync T f opts \<longleftrightarrow>
    (opt_include opts \<in> {None, Some []} \<or>
      (\<exists>ps. opt_include opts = Some ps \<and> (\<exists>p \<in> set ps. pattern_covers T (opt_case_fold opts) f p))) \<and>
    \<not> (\<exists>ps. opt_ignore opts = Some ps \<and> (\<exists>p \<in> set ps. pattern_covers T (opt_case_fold opts) f p))"
  by (auto simp: should_sync_def is_included_def is_ignored_def match_any_iff [OF assms]
      split: option.splits if_splits)

definition ascii_ops :: text_ops where
  "ascii_ops = \<lparr>nfc = (\<lambda>s. s), to_lower = map (\<lambda>c. if (65 :: nat) \<le> of_char c \<and> of_char c \<le> (90 :: nat)
      then char_of (of_char c + (32 :: nat)) else c), path_sep = slash\<rparr>"

lemma should_sync_iff_witness:
  "\<not> should_sync ascii_ops ''a/.git/config''
     \<lparr>opt_include = None, opt_ignore = Some [PStr ''.git/**''], opt_case_fold = False\<rparr>"
  by (subst should_sync_iff)
    (simp_all add: normalize_path_def ascii_ops_def fold_sep_def canon_path_def
      effective_pattern_def fold_pattern_def classify_folded_def has_meta_def suffix_def prefix_def)

text \<open>Whatever the include list, a path with a version-control or dependency directory
  among its segments is never synced once the default ignores are in force.\<close>

theorem default_ignored_dirs_never_sync:
  assumes ascii: "\<And>s. (\<forall>c \<in> set s. of_char c < (128 :: nat)) \<Longrightarrow> nfc T s = s"
    and dir: "d \<in> {''.git'', ''.svn'', ''node_modules'', ''__pycache__'', ''.hermitstash-sync''}"
    and seg: "d \<in> set (segments (normalize_path T False f))"
    and ign: "opt_ignore opts = Some ps" "PStr ` set default_ignores \<subseteq> set ps"
    and cf: "\<not> opt_case_fold opts"
  shows "\<not> should_sync T f opts"
proof -
  let ?n = "normalize_path T False f"
  let ?p = "d @ ''/**''"
  have p: "fold_pattern T ?p = ?p"
    using dir by (subst fold_pattern_def, subst ascii) (auto simp: fold_sep_def)
  have m: "match_str_pattern ?n ?p"
  proof -
    have "\<not> has_meta ?p" "star \<notin> set d" "slash \<notin> set d" using dir by (auto simp: has_meta_def)
    moreover have "ends_with ?p ''/**''" by (rule suffixI) (rule refl)
    moreover have "slash \<in> set ?p" "take (length ?p - 3) ?p = d" by simp_all
    ultimately show ?thesis using seg by (simp add: match_str_pattern_def Let_def)
  qed
  have "PStr ?p \<in> set ps" using dir ign(2) by (auto simp: default_ignores_def)
  then have "match_any_loop T False ?n ps"
  proof (induction ps)
    case (Cons q ps)
    with m p show ?case by (cases q) (auto simp: Let_def)
  qed simp
  moreover from \<open>PStr ?p \<in> set ps\<close> have "ps \<noteq> []" by auto
  ultimately show ?thesis using cf ign(1)
    by (simp add: should_sync_def is_ignored_def match_any_def)
qed

lemma default_ignored_dirs_never_sync_witness:
  "\<not> should_sync ascii_ops ''sub/node_modules/m/index.js''
     \<lparr>opt_include = None, opt_ignore = Some (map PStr default_ignores), opt_case_fold = False\<rparr>"
  by (rule default_ignored_dirs_never_sync [where d = "''node_modules''"])
    (auto simp: ascii_ops_def normalize_path_def fold_sep_def)

end
