(* ===== verification/Http_Download.thy ===== *)
theory Http_Download
  imports HS_Prelude
begin

text \<open>
  The local disk and the download of one file (\<open>downloadFile\<close> of \<open>lib/http-client.js\<close>): the
  content-length preflight, the counting gate that bounds the body, the checksum or length check
  before the rename, and the removal of the temporary file on every failure.
\<close>

section \<open>The disk\<close>

text \<open>
  A regular file is its bytes and its modification time. The disk maps the key of a path to the
  node there; the key is the path itself, or its case-folded form on a case-folding volume.
  Directories are nodes only where the code asks for them (\<open>isDirectory\<close>); \<open>mkdirSync\<close> with
  \<open>recursive\<close> needs no model.
\<close>

type_synonym content = string

datatype node = RegFile content int | Directory

type_synonym disk = "path \<Rightarrow> node option"

fun node_size :: "node \<Rightarrow> int" where
  "node_size (RegFile c _) = int (length c)"
| "node_size Directory = 0"

fun node_mtime :: "node \<Rightarrow> int" where
  "node_mtime (RegFile _ m) = m"
| "node_mtime Directory = 0"

definition rename_node :: "path \<Rightarrow> path \<Rightarrow> disk \<Rightarrow> disk" where
  "rename_node a b d = (d(a := None))(b := d a)"

definition remove_node :: "path \<Rightarrow> disk \<Rightarrow> disk" where
  "remove_node a d = d(a := None)"

section \<open>What the server and the host answer\<close>

datatype body_end = BodyEnd | BodyAborted

text \<open>
  A request that fails before a response, or a response: status, the \<open>content-length\<close> header if it
  parses as a number, the chunks of the body and how it ended.
\<close>

datatype reply = NetworkError | Response int "int option" "content list" body_end

record host_io =
  mkdir_fails :: bool       \<comment> \<open>\<open>mkdirSync\<close> of the destination directory throws\<close>
  temp_exists :: bool       \<comment> \<open>\<open>O_EXCL\<close> finds a file at the temporary path\<close>
  write_fails :: bool       \<comment> \<open>the write stream errors first (disk full, I/O)\<close>
  swap_locked :: bool       \<comment> \<open>\<open>renameWithRetry\<close> gives up\<close>
  guard_refuses :: bool     \<comment> \<open>\<open>_pinnedServerLookup\<close> rejects\<close>
  io_time :: int            \<comment> \<open>modification time of the written file\<close>

datatype dl_error = DlPermanent | DlTransient

section \<open>The counting gate\<close>

text \<open>
  The \<open>transform\<close> of the counter, one chunk at a time: \<open>received\<close> so far and the bytes passed on.
  The chunk that crosses the ceiling is counted but neither hashed nor written, and ends the run.
\<close>

datatype gate_result = GateOverflow int | GatePassed int content

fun count_chunks :: "int \<Rightarrow> content list \<Rightarrow> int \<Rightarrow> content \<Rightarrow> gate_result" where
  "count_chunks ceiling [] received written = GatePassed received written"
| "count_chunks ceiling (c # cs) received written =
     (let received = received + int (length c)
      in if received > ceiling then GateOverflow received
         else count_chunks ceiling cs received (written @ c))"

definition byte_ceiling :: "int \<Rightarrow> int \<Rightarrow> int" where
  "byte_ceiling max_bytes wanted = (if wanted > 0 then min max_bytes wanted else max_bytes)"

fun wanted_size :: "int jsv \<Rightarrow> int" where
  "wanted_size (Val n) = (if n > 0 then n else 0)"
| "wanted_size _ = 0"

text \<open>The \<open>finish\<close> handler's integrity check: the digest if one was given, else the exact length.\<close>

definition body_verified :: "(content \<Rightarrow> string) \<Rightarrow> string jsv \<Rightarrow> int \<Rightarrow> int \<Rightarrow> content \<Rightarrow> bool" where
  "body_verified digest expected wanted received body =
     (if str_truthy expected then Val (digest body) = expected
      else if wanted > 0 \<and> received \<noteq> wanted then False
      else True)"

section \<open>\<open>downloadFile\<close>\<close>

definition download_file ::
    "(content \<Rightarrow> string) \<Rightarrow> int \<Rightarrow> host_io \<Rightarrow> reply \<Rightarrow> path \<Rightarrow> path \<Rightarrow> string jsv \<Rightarrow> int jsv \<Rightarrow>
     disk \<Rightarrow> (dl_error + unit) \<times> disk" where
  "download_file digest max_bytes io reply tmp dest expected expected_size d =
     (let wanted = wanted_size expected_size;
          ceiling = byte_ceiling max_bytes wanted
      in if mkdir_fails io \<or> guard_refuses io then (Inl DlTransient, d)
         else
           (case reply of
              NetworkError \<Rightarrow> (Inl DlTransient, remove_node tmp d)
            | Response status declared chunks ending \<Rightarrow>
                if status \<noteq> 200
                then (Inl DlTransient, if ending = BodyAborted then remove_node tmp d else d)
                else if (case declared of Some n \<Rightarrow> n > ceiling | None \<Rightarrow> False)
                then (Inl DlPermanent, d)
                else if temp_exists io \<or> write_fails io then (Inl DlTransient, remove_node tmp d)
                else
                  (case count_chunks ceiling chunks 0 [] of
                     GateOverflow received \<Rightarrow> (Inl DlPermanent, remove_node tmp d)
                   | GatePassed received body \<Rightarrow>
                       if ending = BodyAborted then (Inl DlTransient, remove_node tmp d)
                       else
                         (let d = d(tmp := Some (RegFile body (io_time io)))
                          in if \<not> body_verified digest expected wanted received body
                             then (Inl DlTransient, remove_node tmp d)
                             else if swap_locked io then (Inl DlTransient, remove_node tmp d)
                             else (Inr (), rename_node tmp dest d)))))"

section \<open>Lemmas\<close>

lemma count_chunks_passed:
  "count_chunks c cs r w = GatePassed r' w' \<Longrightarrow>
     w' = w @ concat cs \<and> r' = r + int (length (concat cs)) \<and> (cs \<noteq> [] \<longrightarrow> r' \<le> c)"
  by (induction c cs r w rule: count_chunks.induct) (auto simp: Let_def split: if_splits)

lemma count_chunks_overflow:
  "count_chunks c cs r w = GateOverflow r' \<Longrightarrow> r + int (length (concat cs)) > c"
  by (induction c cs r w rule: count_chunks.induct) (fastforce simp: Let_def split: if_splits)+

lemma download_file_frame:
  assumes "download_file digest cap io reply tmp dest expected n d = (res, d')" "p \<notin> {tmp, dest}"
  shows "d' p = d p"
  using assms
  by (auto simp: download_file_def Let_def remove_node_def rename_node_def
      split: if_splits reply.splits option.splits gate_result.splits)

lemma download_file_failed:
  assumes "download_file digest cap io reply tmp dest expected n d = (Inl e, d')" "p \<noteq> tmp"
  shows "d' p = d p"
  using assms
  by (auto simp: download_file_def Let_def remove_node_def
      split: if_splits reply.splits option.splits gate_result.splits)

lemma download_file_done:
  assumes "download_file digest cap io reply tmp dest expected n d = (Inr u, d')" "tmp \<noteq> dest"
  shows "\<exists>body. d' dest = Some (RegFile body (io_time io)) \<and>
     (str_truthy expected \<longrightarrow> Val (digest body) = expected)"
  using assms
  by (auto simp: download_file_def Let_def rename_node_def body_verified_def
      split: if_splits reply.splits option.splits gate_result.splits)

section \<open>Property\<close>

text \<open>Property C31: a download either fails and leaves every path but its own temporary name as it
  was, the temporary file never newly left behind, or it succeeds and the destination holds exactly
  the bytes the server sent, no more than the ceiling, matching the expected digest when one was
  given and else the declared length; nothing else on the disk changed.\<close>

theorem download_file_safe:
  assumes tmp: "tmp \<noteq> dest" and cap: "0 \<le> max_bytes"
  shows "case download_file digest max_bytes io reply tmp dest expected expected_size d of
     (Inl _, d') \<Rightarrow> (\<forall>p. p \<noteq> tmp \<longrightarrow> d' p = d p) \<and> (d' tmp = d tmp \<or> d' tmp = None)
   | (Inr _, d') \<Rightarrow>
       (\<exists>declared chunks. reply = Response 200 declared chunks BodyEnd \<and>
          d' dest = Some (RegFile (concat chunks) (io_time io)) \<and>
          int (length (concat chunks)) \<le> byte_ceiling max_bytes (wanted_size expected_size) \<and>
          (str_truthy expected \<longrightarrow> Val (digest (concat chunks)) = expected) \<and>
          (\<not> str_truthy expected \<and> wanted_size expected_size > 0 \<longrightarrow>
             int (length (concat chunks)) = wanted_size expected_size)) \<and>
       d' tmp = None \<and> (\<forall>p. p \<notin> {tmp, dest} \<longrightarrow> d' p = d p)"
proof (cases reply)
  case NetworkError
  then show ?thesis by (simp add: download_file_def Let_def remove_node_def)
next
  case (Response status declared chunks ending)
  let ?c = "byte_ceiling max_bytes (wanted_size expected_size)"
  have c0: "0 \<le> ?c" using cap by (simp add: byte_ceiling_def)
  show ?thesis
  proof (cases "count_chunks ?c chunks 0 []")
    case (GateOverflow r)
    then show ?thesis unfolding Response
      by (auto simp: download_file_def Let_def remove_node_def split: option.splits)
  next
    case (GatePassed r body)
    from count_chunks_passed [OF this]
    have body: "body = concat chunks" "r = int (length body)" and "chunks \<noteq> [] \<longrightarrow> r \<le> ?c"
      by auto
    with c0 have le: "int (length (concat chunks)) \<le> ?c" by (cases "chunks = []") auto
    show ?thesis unfolding Response
      using GatePassed body le tmp
      by (cases ending)
        (auto simp: download_file_def Let_def remove_node_def rename_node_def body_verified_def
          split: option.splits)
  qed
qed

lemma download_file_safe_witness:
  "case download_file (\<lambda>c. c) 10
       \<lparr>mkdir_fails = False, temp_exists = False, write_fails = False, swap_locked = False,
        guard_refuses = False, io_time = 7\<rparr>
       (Response 200 (Some 3) [''ab'', ''c''] BodyEnd) ''f.tmp'' ''f'' (Val ''abc'') (Val 3) Map.empty of
     (Inl _, d') \<Rightarrow> False
   | (Inr _, d') \<Rightarrow> d' ''f'' = Some (RegFile ''abc'' 7)"
  using download_file_safe [where tmp = "''f.tmp''" and dest = "''f''" and max_bytes = 10
       and digest = "\<lambda>c. c" and d = Map.empty and expected = "Val ''abc''" and expected_size = "Val 3"
       and reply = "Response 200 (Some 3) [''ab'', ''c''] BodyEnd"
       and io = "\<lparr>mkdir_fails = False, temp_exists = False, write_fails = False,
          swap_locked = False, guard_refuses = False, io_time = 7\<rparr>"]
  by (simp add: download_file_def Let_def byte_ceiling_def remove_node_def rename_node_def
      body_verified_def)

end
