(* ===== verification/Engine_State.thy ===== *)
theory Engine_State
  imports Exn_Monad State_Db Path_Filter Http_Download
begin

text \<open>
  The sync engine's state (\<open>lib/sync-engine.js\<close>, class \<open>SyncEngine\<close>), what it asks of its
  environment, and the small methods every handler is built from: path suppression, identity and
  path safety, the database calls with their failures, the cursor, and the state transitions.

  A method is an \<^verbatim>\<open>Exn_Monad\<close> program. Logging and metrics are left out. The environment \<open>env\<close> fixes
  what the host, the server and the vendored framework answer while one handler runs; a run of the
  engine uses a fresh environment for every event. At the two awaits of a transfer \<open>stop()\<close> or
  \<open>resync()\<close> can land, which the environment's \<open>flip\<close> says.
\<close>

section \<open>State\<close>

datatype sync_state =
    StDisconnected | StConnecting | StCatchingUp | StSynced
  | StUploading | StDownloading | StError | StReconnecting

text \<open>A buffered local delete: the entry of \<open>_pendingDeletes\<close>.\<close>

record pending_delete =
  pd_checksum :: "string jsv"
  pd_size :: "int jsv"
  pd_file_id :: "string jsv"
  pd_existing :: file_rec

datatype exn =
    DbExn              \<comment> \<open>a statement failed or the handle is closed\<close>
  | FsExn string       \<comment> \<open>a filesystem call threw, with its \<open>code\<close>\<close>
  | HttpExn bool int   \<comment> \<open>an HTTP call rejected: \<open>permanent\<close>, \<open>statusCode\<close>\<close>
  | CircuitOpen
  | OtherExn
  | OutOfFuel        \<comment> \<open>never raised by the code: a recursion of the model ran out of its bound\<close>

text \<open>Effects outside the engine's own state, in order.\<close>

datatype effect =
    EUnlink path
  | EConflict path path
  | EServerDelete "string jsv"
  | EServerRename path path
  | EUpload path content
  | EWsAck "int jsv"
  | EWsRotationAck
  | EWsClose
  | EWsConnect int
  | EAuthError
  | ERescan

record engine =
  e_state :: sync_state
  e_stopped :: bool
  e_resyncing :: bool
  e_http :: bool                               \<comment> \<open>\<open>_http !== null\<close>\<close>
  e_ws :: bool                                 \<comment> \<open>\<open>_ws !== null\<close>\<close>
  e_watcher :: bool                            \<comment> \<open>\<open>_watcher !== null\<close>\<close>
  e_folds :: bool                              \<comment> \<open>\<open>_fsCaseFolds\<close>\<close>
  e_suppressed :: "string \<Rightarrow> nat option"      \<comment> \<open>\<open>_downloadingPaths\<close>\<close>
  e_active_ops :: nat
  e_active_downloads :: nat
  e_catch_up_pending :: int
  e_caught_up :: bool                          \<comment> \<open>\<open>_caughtUpAtSeq\<close>\<close>
  e_tip_seq :: int                             \<comment> \<open>\<open>_catchUpTipSeq\<close>\<close>
  e_lowest_unapplied :: int
  e_permanent :: "string set"                  \<comment> \<open>\<open>_permanentFailures\<close>\<close>
  e_pending_deletes :: "(string \<times> pending_delete) list"
  e_terminal_reject :: bool
  e_reconcile_timer :: bool                    \<comment> \<open>the periodic reconcile is armed\<close>
  e_reconcile_queued :: bool
  e_resync_running :: bool                     \<comment> \<open>\<open>_resyncInFlight\<close>\<close>
  e_pool_inflight :: nat
  e_pool_queued :: nat
  e_include :: "js_pattern list"
  e_ignore :: "js_pattern list"
  e_db :: state_db
  e_disk :: disk
  e_ws_since :: int
  e_effects :: "effect list"

type_synonym 'a eng = "(engine, exn, 'a) prog"

section \<open>Environment\<close>

datatype db_op =
    DbRead | DbUpsert string | DbStatus string | DbRemove string | DbRename | DbSeq | DbMeta |
    DbClear | DbOpen

datatype flip = NoFlip | FlipStop | FlipResync

datatype verify_result = VerifyOk | VerifyGuard | VerifyOther

datatype upload_reply =
    UploadOk "string jsv" "string jsv" "int jsv"   \<comment> \<open>file id, checksum, seq\<close>
  | UploadPermanent int
  | UploadFailed
  | UploadCircuitOpen

record statfs_info =
  sf_frsize :: int
  sf_bsize :: int
  sf_bavail :: int

record env =
  sync_folder :: path
  text_ops_of :: text_ops
  disk_key :: "path \<Rightarrow> path"                    \<comment> \<open>identity, or the volume's case folding\<close>
  digest_of :: "content \<Rightarrow> string"              \<comment> \<open>SHA3-512, hex\<close>
  hash_fails :: "path \<Rightarrow> bool"                  \<comment> \<open>unreadable, special or oversize file\<close>
  rename_code :: "path \<Rightarrow> path \<Rightarrow> string option"  \<comment> \<open>\<open>renameWithRetry\<close> throws with this code\<close>
  unlink_code :: "path \<Rightarrow> nat \<Rightarrow> string option"   \<comment> \<open>the n-th \<open>unlinkSync\<close> throws\<close>
  conflict_of :: "path \<Rightarrow> path"                 \<comment> \<open>\<open>b.atomicFile.conflictPath\<close>\<close>
  resolve_real :: "string \<Rightarrow> path option"       \<comment> \<open>\<open>b.safePath.resolveOrNull\<close>, \<open>realpath: true\<close>\<close>
  resolve_local :: "string \<Rightarrow> path option"      \<comment> \<open>\<open>b.safePath.resolveOrNull\<close>\<close>
  windows_name_ok :: "string \<Rightarrow> bool"
  is_win32 :: bool
  verify_extraction :: "string \<Rightarrow> verify_result"
  statfs :: "statfs_info option"
  root_readable :: bool
  max_sync_bytes :: int
  client_max_bytes :: int                      \<comment> \<open>the HTTP client's effective per-file cap\<close>
  download_reply :: "string jsv \<Rightarrow> path \<Rightarrow> reply"
  download_io :: "path \<Rightarrow> host_io"
  temp_name :: "path \<Rightarrow> path"                   \<comment> \<open>the path with a fresh temporary suffix\<close>
  download_flip :: "string \<Rightarrow> flip"
  hash_flip :: "string \<Rightarrow> flip"               \<comment> \<open>what lands while a changed file is hashed\<close>
  delete_ok :: "string jsv \<Rightarrow> bool"             \<comment> \<open>\<open>deleteFile\<close> resolves\<close>
  rename_reply :: "path \<Rightarrow> path \<Rightarrow> (int jsv) option"
  upload_reply_of :: "path \<Rightarrow> content option \<Rightarrow> upload_reply"
  upload_flip :: "string \<Rightarrow> flip"
  disk_after_upload :: "path \<Rightarrow> node option \<Rightarrow> node option"  \<comment> \<open>a concurrent local writer\<close>
  now_ms :: int
  now_iso :: string
  db_fails :: "db_op \<Rightarrow> bool"

text \<open>An environment whose files keep their names: no two paths share a disk key.\<close>

definition case_sensitive :: "env \<Rightarrow> bool" where
  "case_sensitive E \<longleftrightarrow> disk_key E = id"

section \<open>Comparisons with an absent number\<close>

text \<open>\<open>undefined\<close> compares as \<open>NaN\<close>, \<open>null\<close> as 0.\<close>

fun js_gt :: "int jsv \<Rightarrow> int \<Rightarrow> bool" where
  "js_gt (Val a) b = (a > b)"
| "js_gt Null b = (0 > b)"
| "js_gt Undef b = False"

fun js_ge :: "int jsv \<Rightarrow> int \<Rightarrow> bool" where
  "js_ge (Val a) b = (a \<ge> b)"
| "js_ge Null b = (0 \<ge> b)"
| "js_ge Undef b = False"

fun js_le :: "int jsv \<Rightarrow> int \<Rightarrow> bool" where
  "js_le (Val a) b = (a \<le> b)"
| "js_le Null b = (0 \<le> b)"
| "js_le Undef b = False"

section \<open>Small methods\<close>

definition emit :: "effect \<Rightarrow> unit eng" where
  "emit x = modifies (\<lambda>s. s\<lparr>e_effects := e_effects s @ [x]\<rparr>)"

definition set_state :: "sync_state \<Rightarrow> unit eng" where
  "set_state st = modifies (\<lambda>s. s\<lparr>e_state := st\<rparr>)"

subsection \<open>Path suppression\<close>

definition supp_key :: "env \<Rightarrow> engine \<Rightarrow> string \<Rightarrow> string" where
  "supp_key E s p = (if e_folds s then to_lower (text_ops_of E) p else p)"

definition supp_count :: "engine \<Rightarrow> string \<Rightarrow> nat" where
  "supp_count s k = (case e_suppressed s k of None \<Rightarrow> 0 | Some n \<Rightarrow> n)"

definition suppress_path :: "env \<Rightarrow> string \<Rightarrow> unit eng" where
  "suppress_path E p = modifies (\<lambda>s. let k = supp_key E s p in
     s\<lparr>e_suppressed := (e_suppressed s)(k := Some (supp_count s k + 1))\<rparr>)"

definition release_path :: "env \<Rightarrow> string \<Rightarrow> unit eng" where
  "release_path E p = modifies (\<lambda>s. let k = supp_key E s p; n = supp_count s k - 1 in
     s\<lparr>e_suppressed := (e_suppressed s)(k := if n > 0 then Some n else None)\<rparr>)"

definition is_suppressed :: "env \<Rightarrow> engine \<Rightarrow> string \<Rightarrow> bool" where
  "is_suppressed E s p \<longleftrightarrow> e_suppressed s (supp_key E s p) \<noteq> None"

subsection \<open>Database calls\<close>

definition db_guard :: "env \<Rightarrow> db_op \<Rightarrow> unit eng" where
  "db_guard E op = bindm (reads e_db) (\<lambda>d.
     if db_fails E op \<or> \<not> db_open d then throw DbExn else ret ())"

definition db_upsert :: "env \<Rightarrow> file_rec \<Rightarrow> unit eng" where
  "db_upsert E f = thenm (db_guard E (DbUpsert (row_key f)))
     (bindm (reads (\<lambda>s. upsert_file f (e_db s))) (\<lambda>r. case r of
        Inl _ \<Rightarrow> throw DbExn
      | Inr d \<Rightarrow> modifies (\<lambda>s. s\<lparr>e_db := d\<rparr>)))"

definition db_update_status :: "env \<Rightarrow> string \<Rightarrow> file_status \<Rightarrow> unit eng" where
  "db_update_status E p st = thenm (db_guard E (DbStatus p))
     (modifies (\<lambda>s. s\<lparr>e_db := update_file_status p st (e_db s)\<rparr>))"

definition db_remove :: "env \<Rightarrow> string \<Rightarrow> unit eng" where
  "db_remove E p = thenm (db_guard E (DbRemove p))
     (modifies (\<lambda>s. s\<lparr>e_db := remove_file p (e_db s)\<rparr>))"

definition db_rename :: "env \<Rightarrow> string \<Rightarrow> file_rec \<Rightarrow> unit eng" where
  "db_rename E old new_row = thenm (db_guard E DbRename)
     (bindm (reads (\<lambda>s. rename_file old new_row (e_db s))) (\<lambda>r. case r of
        Inl _ \<Rightarrow> throw DbExn
      | Inr d \<Rightarrow> modifies (\<lambda>s. s\<lparr>e_db := d\<rparr>)))"

definition db_set_last_seq :: "env \<Rightarrow> int jsv \<Rightarrow> unit eng" where
  "db_set_last_seq E v = thenm (db_guard E DbSeq)
     (modifies (\<lambda>s. s\<lparr>e_db := set_last_seq v (e_db s)\<rparr>))"

definition db_set_meta :: "env \<Rightarrow> string \<Rightarrow> string \<Rightarrow> unit eng" where
  "db_set_meta E k v = thenm (db_guard E DbMeta)
     (modifies (\<lambda>s. s\<lparr>e_db := set_meta k v (e_db s)\<rparr>))"

definition db_read :: "env \<Rightarrow> (state_db \<Rightarrow> 'a) \<Rightarrow> 'a eng" where
  "db_read E f = thenm (db_guard E DbRead) (reads (\<lambda>s. f (e_db s)))"

subsection \<open>Identity, scope and path safety\<close>

fun identity_key :: "env \<Rightarrow> string jsv \<Rightarrow> string jsv" where
  "identity_key E (Val p) = Val (nfc (text_ops_of E) p)"
| "identity_key E v = v"

definition canon_rel :: "env \<Rightarrow> string \<Rightarrow> string" where
  "canon_rel E p = nfc (text_ops_of E) p"

definition lookup_tracked :: "env \<Rightarrow> string \<Rightarrow> file_rec option eng" where
  "lookup_tracked E p = bindm (reads e_folds) (\<lambda>folds.
     db_read E (\<lambda>d. get_file_folded d (canon_rel E p) folds))"

definition in_scope :: "env \<Rightarrow> engine \<Rightarrow> string \<Rightarrow> bool" where
  "in_scope E s p = should_sync (text_ops_of E) p
     \<lparr>opt_include = Some (e_include s), opt_ignore = Some (e_ignore s), opt_case_fold = e_folds s\<rparr>"

text \<open>\<open>_safePath\<close>; the framework refuses a name that is not a string.\<close>

fun safe_path :: "env \<Rightarrow> string jsv \<Rightarrow> path option" where
  "safe_path E (Val p) =
     (case resolve_real E p of
        None \<Rightarrow> None
      | Some full \<Rightarrow> if \<not> is_win32 E \<and> \<not> windows_name_ok E p then None else Some full)"
| "safe_path E _ = None"

definition safe_local_path :: "env \<Rightarrow> string \<Rightarrow> path option" where
  "safe_local_path E p = resolve_local E p"

fun jsstr :: "string jsv \<Rightarrow> string" where
  "jsstr (Val p) = p"
| "jsstr _ = []"

definition free_disk_space :: "env \<Rightarrow> int option" where
  "free_disk_space E = (case statfs E of
     None \<Rightarrow> None
   | Some i \<Rightarrow> Some (sf_bavail i * (if sf_frsize i > 0 then sf_frsize i else sf_bsize i)))"

subsection \<open>The local file system\<close>

definition node_at :: "env \<Rightarrow> engine \<Rightarrow> path \<Rightarrow> node option" where
  "node_at E s p = e_disk s (disk_key E p)"

definition exists_on_disk :: "env \<Rightarrow> engine \<Rightarrow> path \<Rightarrow> bool" where
  "exists_on_disk E s p \<longleftrightarrow> node_at E s p \<noteq> None"

text \<open>\<open>hashFile\<close> (\<open>lib/checksum.js\<close>): a missing file is \<open>ENOENT\<close>, a directory is refused.\<close>

definition hash_file :: "env \<Rightarrow> path \<Rightarrow> string eng" where
  "hash_file E p = bindm (reads (\<lambda>s. node_at E s p)) (\<lambda>n. case n of
     None \<Rightarrow> throw (FsExn ''ENOENT'')
   | Some Directory \<Rightarrow> throw (FsExn ''crypto/hash-not-regular'')
   | Some (RegFile c m) \<Rightarrow>
       if hash_fails E p then throw (FsExn ''EACCES'') else ret (digest_of E c))"

definition rename_on_disk :: "env \<Rightarrow> path \<Rightarrow> path \<Rightarrow> unit eng" where
  "rename_on_disk E a b = bindm (reads (\<lambda>s. node_at E s a)) (\<lambda>n.
     if n = None then throw (FsExn ''ENOENT'')
     else (case rename_code E a b of
       Some c \<Rightarrow> throw (FsExn c)
     | None \<Rightarrow> modifies (\<lambda>s.
         s\<lparr>e_disk := rename_node (disk_key E a) (disk_key E b) (e_disk s)\<rparr>)))"

text \<open>\<open>statSync\<close>: the node, or \<open>None\<close> where it throws.\<close>

definition stat_of :: "env \<Rightarrow> path \<Rightarrow> node option eng" where
  "stat_of E p = reads (\<lambda>s. node_at E s p)"

section \<open>Database calls step by step\<close>

lemma wp_db_guard [wp_rules]:
  "wp (db_guard E op) Q R =
     (\<lambda>s. if db_fails E op \<or> \<not> db_open (e_db s) then R DbExn s else Q () s)"
  by (simp add: fun_eq_iff db_guard_def wp_rules)

lemma wp_db_read [wp_rules]:
  "wp (db_read E f) Q R =
     (\<lambda>s. if db_fails E DbRead \<or> \<not> db_open (e_db s) then R DbExn s else Q (f (e_db s)) s)"
  by (simp add: fun_eq_iff db_read_def wp_rules)

lemma wp_db_set_last_seq [wp_rules]:
  "wp (db_set_last_seq E v) Q R =
     (\<lambda>s. if db_fails E DbSeq \<or> \<not> db_open (e_db s) then R DbExn s
          else Q () (s\<lparr>e_db := set_last_seq v (e_db s)\<rparr>))"
  by (simp add: fun_eq_iff db_set_last_seq_def wp_rules)

lemma wp_db_set_meta [wp_rules]:
  "wp (db_set_meta E k v) Q R =
     (\<lambda>s. if db_fails E DbMeta \<or> \<not> db_open (e_db s) then R DbExn s
          else Q () (s\<lparr>e_db := set_meta k v (e_db s)\<rparr>))"
  by (simp add: fun_eq_iff db_set_meta_def wp_rules)

lemma wp_db_upsert [wp_rules]:
  "wp (db_upsert E f) Q R =
     (\<lambda>s. if db_fails E (DbUpsert (row_key f)) \<or> \<not> db_open (e_db s) \<or> row_key f = [] then R DbExn s
          else Q () (s\<lparr>e_db := put_file f (e_db s)\<rparr>))"
  by (auto simp: fun_eq_iff db_upsert_def wp_rules upsert_file_def handle_def row_key.simps
      split: jsv.splits)

lemma wp_db_update_status [wp_rules]:
  "wp (db_update_status E p st) Q R =
     (\<lambda>s. if db_fails E (DbStatus p) \<or> \<not> db_open (e_db s) then R DbExn s
          else Q () (s\<lparr>e_db := update_file_status p st (e_db s)\<rparr>))"
  by (simp add: fun_eq_iff db_update_status_def wp_rules)

lemma wp_db_remove [wp_rules]:
  "wp (db_remove E p) Q R =
     (\<lambda>s. if db_fails E (DbRemove p) \<or> \<not> db_open (e_db s) then R DbExn s
          else Q () (s\<lparr>e_db := remove_file p (e_db s)\<rparr>))"
  by (simp add: fun_eq_iff db_remove_def wp_rules)

lemma wp_db_rename [wp_rules]:
  "wp (db_rename E p f) Q R =
     (\<lambda>s. if db_fails E DbRename \<or> \<not> db_open (e_db s) \<or> row_key f = [] then R DbExn s
          else Q () (s\<lparr>e_db := put_file f (remove_file p (e_db s))\<rparr>))"
  by (auto simp: fun_eq_iff db_rename_def wp_rules rename_file_def rename_file_faulty_def
      upsert_file_def handle_def row_key.simps remove_file_def split: jsv.splits)

lemma wp_emit [wp_rules]: "wp (emit x) Q R = (\<lambda>s. Q () (s\<lparr>e_effects := e_effects s @ [x]\<rparr>))"
  by (simp add: emit_def wp_rules)

lemma wp_set_state [wp_rules]: "wp (set_state st) Q R = (\<lambda>s. Q () (s\<lparr>e_state := st\<rparr>))"
  by (simp add: set_state_def wp_rules)

end
