(* ===== verification/Engine_Cursor.thy ===== *)
theory Engine_Cursor
  imports Engine_State
begin

text \<open>
  The sync cursor of the engine: advancing it (\<open>_updateSeq\<close>), recording an event that could not be
  applied (\<open>_noteUnappliedSeq\<close>), the heartbeat and the transitions to SYNCED. The properties say
  what the watermark guarantees about events that failed, over any run of the engine's cursor
  operations, and where it stops guaranteeing it.
\<close>

section \<open>Code\<close>

definition note_unapplied :: "int jsv \<Rightarrow> engine \<Rightarrow> engine" where
  "note_unapplied v s = (case v of
     Val n \<Rightarrow> if n > 0 \<and> (e_lowest_unapplied s = 0 \<or> n < e_lowest_unapplied s)
             then s\<lparr>e_lowest_unapplied := n\<rparr> else s
   | _ \<Rightarrow> s)"

definition note_unapplied_seq :: "int jsv \<Rightarrow> unit eng" where
  "note_unapplied_seq v = modifies (note_unapplied v)"

text \<open>The gap event itself applied: the watermark is cleared before the cap.\<close>

definition clear_gap :: "int jsv \<Rightarrow> engine \<Rightarrow> engine" where
  "clear_gap v s =
     (if e_lowest_unapplied s > 0 \<and> v = Val (e_lowest_unapplied s)
      then s\<lparr>e_lowest_unapplied := 0\<rparr> else s)"

definition cap_target :: "int jsv \<Rightarrow> engine \<Rightarrow> int jsv" where
  "cap_target v s =
     (if e_lowest_unapplied s > 0 \<and> js_ge v (e_lowest_unapplied s)
      then Val (e_lowest_unapplied s - 1) else v)"

definition last_seq :: "engine \<Rightarrow> int" where
  "last_seq s = get_last_seq (e_db s)"

definition update_seq :: "env \<Rightarrow> int jsv \<Rightarrow> unit eng" where
  "update_seq E v = bindm (reads e_resyncing) (\<lambda>resyncing.
     if resyncing then ret ()
     else do_all [
       modifies (clear_gap v),
       bindm (reads (cap_target v)) (\<lambda>target.
         bindm (db_read E get_last_seq) (\<lambda>last.
           whenm (js_gt target last) (db_set_last_seq E target))),
       db_set_meta E ''last_sync_time'' (now_iso E),
       bindm (reads e_ws) (\<lambda>ws. whenm ws
         (bindm (db_read E get_last_seq) (\<lambda>last. modifies (\<lambda>s. s\<lparr>e_ws_since := last\<rparr>))))])"

definition maybe_mark_synced :: "unit eng" where
  "maybe_mark_synced = bindm (reads id) (\<lambda>s.
     if e_state s = StDisconnected then ret ()
     else if e_state s = StCatchingUp then ret ()
     else whenm (\<not> (e_pool_inflight s > 0 \<or> e_pool_queued s > 0) \<and> \<not> e_active_downloads s > 0)
            (set_state StSynced))"

definition maybe_finish_catch_up :: "env \<Rightarrow> unit eng" where
  "maybe_finish_catch_up E = bindm (reads id) (\<lambda>s.
     if e_state s \<noteq> StCatchingUp then ret ()
     else if \<not> e_caught_up s then ret ()
     else if e_catch_up_pending s > 0 \<or> e_active_downloads s > 0 then ret ()
     else do_all [
       modifies (\<lambda>s. s\<lparr>e_caught_up := False\<rparr>),
       set_state StSynced,
       db_set_meta E ''last_sync_time'' (now_iso E)])"

definition handle_heartbeat :: "env \<Rightarrow> int jsv \<Rightarrow> unit eng" where
  "handle_heartbeat E v = do_all [
     bindm (reads e_state) (\<lambda>st. whenm (st = StCatchingUp)
       (bindm (db_read E get_last_seq) (\<lambda>last. do_all [
          if js_le v last \<and> (v \<noteq> Val 0 \<or> last = 0)
          then modifies (\<lambda>s. s\<lparr>e_caught_up := True\<rparr>)
          else whenm (js_gt v last) (modifies (\<lambda>s. s\<lparr>e_tip_seq := num_val v\<rparr>)),
          maybe_finish_catch_up E]))),
     bindm (reads e_ws) (\<lambda>ws. whenm ws (emit (EWsAck v)))]"

text \<open>A permanent, non-authentication rejection of the WebSocket upgrade.\<close>

definition on_upgrade_rejected :: "int \<Rightarrow> unit eng" where
  "on_upgrade_rejected status =
     (if status = 401 \<or> status = 403 then ret ()
      else do_all [modifies (\<lambda>s. s\<lparr>e_terminal_reject := True\<rparr>), set_state StError])"

text \<open>The WebSocket listeners of \<open>start()\<close> that only move the state.\<close>

definition on_ws_close :: "unit eng" where
  "on_ws_close = bindm (reads id) (\<lambda>s.
     if e_terminal_reject s then ret ()
     else whenm (e_state s \<noteq> StDisconnected) (set_state StReconnecting))"

section \<open>The cursor\<close>

lemma wp_note_unapplied_seq [wp_rules]:
  "wp (note_unapplied_seq v) Q R = (\<lambda>s. Q () (note_unapplied v s))"
  by (simp add: note_unapplied_seq_def wp_rules)

abbreviation cursor_after :: "env \<Rightarrow> int jsv \<Rightarrow> engine \<Rightarrow> int" where
  "cursor_after E v s \<equiv> last_seq (final (update_seq E v) s)"

lemma clear_gap_db [simp]: "e_db (clear_gap v s) = e_db s"
  by (simp add: clear_gap_def)

lemma note_unapplied_frame [simp]:
  "e_db (note_unapplied v s) = e_db s" "last_seq (note_unapplied v s) = last_seq s"
  "e_disk (note_unapplied v s) = e_disk s"
  by (auto simp: note_unapplied_def last_seq_def split: jsv.splits)

text \<open>The one fact about \<open>_updateSeq\<close> every cursor lemma uses.\<close>

lemma update_seq_cases:
  "final (update_seq E v) s = s \<and> e_resyncing s
   \<or> (\<not> e_resyncing s \<and>
      e_lowest_unapplied (final (update_seq E v) s) = e_lowest_unapplied (clear_gap v s) \<and>
      (last_seq (final (update_seq E v) s) = last_seq s
       \<or> (\<exists>t. cap_target v (clear_gap v s) = Val t \<and> last_seq s < t \<and>
             last_seq (final (update_seq E v) s) = t)))"
proof (cases "e_resyncing s")
  case True
  then show ?thesis by (simp add: update_seq_def final_def bindm_def reads_def ret_def)
next
  case False
  let ?P = "\<lambda>s'. e_lowest_unapplied s' = e_lowest_unapplied (clear_gap v s) \<and>
      (last_seq s' = last_seq s \<or>
       (\<exists>t. cap_target v (clear_gap v s) = Val t \<and> last_seq s < t \<and> last_seq s' = t))"
  have "wp (update_seq E v) (\<lambda>_. ?P) (\<lambda>_. ?P) s"
    using False get_last_seq_nonneg [of "e_db s"]
    by (cases "cap_target v (clear_gap v s)") (auto simp: update_seq_def wp_rules last_seq_def)
  with False show ?thesis using wp_final [of "update_seq E v" ?P s] by blast
qed

lemma cursor_mono: "last_seq s \<le> cursor_after E v s"
  using update_seq_cases [of E v s] by auto

lemma cap_target_below_gap:
  "e_lowest_unapplied s > 0 \<Longrightarrow> cap_target v s = Val t \<Longrightarrow> t < e_lowest_unapplied s"
  by (cases v) (auto simp: cap_target_def split: if_splits)

section \<open>Runs of cursor operations\<close>

text \<open>What the handlers do to the cursor: report an event as applied, or as failed.\<close>

datatype cursor_op = Applied "int jsv" | Failed "int jsv"

fun cursor_step :: "env \<times> cursor_op \<Rightarrow> engine \<Rightarrow> engine" where
  "cursor_step (E, Applied v) s = final (update_seq E v) s"
| "cursor_step (E, Failed v) s = final (note_unapplied_seq v) s"

definition run_cursor :: "(env \<times> cursor_op) list \<Rightarrow> engine \<Rightarrow> engine" where
  "run_cursor ops s = fold cursor_step ops s"

lemma final_note [simp]: "final (note_unapplied_seq v) s = note_unapplied v s"
  by (simp add: note_unapplied_seq_def final_def modifies_def)

lemma run_cursor_mono: "last_seq s \<le> last_seq (run_cursor ops s)"
proof (induction ops arbitrary: s)
  case Nil
  show ?case by (simp add: run_cursor_def)
next
  case (Cons x ops)
  obtain E c where x: "x = (E, c)" by fastforce
  have "last_seq s \<le> last_seq (cursor_step x s)"
    using cursor_mono [of s E] by (cases c) (simp_all add: x)
  also have "\<dots> \<le> last_seq (run_cursor (x # ops) s)"
    using Cons.IH by (simp add: run_cursor_def)
  finally show ?case .
qed

text \<open>A watermark at or below \<open>q\<close>, with the cursor below \<open>q\<close>.\<close>

definition gap_guard :: "int \<Rightarrow> engine \<Rightarrow> bool" where
  "gap_guard q s \<longleftrightarrow> 0 < e_lowest_unapplied s \<and> e_lowest_unapplied s \<le> q \<and> last_seq s < q"

lemma gap_guard_step:
  assumes "gap_guard q s" and "\<And>v. snd x = Applied v \<Longrightarrow> v \<noteq> Val (e_lowest_unapplied s)"
  shows "gap_guard q (cursor_step x s)"
proof (cases x)
  case (Pair E c)
  show ?thesis
  proof (cases c)
    case (Failed v)
    with assms(1) Pair show ?thesis
      by (auto simp: gap_guard_def note_unapplied_def last_seq_def split: jsv.splits)
  next
    case (Applied v)
    with assms(2) Pair have "clear_gap v s = s" by (simp add: clear_gap_def)
    with assms(1) Applied Pair update_seq_cases [of E v s] cap_target_below_gap [of s v]
    show ?thesis by (auto simp: gap_guard_def)
  qed
qed

text \<open>The watermark is one of the failed events.\<close>

lemma watermark_failed:
  "e_lowest_unapplied (cursor_step x s) \<in>
     {0, e_lowest_unapplied s} \<union> {n. snd x = Failed (Val n)}"
proof (cases x)
  case (Pair E c)
  show ?thesis
  proof (cases c)
    case (Failed v)
    with Pair show ?thesis by (auto simp: note_unapplied_def split: jsv.splits)
  next
    case (Applied v)
    with Pair update_seq_cases [of E v s] show ?thesis by (auto simp: clear_gap_def)
  qed
qed

lemma run_watermark_failed:
  "e_lowest_unapplied (run_cursor ops s) \<in>
     {0, e_lowest_unapplied s} \<union> {n. Failed (Val n) \<in> snd ` set ops}"
proof (induction ops arbitrary: s)
  case Nil
  show ?case by (simp add: run_cursor_def)
next
  case (Cons x ops)
  have run: "run_cursor (x # ops) s = run_cursor ops (cursor_step x s)"
    by (simp add: run_cursor_def)
  from Cons.IH [of "cursor_step x s"] watermark_failed [of x s] show ?case
    unfolding run by (auto simp: image_iff)
qed

lemma watermark_nonneg:
  assumes "0 \<le> e_lowest_unapplied s"
  shows "0 \<le> e_lowest_unapplied (cursor_step x s)"
proof (cases x)
  case (Pair E c)
  show ?thesis
  proof (cases c)
    case (Failed v)
    with assms Pair show ?thesis by (auto simp: note_unapplied_def split: jsv.splits)
  next
    case (Applied v)
    have "0 \<le> e_lowest_unapplied (clear_gap v s)" using assms by (simp add: clear_gap_def)
    with assms Applied Pair update_seq_cases [of E v s] show ?thesis by auto
  qed
qed

lemma run_watermark_nonneg:
  "0 \<le> e_lowest_unapplied s \<Longrightarrow> 0 \<le> e_lowest_unapplied (run_cursor xs s)"
  by (induction xs arbitrary: s) (auto simp: run_cursor_def watermark_nonneg)

text \<open>The exact effect when the database answers.\<close>

lemma update_seq_healthy:
  assumes "db_open (e_db s)" and "\<And>op. \<not> db_fails E op" and "\<not> e_resyncing s"
  shows "last_seq (final (update_seq E v) s) =
           (case cap_target v (clear_gap v s) of Val t \<Rightarrow> max t (last_seq s) | _ \<Rightarrow> last_seq s)"
    and "e_lowest_unapplied (final (update_seq E v) s) = e_lowest_unapplied (clear_gap v s)"
    and "db_open (e_db (final (update_seq E v) s))"
    and "\<not> e_resyncing (final (update_seq E v) s)"
proof -
  let ?P = "\<lambda>s'. last_seq s' = (case cap_target v (clear_gap v s) of
        Val t \<Rightarrow> max t (last_seq s) | _ \<Rightarrow> last_seq s)
      \<and> e_lowest_unapplied s' = e_lowest_unapplied (clear_gap v s) \<and> db_open (e_db s')
      \<and> \<not> e_resyncing s'"
  have "\<not> e_resyncing (clear_gap v s)" using assms(3) by (simp add: clear_gap_def)
  with assms get_last_seq_nonneg [of "e_db s"] have "wp (update_seq E v) (\<lambda>_. ?P) (\<lambda>_. ?P) s"
    by (cases "cap_target v (clear_gap v s)") (auto simp: update_seq_def wp_rules last_seq_def)
  from wp_final [OF this]
  show "last_seq (final (update_seq E v) s) =
           (case cap_target v (clear_gap v s) of Val t \<Rightarrow> max t (last_seq s) | _ \<Rightarrow> last_seq s)"
    and "e_lowest_unapplied (final (update_seq E v) s) = e_lowest_unapplied (clear_gap v s)"
    and "db_open (e_db (final (update_seq E v) s))"
    and "\<not> e_resyncing (final (update_seq E v) s)"
    by auto
qed

lemma gap_guard_run:
  assumes "gap_guard q s"
    and "\<And>v. Applied v \<in> snd ` set ops \<Longrightarrow>
          v \<noteq> Val (e_lowest_unapplied s) \<and> Failed v \<notin> snd ` set ops"
  shows "gap_guard q (run_cursor ops s)"
  using assms
proof (induction ops arbitrary: s)
  case Nil
  then show ?case by (simp add: run_cursor_def)
next
  case (Cons x ops)
  have "gap_guard q (cursor_step x s)"
    using Cons.prems by (intro gap_guard_step) auto
  moreover have "v \<noteq> Val (e_lowest_unapplied (cursor_step x s)) \<and> Failed v \<notin> snd ` set ops"
    if "Applied v \<in> snd ` set ops" for v
    using that Cons.prems(2) [of v] watermark_failed [of x s] calculation
    by (auto simp: gap_guard_def)
  ultimately have "gap_guard q (run_cursor ops (cursor_step x s))" by (rule Cons.IH)
  then show ?case by (simp add: run_cursor_def)
qed

section \<open>Properties\<close>

text \<open>In a session that starts without a gap, once an event above the cursor has failed,
  no later run of the cursor operations, whatever database failures it meets, moves the cursor to
  or past that event, as long as no failed event is reported applied: a reconnect from the cursor
  makes the server deliver it again.\<close>

theorem failed_event_not_passed:
  assumes "e_lowest_unapplied s = 0"
    and "0 < q" and "last_seq (run_cursor pre s) < q"
    and "\<And>v. Applied v \<in> snd ` set (pre @ (E, Failed (Val q)) # post) \<Longrightarrow>
           Failed v \<notin> snd ` set (pre @ (E, Failed (Val q)) # post)"
  shows "last_seq (run_cursor (pre @ (E, Failed (Val q)) # post) s) < q"
proof -
  let ?s = "run_cursor pre s"
  let ?t = "note_unapplied (Val q) ?s"
  from assms(1) run_watermark_failed [of pre s]
  have low: "e_lowest_unapplied ?s = 0 \<or> Failed (Val (e_lowest_unapplied ?s)) \<in> snd ` set pre"
    by auto
  have nonneg: "0 \<le> e_lowest_unapplied (run_cursor xs s)" for xs
    using assms(1) by (intro run_watermark_nonneg) simp
  have "gap_guard q ?t"
    using assms(2,3) nonneg [of pre]
    by (auto simp: gap_guard_def note_unapplied_def last_seq_def)
  moreover have "v \<noteq> Val (e_lowest_unapplied ?t) \<and> Failed v \<notin> snd ` set post"
    if "Applied v \<in> snd ` set post" for v
    using that assms(4) [of v] low \<open>gap_guard q ?t\<close>
    by (auto simp: note_unapplied_def gap_guard_def split: if_splits)
  ultimately have "gap_guard q (run_cursor post ?t)" by (rule gap_guard_run)
  then show ?thesis by (simp add: gap_guard_def run_cursor_def)
qed

definition idle_engine :: engine where
  "idle_engine = \<lparr>e_state = StSynced, e_stopped = False, e_resyncing = False, e_http = True,
     e_ws = True, e_watcher = True, e_folds = False, e_suppressed = Map.empty, e_active_ops = 0,
     e_active_downloads = 0, e_catch_up_pending = 0, e_caught_up = False, e_tip_seq = 0,
     e_lowest_unapplied = 0, e_permanent = {}, e_pending_deletes = [], e_terminal_reject = False, e_reconcile_timer = True, e_reconcile_queued = False, e_resync_running = False,
     e_pool_inflight = 0, e_pool_queued = 0, e_include = [], e_ignore = [],
     e_db = \<lparr>db_open = True, db_files = [], db_meta = []\<rparr>, e_disk = Map.empty,
     e_ws_since = 0, e_effects = []\<rparr>"

definition plain_env :: env where
  "plain_env = \<lparr>sync_folder = ''/d'', text_ops_of = ascii_ops, disk_key = id,
     digest_of = (\<lambda>c. c), hash_fails = (\<lambda>_. False), rename_code = (\<lambda>_ _. None),
     unlink_code = (\<lambda>_ _. None), conflict_of = (\<lambda>p. p @ ''.conflict''),
     resolve_real = (\<lambda>p. Some (''/d/'' @ p)), resolve_local = (\<lambda>p. Some (''/d/'' @ p)),
     windows_name_ok = (\<lambda>_. True), is_win32 = False, verify_extraction = (\<lambda>_. VerifyOk),
     statfs = None, root_readable = True, max_sync_bytes = 1000, client_max_bytes = 1000,
     download_reply = (\<lambda>_ _. NetworkError),
     download_io = (\<lambda>_. \<lparr>mkdir_fails = False, temp_exists = False, write_fails = False,
        swap_locked = False, guard_refuses = False, io_time = 1\<rparr>),
     temp_name = (\<lambda>p. p @ ''.tmp.0''), download_flip = (\<lambda>_. NoFlip), hash_flip = (\<lambda>_. NoFlip), delete_ok = (\<lambda>_. True),
     rename_reply = (\<lambda>_ _. Some (Val 1)), upload_reply_of = (\<lambda>_ _. UploadFailed),
     upload_flip = (\<lambda>_. NoFlip), disk_after_upload = (\<lambda>_ n. n), now_ms = 5, now_iso = ''now'',
     db_fails = (\<lambda>_. False)\<rparr>"

lemma failed_event_not_passed_witness:
  "last_seq (run_cursor ([(plain_env, Applied (Val 2))] @ (plain_env, Failed (Val 3)) #
      [(plain_env, Applied (Val 4))]) idle_engine) < 3"
proof (rule failed_event_not_passed)
  show "last_seq (run_cursor [(plain_env, Applied (Val 2))] idle_engine) < 3"
    using update_seq_cases [of plain_env "Val 2" idle_engine]
    by (auto simp: run_cursor_def idle_engine_def clear_gap_def cap_target_def last_seq_def
        get_last_seq_def get_meta_def)
qed (auto simp: idle_engine_def)

text \<open>The single watermark remembers only the lowest failed event. When two events fail
  and the lower one is then applied within the session, the next event moves the cursor past the
  other failed one, which is never asked for again.\<close>

theorem second_gap_forgotten:
  "last_seq (run_cursor [(plain_env, Failed (Val 3)), (plain_env, Failed (Val 5)),
      (plain_env, Applied (Val 3)), (plain_env, Applied (Val 7))] idle_engine) = 7"
proof -
  define s1 where "s1 = note_unapplied (Val 5) (note_unapplied (Val 3) idle_engine)"
  define s2 where "s2 = final (update_seq plain_env (Val 3)) s1"
  have s1: "db_open (e_db s1)" "\<not> e_resyncing s1" "e_lowest_unapplied s1 = 3" "last_seq s1 = 0"
    by (simp_all add: s1_def note_unapplied_def idle_engine_def last_seq_def get_last_seq_def
        get_meta_def)
  have no_fail: "\<And>op. \<not> db_fails plain_env op" by (simp add: plain_env_def)
  have "e_lowest_unapplied s2 = 0" "last_seq s2 = 3" "db_open (e_db s2)" "\<not> e_resyncing s2"
    using update_seq_healthy [OF s1(1) no_fail s1(2), of "Val 3"] s1
    by (simp_all add: s2_def clear_gap_def cap_target_def last_seq_def)
  then have "last_seq (final (update_seq plain_env (Val 7)) s2) = 7"
    using update_seq_healthy(1) [of s2 plain_env "Val 7"] no_fail
    by (simp add: clear_gap_def cap_target_def)
  then show ?thesis by (simp add: run_cursor_def s2_def s1_def)
qed

text \<open>The cursor never moves back, and after a call that returns normally outside a
  resync the reconnect position of the WebSocket client is the stored cursor.\<close>

theorem cursor_monotone_and_published:
  "last_seq s \<le> last_seq (final (update_seq E v) s) \<and>
   (\<not> threw (update_seq E v) s \<and> \<not> e_resyncing s \<and> e_ws s \<longrightarrow>
      e_ws_since (final (update_seq E v) s) = last_seq (final (update_seq E v) s))"
proof -
  have "wp (update_seq E v)
      (\<lambda>_ s'. \<not> e_resyncing s \<and> e_ws s \<longrightarrow> e_ws_since s' = last_seq s') (\<lambda>_ _. True) s"
    by (auto simp: update_seq_def wp_rules last_seq_def clear_gap_def)
  then show ?thesis
    using cursor_mono [of s E v]
    by (auto simp: wp_def final_def threw_def split: prod.splits sum.splits)
qed

lemma cursor_monotone_and_published_witness:
  "last_seq idle_engine \<le> last_seq (final (update_seq plain_env (Val 2)) idle_engine)"
  using cursor_monotone_and_published [of idle_engine plain_env "Val 2"] by blast

text \<open>During catch-up, the only way to SYNCED is the drained caught-up heartbeat. A
  finished transfer never ends catch-up, and a heartbeat that ends it found the latch set or set it
  itself at or below the cursor, with no handler pending and no download in flight.\<close>

theorem catch_up_left_only_when_drained:
  assumes "e_state s = StCatchingUp"
  shows "e_state (final maybe_mark_synced s) = StCatchingUp \<and>
    (e_state (final (handle_heartbeat E v) s) \<noteq> StCatchingUp \<longrightarrow>
      e_state (final (handle_heartbeat E v) s) = StSynced \<and>
      e_catch_up_pending s \<le> 0 \<and> e_active_downloads s = 0 \<and>
      (e_caught_up s \<or> js_le v (last_seq s) \<and> (v \<noteq> Val 0 \<or> last_seq s = 0)))"
proof
  show "e_state (final maybe_mark_synced s) = StCatchingUp"
    using assms by (simp add: maybe_mark_synced_def final_def bindm_def reads_def ret_def)
  let ?P = "\<lambda>s'. e_state s' \<noteq> StCatchingUp \<longrightarrow> e_state s' = StSynced \<and>
      e_catch_up_pending s \<le> 0 \<and> e_active_downloads s = 0 \<and>
      (e_caught_up s \<or> js_le v (last_seq s) \<and> (v \<noteq> Val 0 \<or> last_seq s = 0))"
  have "wp (handle_heartbeat E v) (\<lambda>_. ?P) (\<lambda>_. ?P) s"
    using assms by (auto simp: handle_heartbeat_def maybe_finish_catch_up_def wp_rules last_seq_def)
  then show "?P (final (handle_heartbeat E v) s)"
    using wp_final [of "handle_heartbeat E v" ?P s] by blast
qed

lemma catch_up_left_only_when_drained_witness:
  "e_state (final maybe_mark_synced (idle_engine\<lparr>e_state := StCatchingUp\<rparr>)) = StCatchingUp"
  using catch_up_left_only_when_drained [of "idle_engine\<lparr>e_state := StCatchingUp\<rparr>"] by simp

end
