(* ===== verification/Engine_Transfer.thy ===== *)
theory Engine_Transfer
  imports Engine_Cursor
begin

text \<open>
  The download of one file as the engine drives it (\<open>_downloadFile\<close>, \<open>_downloadFileImpl\<close>,
  \<open>_downloadFileLocked\<close>), the conflict copy that precedes an overwrite
  (\<open>_maybeSaveConflictCopy\<close>) and the local delete with retry (\<open>_unlinkWithRetry\<close>). The bytes move
  in \<open>download_file\<close> of theory \<open>Http_Download\<close>. The per-path mutex is the identity here: a handler
  runs to completion, and theory \<open>Path_Lock\<close> models the mutex itself.
\<close>

section \<open>Code\<close>

definition min_free_disk_bytes :: int where
  "min_free_disk_bytes = 100 * 1024 * 1024"

text \<open>\<open>{ ...row, relativePath }\<close>, where the row may be missing.\<close>

definition spread :: "file_rec option \<Rightarrow> string \<Rightarrow> file_rec" where
  "spread r p = (case r of None \<Rightarrow> empty_rec | Some x \<Rightarrow> x)\<lparr>rel_path := Val p\<rparr>"

definition apply_flip :: "flip \<Rightarrow> unit eng" where
  "apply_flip f = modifies (\<lambda>s. case f of
     NoFlip \<Rightarrow> s
   | FlipStop \<Rightarrow> s\<lparr>e_stopped := True, e_state := StDisconnected\<rparr>
   | FlipResync \<Rightarrow> s\<lparr>e_resyncing := True\<rparr>)"

definition http_download ::
    "env \<Rightarrow> string \<Rightarrow> string jsv \<Rightarrow> path \<Rightarrow> string jsv \<Rightarrow> int \<Rightarrow> unit eng" where
  "http_download E rel file_id full expected wanted =
     bindm (reads (\<lambda>s. download_file (digest_of E) (client_max_bytes E) (download_io E full)
              (download_reply E file_id full) (disk_key E (temp_name E full)) (disk_key E full)
              expected (Val wanted) (e_disk s)))
       (\<lambda>(res, d). do_all [
          modifies (\<lambda>s. s\<lparr>e_disk := d\<rparr>),
          apply_flip (download_flip E rel),
          (case res of
             Inl DlPermanent \<Rightarrow> throw (HttpExn True 0)
           | Inl DlTransient \<Rightarrow> throw (HttpExn False 0)
           | Inr _ \<Rightarrow> ret ())])"

definition below_free :: "int option \<Rightarrow> int \<Rightarrow> bool" where
  "below_free free n = (case free of None \<Rightarrow> False | Some f \<Rightarrow> f < n)"

definition mark_permanent :: "string \<Rightarrow> unit eng" where
  "mark_permanent p = modifies (\<lambda>s. s\<lparr>e_permanent := insert p (e_permanent s)\<rparr>)"

definition clear_permanent :: "string \<Rightarrow> unit eng" where
  "clear_permanent p = modifies (\<lambda>s. s\<lparr>e_permanent := e_permanent s - {p}\<rparr>)"

text \<open>The \<open>try\<close> block; its result is the final \<open>ok\<close>.\<close>

definition download_attempt ::
    "env \<Rightarrow> string \<Rightarrow> string jsv \<Rightarrow> string jsv \<Rightarrow> int jsv \<Rightarrow> path \<Rightarrow> bool eng" where
  "download_attempt E rel file_id expected sz full =
     (let free = free_disk_space E; wanted = wanted_size sz
      in if wanted > max_sync_bytes E
         then thenm (db_update_status E rel ErrorSt) (thenm (mark_permanent rel) (ret False))
         else if wanted > 0 \<and> below_free free (wanted + min_free_disk_bytes)
         then bindm (db_read E (\<lambda>d. get_file d rel)) (\<lambda>existing.
                thenm (db_upsert E ((spread existing rel)\<lparr>fstatus := Val ErrorSt,
                         needs_bytes := Val (wanted + min_free_disk_bytes)\<rparr>)) (ret False))
         else if below_free free min_free_disk_bytes
         then thenm (db_update_status E rel ErrorSt) (ret False)
         else
           thenm (http_download E rel file_id full expected wanted)
             (bindm (reads (\<lambda>s. e_resyncing s \<or> e_stopped s)) (\<lambda>off.
                if off then ret False
                else bindm (stat_of E full) (\<lambda>st. case st of
                    None \<Rightarrow> throw (FsExn ''ENOENT'')
                  | Some node \<Rightarrow>
                      bindm (db_read E (\<lambda>d. get_file d rel)) (\<lambda>row.
                        thenm (db_upsert E ((spread row rel)\<lparr>local_checksum := expected,
                                 local_mtime := Val (node_mtime node), fsize := Val (node_size node),
                                 fstatus := Val Synced, needs_bytes := Val 0\<rparr>))
                          (thenm (clear_permanent rel) (ret True)))))))"

definition download_failed :: "env \<Rightarrow> string \<Rightarrow> exn \<Rightarrow> bool eng" where
  "download_failed E rel err = thenm (db_update_status E rel ErrorSt)
     (thenm (case err of HttpExn True _ \<Rightarrow> mark_permanent rel | _ \<Rightarrow> ret ()) (ret False))"

definition download_begin :: "env \<Rightarrow> string \<Rightarrow> unit eng" where
  "download_begin E rel = do_all [
     suppress_path E rel,
     modifies (\<lambda>s. s\<lparr>e_active_downloads := e_active_downloads s + 1,
                      e_active_ops := e_active_ops s + 1\<rparr>),
     bindm (reads e_state) (\<lambda>st. whenm (st \<noteq> StCatchingUp) (set_state StDownloading))]"

definition download_end :: "env \<Rightarrow> string \<Rightarrow> unit eng" where
  "download_end E rel = do_all [
     release_path E rel,
     modifies (\<lambda>s. s\<lparr>e_active_downloads := e_active_downloads s - 1,
                      e_active_ops := e_active_ops s - 1\<rparr>),
     maybe_mark_synced,
     maybe_finish_catch_up E]"

definition download_file_locked ::
    "env \<Rightarrow> string \<Rightarrow> string jsv \<Rightarrow> string jsv \<Rightarrow> int jsv \<Rightarrow> path \<Rightarrow> bool eng" where
  "download_file_locked E rel file_id expected sz full =
     thenm (download_begin E rel)
       (finallym (try_catch (download_attempt E rel file_id expected sz full)
                            (download_failed E rel))
                 (download_end E rel))"

definition engine_download ::
    "env \<Rightarrow> string \<Rightarrow> string jsv \<Rightarrow> string jsv \<Rightarrow> int jsv \<Rightarrow> bool eng" where
  "engine_download E rel file_id expected sz =
     (case safe_path E (Val rel) of
        None \<Rightarrow> ret False
      | Some full \<Rightarrow> download_file_locked E rel file_id expected sz full)"

subsection \<open>Conflict copies\<close>

text \<open>\<open>hashFile\<close> inside a \<open>try\<close> whose \<open>catch\<close> leaves \<open>null\<close>.\<close>

definition try_hash :: "env \<Rightarrow> path \<Rightarrow> string jsv eng" where
  "try_hash E p = try_catch (bindm (hash_file E p) (\<lambda>h. ret (Val h))) (\<lambda>_. ret Null)"

definition save_aside :: "env \<Rightarrow> path \<Rightarrow> unit eng" where
  "save_aside E full = thenm (rename_on_disk E full (conflict_of E full))
     (emit (EConflict full (conflict_of E full)))"

definition known_safe :: "string jsv \<Rightarrow> string jsv \<Rightarrow> string jsv \<Rightarrow> bool" where
  "known_safe actual incoming known \<longleftrightarrow>
     str_truthy actual \<and> (actual = incoming \<or> (str_truthy known \<and> actual = known))"

definition maybe_save_conflict_copy ::
    "env \<Rightarrow> path \<Rightarrow> string jsv \<Rightarrow> string jsv \<Rightarrow> unit eng" where
  "maybe_save_conflict_copy E full incoming known =
     try_catch
       (bindm (reads (\<lambda>s. exists_on_disk E s full)) (\<lambda>there.
          if \<not> there then ret ()
          else bindm (try_hash E full) (\<lambda>actual.
            if known_safe actual incoming known then ret () else save_aside E full)))
       (\<lambda>_. ret ())"

subsection \<open>Deleting a local file\<close>

definition rename_retry_codes :: "string set" where
  "rename_retry_codes = {''EPERM'', ''EACCES'', ''EBUSY''}"

text \<open>Attempt \<open>i\<close> of the five the delay table allows.\<close>

fun unlink_loop :: "env \<Rightarrow> path \<Rightarrow> nat \<Rightarrow> nat \<Rightarrow> bool eng" where
  "unlink_loop E full i 0 = ret False"
| "unlink_loop E full i (Suc left) = bindm (reads (\<lambda>s. node_at E s full)) (\<lambda>n.
     let code = (if n = None then Some ''ENOENT'' else unlink_code E full i)
     in case code of
          None \<Rightarrow> thenm (modifies (\<lambda>s. s\<lparr>e_disk := remove_node (disk_key E full) (e_disk s)\<rparr>))
                    (thenm (emit (EUnlink full)) (ret True))
        | Some c \<Rightarrow>
            if c = ''ENOENT'' then ret True
            else if left = 0 \<or> c \<notin> rename_retry_codes then ret False
            else unlink_loop E full (Suc i) left)"

definition unlink_with_retry :: "env \<Rightarrow> path \<Rightarrow> bool eng" where
  "unlink_with_retry E full = unlink_loop E full 0 5"

section \<open>Steps\<close>

lemma wp_try_hash [wp_rules]:
  "wp (try_hash E p) Q R = (\<lambda>s. Q (case node_at E s p of
       Some (RegFile c _) \<Rightarrow> if hash_fails E p then Null else Val (digest_of E c)
     | _ \<Rightarrow> Null) s)"
  by (auto simp: fun_eq_iff try_hash_def hash_file_def wp_rules split: option.split node.split)

lemma wp_apply_flip [wp_rules]:
  "wp (apply_flip f) Q R = (\<lambda>s. Q () (case f of
     NoFlip \<Rightarrow> s
   | FlipStop \<Rightarrow> s\<lparr>e_stopped := True, e_state := StDisconnected\<rparr>
   | FlipResync \<Rightarrow> s\<lparr>e_resyncing := True\<rparr>))"
  by (simp add: apply_flip_def wp_rules)

lemma wp_clear_permanent [wp_rules]:
  "wp (clear_permanent p) Q R = (\<lambda>s. Q () (s\<lparr>e_permanent := e_permanent s - {p}\<rparr>))"
  by (simp add: clear_permanent_def wp_rules)

lemma wp_mark_permanent [wp_rules]:
  "wp (mark_permanent p) Q R = (\<lambda>s. Q () (s\<lparr>e_permanent := insert p (e_permanent s)\<rparr>))"
  by (simp add: mark_permanent_def wp_rules)

lemma wp_stat_of [wp_rules]: "wp (stat_of E p) Q R = (\<lambda>s. Q (node_at E s p) s)"
  by (simp add: stat_of_def wp_rules)

lemma wp_rename_on_disk [wp_rules]:
  "wp (rename_on_disk E a b) Q R = (\<lambda>s.
     if node_at E s a = None then R (FsExn ''ENOENT'') s
     else case rename_code E a b of
         Some c \<Rightarrow> R (FsExn c) s
       | None \<Rightarrow> Q () (s\<lparr>e_disk := rename_node (disk_key E a) (disk_key E b) (e_disk s)\<rparr>))"
  by (auto simp: fun_eq_iff rename_on_disk_def wp_rules split: option.split)

end
