(* ===== verification/Server_Events.thy ===== *)
theory Server_Events
  imports Engine_Transfer
begin

text \<open>
  The handlers of the server's change events: file added, replaced, removed, renamed, the
  reconciliation of a case-variant name, and the dispatcher that catches what a handler throws and
  records the event as un-applied.
\<close>

section \<open>Messages\<close>

record file_msg =
  m_rel :: "string jsv"
  m_old_rel :: "string jsv"
  m_file_id :: "string jsv"
  m_checksum :: "string jsv"
  m_size :: "int jsv"
  m_seq :: "int jsv"

datatype server_msg =
    MsgAdded file_msg | MsgReplaced file_msg | MsgRemoved file_msg | MsgRenamed file_msg
  | MsgHeartbeat "int jsv" | MsgCaRotation | MsgUnknown "int jsv"

fun msg_seq :: "server_msg \<Rightarrow> int jsv" where
  "msg_seq (MsgAdded m) = m_seq m"
| "msg_seq (MsgReplaced m) = m_seq m"
| "msg_seq (MsgRemoved m) = m_seq m"
| "msg_seq (MsgRenamed m) = m_seq m"
| "msg_seq (MsgHeartbeat v) = v"
| "msg_seq MsgCaRotation = Undef"
| "msg_seq (MsgUnknown v) = v"

section \<open>Name validation\<close>

definition advance_if_given :: "env \<Rightarrow> int jsv \<Rightarrow> unit eng" where
  "advance_if_given E v = whenm (v \<noteq> Undef) (update_seq E v)"

definition validate_server_path :: "env \<Rightarrow> string jsv \<Rightarrow> int jsv \<Rightarrow> bool eng" where
  "validate_server_path E rel v =
     (if jsstr rel = [] then thenm (advance_if_given E v) (ret False)
      else (case verify_extraction E (jsstr rel) of
          VerifyOk \<Rightarrow> ret True
        | VerifyGuard \<Rightarrow> thenm (advance_if_given E v) (ret False)
        | VerifyOther \<Rightarrow> throw OtherExn))"

section \<open>The bracket of a handler\<close>

definition handler_begin :: "env \<Rightarrow> string list \<Rightarrow> unit eng" where
  "handler_begin E ps = do_all
     (modifies (\<lambda>s. s\<lparr>e_catch_up_pending := e_catch_up_pending s + 1\<rparr>) # map (suppress_path E) ps)"

definition handler_end :: "env \<Rightarrow> string list \<Rightarrow> unit eng" where
  "handler_end E ps = do_all (map (release_path E) ps @
     [modifies (\<lambda>s. s\<lparr>e_catch_up_pending := e_catch_up_pending s - 1\<rparr>), maybe_finish_catch_up E])"

text \<open>
  The common head of the handlers: a path that is unsafe, unrepresentable or out of scope advances
  the cursor and does nothing else; otherwise \<open>body\<close> runs with the relative and the full path.
\<close>

definition with_event_path ::
    "env \<Rightarrow> string jsv \<Rightarrow> int jsv \<Rightarrow> (string \<Rightarrow> path \<Rightarrow> unit eng) \<Rightarrow> unit eng" where
  "with_event_path E raw v body =
     (let rel = identity_key E raw in
      case safe_path E rel of
        None \<Rightarrow> update_seq E v
      | Some full \<Rightarrow> bindm (validate_server_path E rel v) (\<lambda>valid.
          if \<not> valid then ret ()
          else bindm (reads (\<lambda>s. in_scope E s (jsstr rel))) (\<lambda>scoped.
            if \<not> scoped then update_seq E v
            else thenm (handler_begin E [jsstr rel])
                   (finallym (body (jsstr rel) full) (handler_end E [jsstr rel])))))"

section \<open>Case-variant names\<close>

definition move_to_server_casing :: "env \<Rightarrow> path \<Rightarrow> path \<Rightarrow> unit eng" where
  "move_to_server_casing E old_full full =
     thenm (rename_on_disk E old_full (temp_name E full))
       (try_catch (rename_on_disk E (temp_name E full) full)
          (\<lambda>second. thenm
             (try_catch (rename_on_disk E (temp_name E full) old_full) (\<lambda>_. ret ()))
             (throw second)))"

definition download_then_advance ::
    "env \<Rightarrow> string \<Rightarrow> string jsv \<Rightarrow> string jsv \<Rightarrow> int jsv \<Rightarrow> int jsv \<Rightarrow> unit eng" where
  "download_then_advance E rel file_id checksum sz v =
     bindm (engine_download E rel file_id checksum sz) (\<lambda>ok. whenm ok (update_seq E v))"

definition reconcile_case_rename ::
    "env \<Rightarrow> file_rec \<Rightarrow> string \<Rightarrow> path \<Rightarrow> file_msg \<Rightarrow> unit eng" where
  "reconcile_case_rename E existing rel full m =
     (let old_key = row_key existing;
          old_full = safe_local_path E old_key
      in bindm
          (try_catch
             (thenm
               (case old_full of
                  None \<Rightarrow> ret ()
                | Some p \<Rightarrow> bindm (reads (\<lambda>s. p \<noteq> full \<and> exists_on_disk E s p))
                    (\<lambda>must_move. whenm must_move (move_to_server_casing E p full)))
               (ret True))
             (\<lambda>_. thenm (note_unapplied_seq (m_seq m)) (ret False)))
          (\<lambda>moved. if \<not> moved then ret ()
             else bindm (reads (\<lambda>s. local_checksum existing = m_checksum m \<and> exists_on_disk E s full))
               (\<lambda>bytes_match.
                  thenm (db_rename E old_key (existing\<lparr>rel_path := Val rel,
                      server_file_id := str_or (m_file_id m) (server_file_id existing),
                      server_checksum := m_checksum m,
                      local_checksum := (if bytes_match then m_checksum m else local_checksum existing),
                      fsize := num_or (m_size m) (fsize existing),
                      server_seq := m_seq m,
                      fstatus := Val (if bytes_match then Synced else PendingDownload)\<rparr>))
                    (if bytes_match then update_seq E (m_seq m)
                     else thenm (maybe_save_conflict_copy E full (m_checksum m)
                                   (server_checksum existing))
                       (download_then_advance E rel (m_file_id m) (m_checksum m) (m_size m) (m_seq m))))))"

section \<open>Added and replaced\<close>

definition refresh_row :: "env \<Rightarrow> file_rec \<Rightarrow> string \<Rightarrow> file_msg \<Rightarrow> unit eng" where
  "refresh_row E existing rel m =
     thenm (db_upsert E (existing\<lparr>rel_path := Val rel, server_seq := m_seq m,
              server_checksum := m_checksum m, server_file_id := m_file_id m\<rparr>))
       (update_seq E (m_seq m))"

definition queued_row :: "file_rec \<Rightarrow> string \<Rightarrow> file_msg \<Rightarrow> file_rec" where
  "queued_row base rel m = base\<lparr>rel_path := Val rel, server_file_id := m_file_id m,
     server_checksum := m_checksum m, fsize := m_size m, server_seq := m_seq m,
     fstatus := Val PendingDownload\<rparr>"

definition row_server_checksum :: "file_rec option \<Rightarrow> string jsv" where
  "row_server_checksum r = (case r of None \<Rightarrow> Undef | Some x \<Rightarrow> server_checksum x)"

definition pull_file ::
    "env \<Rightarrow> string \<Rightarrow> path \<Rightarrow> file_msg \<Rightarrow> string jsv \<Rightarrow> file_rec \<Rightarrow> unit eng" where
  "pull_file E rel full m known base = do_all [
     maybe_save_conflict_copy E full (m_checksum m) known,
     db_upsert E (queued_row base rel m),
     download_then_advance E rel (m_file_id m) (m_checksum m) (m_size m) (m_seq m)]"

definition file_added_body :: "env \<Rightarrow> file_msg \<Rightarrow> string jsv \<Rightarrow> string \<Rightarrow> path \<Rightarrow> unit eng" where
  "file_added_body E m known rel full =
     bindm (lookup_tracked E rel) (\<lambda>existing. case existing of
         Some x \<Rightarrow>
           if row_key x \<noteq> rel then reconcile_case_rename E x rel full m
           else if local_checksum x = m_checksum m then refresh_row E x rel m
           else pull_file E rel full m (str_or known (server_checksum x)) empty_rec
       | None \<Rightarrow> pull_file E rel full m (str_or known Undef) empty_rec)"

definition handle_file_added :: "env \<Rightarrow> file_msg \<Rightarrow> string jsv \<Rightarrow> unit eng" where
  "handle_file_added E m known = with_event_path E (m_rel m) (m_seq m) (file_added_body E m known)"

definition file_replaced_body :: "env \<Rightarrow> file_msg \<Rightarrow> string \<Rightarrow> path \<Rightarrow> unit eng" where
  "file_replaced_body E m rel full =
     bindm (lookup_tracked E rel) (\<lambda>existing. case existing of
         Some x \<Rightarrow>
           if row_key x \<noteq> rel then reconcile_case_rename E x rel full m
           else if local_checksum x = m_checksum m then refresh_row E x rel m
           else pull_file E rel full m (server_checksum x) x
       | None \<Rightarrow> pull_file E rel full m Undef empty_rec)"

definition handle_file_replaced :: "env \<Rightarrow> file_msg \<Rightarrow> unit eng" where
  "handle_file_replaced E m = with_event_path E (m_rel m) (m_seq m) (file_replaced_body E m)"

section \<open>Removed\<close>

text \<open>What happens to the bytes on disk; the result is \<open>applied\<close>.\<close>

definition honor_remote_delete :: "env \<Rightarrow> path \<Rightarrow> string jsv \<Rightarrow> bool eng" where
  "honor_remote_delete E full synced =
     bindm (reads (\<lambda>s. exists_on_disk E s full)) (\<lambda>there.
       if \<not> there then ret True
       else bindm (try_hash E full) (\<lambda>actual.
         if str_truthy actual \<and> str_truthy synced \<and> actual = synced then unlink_with_retry E full
         else if str_truthy actual
         then try_catch (thenm (save_aside E full) (ret True)) (\<lambda>_. ret False)
         else ret False))"

definition file_removed_body :: "env \<Rightarrow> file_msg \<Rightarrow> string \<Rightarrow> path \<Rightarrow> unit eng" where
  "file_removed_body E m rel full =
     bindm (lookup_tracked E rel) (\<lambda>existing.
       bindm (honor_remote_delete E full (row_server_checksum existing)) (\<lambda>applied.
         if applied
         then thenm (db_remove E (case existing of None \<Rightarrow> rel | Some x \<Rightarrow> row_key x))
                (update_seq E (m_seq m))
         else note_unapplied_seq (m_seq m)))"

definition handle_file_removed :: "env \<Rightarrow> file_msg \<Rightarrow> unit eng" where
  "handle_file_removed E m = with_event_path E (m_rel m) (m_seq m) (file_removed_body E m)"

text \<open>The local delete of the rename fallback; it leaves the cursor alone.\<close>

definition handle_file_removed_no_seq :: "env \<Rightarrow> string \<Rightarrow> unit eng" where
  "handle_file_removed_no_seq E rel =
     (case safe_path E (Val rel) of
        None \<Rightarrow> ret ()
      | Some full \<Rightarrow> thenm (suppress_path E rel)
          (finallym
             (do_all [
                bindm (reads (\<lambda>s. exists_on_disk E s full)) (\<lambda>there.
                  whenm there (thenm (unlink_with_retry E full) (ret ()))),
                bindm (lookup_tracked E rel) (\<lambda>existing.
                  db_remove E (case existing of None \<Rightarrow> rel | Some x \<Rightarrow> row_key x))])
             (release_path E rel)))"

section \<open>Renamed\<close>

definition row_field :: "(file_rec \<Rightarrow> 'a jsv) \<Rightarrow> file_rec option \<Rightarrow> 'a jsv" where
  "row_field f r = (case r of None \<Rightarrow> Undef | Some x \<Rightarrow> f x)"

definition row_diverged :: "file_rec option \<Rightarrow> bool" where
  "row_diverged r = (case r of None \<Rightarrow> False | Some x \<Rightarrow>
     str_truthy (local_checksum x) \<and> str_truthy (server_checksum x) \<and>
     local_checksum x \<noteq> server_checksum x)"

definition renamed_row :: "env \<Rightarrow> file_rec option \<Rightarrow> string \<Rightarrow> file_msg \<Rightarrow> file_rec" where
  "renamed_row E existing rel m =
     (let diverged = row_diverged existing in empty_rec\<lparr>
        rel_path := Val rel,
        server_file_id := str_or (m_file_id m) (row_field server_file_id existing),
        local_checksum := (if diverged then row_field local_checksum existing
                           else str_or (m_checksum m) (row_field local_checksum existing)),
        server_checksum := (if diverged then row_field server_checksum existing
                            else str_or (m_checksum m) (row_field server_checksum existing)),
        local_mtime := Val (now_ms E),
        fsize := num_or (m_size m) (row_field fsize existing),
        server_seq := m_seq m,
        fstatus := Val (if diverged then PendingUpload else Synced)\<rparr>)"

text \<open>The move on disk; the result is \<open>moved\<close>.\<close>

definition move_renamed :: "env \<Rightarrow> path \<Rightarrow> path \<Rightarrow> bool eng" where
  "move_renamed E old_full new_full =
     bindm (reads (\<lambda>s. exists_on_disk E s old_full)) (\<lambda>there.
       if there then thenm (rename_on_disk E old_full new_full) (ret True) else ret False)"

text \<open>
  The \<open>try\<close> block: \<open>applied\<close> and the hoisted \<open>movedChecksum\<close>, which is still \<open>null\<close> when the move
  or the lookup throws.
\<close>

definition rename_attempt ::
    "env \<Rightarrow> string \<Rightarrow> string \<Rightarrow> path \<Rightarrow> path \<Rightarrow> file_msg \<Rightarrow> (bool \<times> string jsv) eng" where
  "rename_attempt E old_rel rel old_full new_full m =
     try_catch
       (bindm (move_renamed E old_full new_full) (\<lambda>moved.
        bindm (lookup_tracked E old_rel) (\<lambda>existing.
          let moved_checksum = row_server_checksum existing;
              old_key = (case existing of None \<Rightarrow> old_rel | Some x \<Rightarrow> row_key x);
              bytes_match = (\<not> str_truthy (m_checksum m) \<or> moved_checksum = m_checksum m)
          in bindm (reads (\<lambda>s. moved \<and> exists_on_disk E s new_full)) (\<lambda>landed.
               if landed \<and> bytes_match
               then try_catch
                      (thenm (db_rename E old_key (renamed_row E existing rel m))
                         (ret (True, moved_checksum)))
                      (\<lambda>_. ret (False, moved_checksum))
               else ret (False, moved_checksum)))))
       (\<lambda>_. ret (False, Null))"

definition rename_in_scope ::
    "env \<Rightarrow> string \<Rightarrow> string \<Rightarrow> path \<Rightarrow> path \<Rightarrow> file_msg \<Rightarrow> unit eng" where
  "rename_in_scope E old_rel rel old_full new_full m =
     bindm
       (thenm (handler_begin E [old_rel, rel])
          (finallym (rename_attempt E old_rel rel old_full new_full m)
             (handler_end E [old_rel, rel])))
       (\<lambda>(applied, moved_checksum).
          if applied then update_seq E (m_seq m)
          else thenm (handle_file_removed_no_seq E old_rel)
                 (handle_file_added E (m\<lparr>m_rel := Val rel\<rparr>) moved_checksum))"

definition handle_file_renamed :: "env \<Rightarrow> file_msg \<Rightarrow> unit eng" where
  "handle_file_renamed E m =
     (let old_rel = identity_key E (m_old_rel m); rel = identity_key E (m_rel m) in
      case (safe_path E old_rel, safe_path E rel) of
        (Some old_full, Some new_full) \<Rightarrow>
          bindm (validate_server_path E old_rel (m_seq m)) (\<lambda>valid_old.
            if \<not> valid_old then ret ()
            else bindm (validate_server_path E rel (m_seq m)) (\<lambda>valid_new.
              if \<not> valid_new then ret ()
              else bindm (reads (\<lambda>s. (in_scope E s (jsstr old_rel), in_scope E s (jsstr rel))))
                (\<lambda>(old_in, new_in).
                  if \<not> old_in \<and> \<not> new_in then update_seq E (m_seq m)
                  else if \<not> new_in
                  then handle_file_removed E (m\<lparr>m_rel := old_rel\<rparr>)
                  else if \<not> old_in
                  then handle_file_added E (m\<lparr>m_rel := rel\<rparr>) Undef
                  else rename_in_scope E (jsstr old_rel) (jsstr rel) old_full new_full m)))
      | _ \<Rightarrow> update_seq E (m_seq m))"

section \<open>Dispatch\<close>

text \<open>
  A CA rotation is started without being awaited, so nothing of it happens inside the chain; theory
  \<open>Mtls_Rotation\<close> models it.
\<close>

definition apply_server_message :: "env \<Rightarrow> server_msg \<Rightarrow> unit eng" where
  "apply_server_message E msg = bindm (reads e_stopped) (\<lambda>stopped.
     if stopped then ret ()
     else (case msg of
         MsgAdded m \<Rightarrow> handle_file_added E m Undef
       | MsgReplaced m \<Rightarrow> handle_file_replaced E m
       | MsgRemoved m \<Rightarrow> handle_file_removed E m
       | MsgRenamed m \<Rightarrow> handle_file_renamed E m
       | MsgHeartbeat v \<Rightarrow> handle_heartbeat E v
       | MsgCaRotation \<Rightarrow> ret ()
       | MsgUnknown _ \<Rightarrow> ret ()))"

definition on_server_message :: "env \<Rightarrow> server_msg \<Rightarrow> unit eng" where
  "on_server_message E msg = bindm (reads e_stopped) (\<lambda>stopped.
     if stopped then ret ()
     else try_catch (apply_server_message E msg) (\<lambda>_. note_unapplied_seq (msg_seq msg)))"

end
