(* ===== verification/Engine_Views.thy ===== *)
theory Engine_Views
  imports Server_Events
begin

text \<open>
  Views of the engine state that the bookkeeping of a handler leaves alone. The locale
  \<open>quiet_view\<close> states the interface once: a view that does not look at the database, the cursor, the
  counters, the state machine or the effect log. Its lemmas say that every method that only touches
  those keeps the view; the file system is the view the data-loss properties are about.
\<close>

definition stable :: "(engine \<Rightarrow> 'v) \<Rightarrow> 'a eng \<Rightarrow> bool" where
  "stable view m \<longleftrightarrow> (\<forall>v. keeps (\<lambda>s. view s = v) m)"

named_theorems stable_intros \<open>methods that keep a view of the state\<close>

lemma stableI:
  "(\<And>v s. view s = v \<Longrightarrow> wp m (\<lambda>_ s. view s = v) (\<lambda>_ s. view s = v) s) \<Longrightarrow> stable view m"
  by (simp add: stable_def keeps_def)

lemma stableD:
  "stable view m \<Longrightarrow> wp m (\<lambda>_ s'. view s' = view s) (\<lambda>_ s'. view s' = view s) s"
  unfolding stable_def keeps_def by blast

lemma stable_final: "stable view m \<Longrightarrow> view (final m s) = view s"
  using wp_final [OF stableD] by metis

lemma stable_constructors [stable_intros]:
  "stable view (ret x)" "stable view (throw e)" "stable view (reads f)"
  "stable view m \<Longrightarrow> (\<And>x. stable view (g x)) \<Longrightarrow> stable view (bindm m g)"
  "stable view m \<Longrightarrow> stable view k \<Longrightarrow> stable view (thenm m k)"
  "stable view m' \<Longrightarrow> (\<And>e. stable view (h e)) \<Longrightarrow> stable view (try_catch m' h)"
  "stable view m' \<Longrightarrow> stable view u \<Longrightarrow> stable view (finallym m' u)"
  "(b \<Longrightarrow> stable view u) \<Longrightarrow> stable view (whenm b u)"
  by (auto simp: stable_def intro!: keeps_rules)

lemma stable_cases [stable_intros]:
  "(b \<Longrightarrow> stable view m) \<Longrightarrow> (\<not> b \<Longrightarrow> stable view n) \<Longrightarrow> stable view (if b then m else n)"
  "stable view m \<Longrightarrow> (\<And>x. stable view (f x)) \<Longrightarrow> stable view (case v of None \<Rightarrow> m | Some x \<Rightarrow> f x)"
  "(\<And>x y. stable view (p x y)) \<Longrightarrow> stable view (case q of (x, y) \<Rightarrow> p x y)"
  by (auto split: option.split prod.split)

lemma stable_do_all [stable_intros]:
  "(\<And>m. m \<in> set ms \<Longrightarrow> stable view m) \<Longrightarrow> stable view (do_all ms)"
  by (auto simp: stable_def intro!: keeps_do_all)

lemma stable_for_each [stable_intros]:
  "(\<And>x. x \<in> set xs \<Longrightarrow> stable view (body x)) \<Longrightarrow> stable view (for_each brk xs body)"
  by (auto simp: stable_def intro!: keeps_for_each)

lemma stable_modifies: "(\<And>s. view (f s) = view s) \<Longrightarrow> stable view (modifies f)"
  by (auto simp: stable_def intro!: keeps_modifies)

lemma stable_hash [stable_intros]:
  "stable view (hash_file E p)" "stable view (try_hash E p)" "stable view (stat_of E p)"
  by (rule stableI, simp add: hash_file_def try_hash_def stat_of_def wp_rules
      split: option.split node.split)+

lemma stable_db_reads [stable_intros]:
  "stable view (db_guard E op)" "stable view (db_read E f)" "stable view (lookup_tracked E p)"
  by (rule stableI, simp add: lookup_tracked_def wp_rules)+

section \<open>Views that ignore the bookkeeping\<close>

locale quiet_view =
  fixes view :: "engine \<Rightarrow> 'v"
  assumes view_db: "view (s\<lparr>e_db := d\<rparr>) = view s"
    and view_effects: "view (s\<lparr>e_effects := x\<rparr>) = view s"
    and view_state: "view (s\<lparr>e_state := st\<rparr>) = view s"
    and view_cursor: "view (s\<lparr>e_lowest_unapplied := n\<rparr>) = view s"
      "view (s\<lparr>e_ws_since := n\<rparr>) = view s" "view (s\<lparr>e_tip_seq := n\<rparr>) = view s"
    and view_flags: "view (s\<lparr>e_caught_up := b\<rparr>) = view s" "view (s\<lparr>e_stopped := b\<rparr>) = view s"
      "view (s\<lparr>e_resyncing := b\<rparr>) = view s"
    and view_counts: "view (s\<lparr>e_suppressed := f\<rparr>) = view s"
      "view (s\<lparr>e_catch_up_pending := n\<rparr>) = view s"
      "view (s\<lparr>e_active_downloads := k\<rparr>) = view s" "view (s\<lparr>e_active_ops := k\<rparr>) = view s"
    and view_permanent: "view (s\<lparr>e_permanent := P\<rparr>) = view s"
begin

lemmas blind = view_db view_effects view_state view_cursor view_flags view_counts view_permanent

lemma stable_small:
  "stable view (emit x)" "stable view (set_state st)" "stable view (note_unapplied_seq v)"
  "stable view (suppress_path E p)" "stable view (release_path E p)"
  "stable view (mark_permanent p)" "stable view (clear_permanent p)" "stable view (apply_flip fl)"
  unfolding emit_def set_state_def note_unapplied_seq_def suppress_path_def release_path_def
    mark_permanent_def clear_permanent_def apply_flip_def Let_def
  by (rule stable_modifies; simp add: blind note_unapplied_def split: jsv.split flip.split)+

lemma stable_db:
  "stable view (db_upsert E r)" "stable view (db_update_status E p fs)" "stable view (db_remove E p)"
  "stable view (db_rename E p r)" "stable view (db_set_last_seq E v)" "stable view (db_set_meta E k w)"
  by (rule stableI, simp add: wp_rules blind)+

lemma stable_cursor:
  "stable view (update_seq E v)" "stable view maybe_mark_synced"
  "stable view (maybe_finish_catch_up E)" "stable view (handle_heartbeat E v)"
  by (rule stableI, auto simp: update_seq_def maybe_mark_synced_def maybe_finish_catch_up_def
      handle_heartbeat_def clear_gap_def wp_rules blind)+

lemma stable_brackets:
  "stable view (handler_begin E ps)" "stable view (handler_end E ps)"
  "stable view (download_begin E p)" "stable view (download_end E p)"
  unfolding handler_begin_def handler_end_def download_begin_def download_end_def
  by (rule stable_do_all; auto intro!: stable_small stable_cursor stable_intros stable_modifies
      simp: blind)+

lemmas stable_bookkeeping = stable_small stable_db stable_cursor stable_brackets

lemma stable_validate: "stable view (validate_server_path E rel v)"
  unfolding validate_server_path_def advance_if_given_def
  by (auto intro!: stable_intros stable_bookkeeping split: verify_result.split)

lemma stable_refresh: "stable view (refresh_row E x rel m)"
  unfolding refresh_row_def by (intro stable_intros stable_bookkeeping)

end

end
