(* ===== verification/Event_Balance.thy ===== *)
theory Event_Balance
  imports Server_Events
begin

text \<open>
  What every server-event handler leaves as it found it, on normal and on exceptional exit: the
  suppression counts, the number of pending catch-up handlers and the transfer counters. The
  methods with a bracket (suppress then release, increment then decrement) restore them whatever
  the body does to everything else.
\<close>

type_synonym counters = "(string \<Rightarrow> nat option) \<times> int \<times> bool \<times> nat \<times> nat"

definition counters_of :: "engine \<Rightarrow> counters" where
  "counters_of s = (e_suppressed s, e_catch_up_pending s, e_folds s,
     e_active_downloads s, e_active_ops s)"

definition counts_ok :: "counters \<Rightarrow> bool" where
  "counts_ok c \<longleftrightarrow> (\<forall>k. fst c k \<noteq> Some 0)"

definition balanced :: "'a eng \<Rightarrow> bool" where
  "balanced m \<longleftrightarrow> (\<forall>c. counts_ok c \<longrightarrow> keeps (\<lambda>s. counters_of s = c) m)"

named_theorems balanced_intros \<open>methods that restore the counters\<close>

lemma balancedI:
  "(\<And>c s. counts_ok c \<Longrightarrow> counters_of s = c \<Longrightarrow>
     wp m (\<lambda>_ s. counters_of s = c) (\<lambda>_ s. counters_of s = c) s) \<Longrightarrow> balanced m"
  by (auto simp: balanced_def keeps_def)

lemma balancedD:
  "balanced m \<Longrightarrow> counts_ok (counters_of s) \<Longrightarrow>
     wp m (\<lambda>_ s'. counters_of s' = counters_of s) (\<lambda>_ s'. counters_of s' = counters_of s) s"
  unfolding balanced_def keeps_def by blast

lemma balanced_if_keeps: "(\<And>c. keeps (\<lambda>s. counters_of s = c) m) \<Longrightarrow> balanced m"
  by (simp add: balanced_def)

lemma balanced_constructors [balanced_intros]:
  "balanced (ret x)" "balanced (throw e)" "balanced (reads f)"
  "balanced m \<Longrightarrow> (\<And>x. balanced (g x)) \<Longrightarrow> balanced (bindm m g)"
  "balanced m \<Longrightarrow> balanced k \<Longrightarrow> balanced (thenm m k)"
  "balanced m' \<Longrightarrow> (\<And>e. balanced (h e)) \<Longrightarrow> balanced (try_catch m' h)"
  "balanced m' \<Longrightarrow> balanced u \<Longrightarrow> balanced (finallym m' u)"
  "(b \<Longrightarrow> balanced u) \<Longrightarrow> balanced (whenm b u)"
  by (auto simp: balanced_def intro!: keeps_rules)

lemma balanced_cases [balanced_intros]:
  "(b \<Longrightarrow> balanced m) \<Longrightarrow> (\<not> b \<Longrightarrow> balanced n) \<Longrightarrow> balanced (if b then m else n)"
  "balanced m \<Longrightarrow> (\<And>x. balanced (f x)) \<Longrightarrow> balanced (case v of None \<Rightarrow> m | Some x \<Rightarrow> f x)"
  "(\<And>x y. balanced (p x y)) \<Longrightarrow> balanced (case q of (x, y) \<Rightarrow> p x y)"
  by (auto split: option.split prod.split)

lemma balanced_do_all [balanced_intros]:
  "(\<And>m. m \<in> set ms \<Longrightarrow> balanced m) \<Longrightarrow> balanced (do_all ms)"
  by (auto simp: balanced_def intro!: keeps_do_all)

lemma balanced_modifies: "(\<And>s. counters_of (f s) = counters_of s) \<Longrightarrow> balanced (modifies f)"
  by (auto simp: balanced_def intro!: keeps_modifies)

lemma balanced_emit [balanced_intros]: "balanced (emit x)"
  unfolding emit_def by (rule balanced_modifies) (simp add: counters_of_def)

lemma balanced_set_state [balanced_intros]: "balanced (set_state x)"
  unfolding set_state_def by (rule balanced_modifies) (simp add: counters_of_def)

lemma balanced_db [balanced_intros]:
  "balanced (db_guard E op)" "balanced (db_read E f)" "balanced (db_upsert E r)"
  "balanced (db_update_status E p st)" "balanced (db_remove E p)" "balanced (db_rename E p r)"
  "balanced (db_set_last_seq E v)" "balanced (db_set_meta E k w)"
  by (rule balancedI, simp add: wp_rules counters_of_def)+

lemma balanced_lookup [balanced_intros]: "balanced (lookup_tracked E p)"
  unfolding lookup_tracked_def by (intro balanced_intros)

lemma balanced_note [balanced_intros]: "balanced (note_unapplied_seq v)"
  unfolding note_unapplied_seq_def
  by (rule balanced_modifies) (auto simp: counters_of_def note_unapplied_def split: jsv.split)

lemma balanced_update_seq [balanced_intros]: "balanced (update_seq E v)"
  by (rule balancedI) (simp add: update_seq_def wp_rules counters_of_def clear_gap_def)

lemma balanced_sync_state [balanced_intros]:
  "balanced maybe_mark_synced" "balanced (maybe_finish_catch_up E)" "balanced (handle_heartbeat E v)"
  by (rule balancedI, auto simp: maybe_mark_synced_def maybe_finish_catch_up_def
      handle_heartbeat_def wp_rules counters_of_def)+

lemma balanced_disk [balanced_intros]:
  "balanced (hash_file E p)" "balanced (rename_on_disk E p q)" "balanced (stat_of E p)"
  "balanced (try_hash E p)" "balanced (save_aside E p)"
  by (rule balancedI, simp add: hash_file_def rename_on_disk_def stat_of_def try_hash_def
      save_aside_def wp_rules counters_of_def split: option.split node.split)+

lemma balanced_conflict [balanced_intros]: "balanced (maybe_save_conflict_copy E full inc known)"
  unfolding maybe_save_conflict_copy_def by (intro balanced_intros)

lemma balanced_unlink [balanced_intros]: "balanced (unlink_with_retry E full)"
proof -
  have "balanced (unlink_loop E full i n)" for i n
  proof (induction n arbitrary: i)
    case 0
    show ?case by (simp add: balanced_constructors)
  next
    case (Suc n)
    have "balanced (modifies (\<lambda>s. s\<lparr>e_disk := f s\<rparr>))" for f
      by (rule balanced_modifies) (simp add: counters_of_def)
    with Suc show ?case
      by (simp only: unlink_loop.simps Let_def) (intro balanced_intros)
  qed
  then show ?thesis by (simp add: unlink_with_retry_def)
qed

lemma balanced_permanent [balanced_intros]:
  "balanced (mark_permanent p)" "balanced (clear_permanent p)"
  unfolding mark_permanent_def clear_permanent_def
  by (rule balanced_modifies, simp add: counters_of_def)+

lemma balanced_http_download [balanced_intros]: "balanced (http_download E rel fid full c n)"
  unfolding http_download_def
  by (intro balanced_intros)
    (auto simp: apply_flip_def counters_of_def intro!: balanced_intros balanced_modifies
      split: flip.split sum.split dl_error.split)

section \<open>Brackets\<close>

definition inc_at :: "string \<Rightarrow> (string \<Rightarrow> nat option) \<Rightarrow> string \<Rightarrow> nat option" where
  "inc_at k m = m(k := Some ((case m k of None \<Rightarrow> 0 | Some n \<Rightarrow> n) + 1))"

definition dec_at :: "string \<Rightarrow> (string \<Rightarrow> nat option) \<Rightarrow> string \<Rightarrow> nat option" where
  "dec_at k m = (let n = (case m k of None \<Rightarrow> 0 | Some n \<Rightarrow> n) - 1
     in m(k := if n > 0 then Some n else None))"

lemma dec_inc: "m k \<noteq> Some 0 \<Longrightarrow> dec_at k (inc_at k m) = m"
  by (auto simp: dec_at_def inc_at_def Let_def fun_eq_iff split: option.split)

lemma inc_commute: "inc_at k (inc_at l m) = inc_at l (inc_at k m)"
  by (auto simp: inc_at_def fun_eq_iff split: option.split)

lemma inc_ok: "\<forall>k. m k \<noteq> Some 0 \<Longrightarrow> \<forall>k. inc_at l m k \<noteq> Some 0"
  by (simp add: inc_at_def)

lemma dec_inc2: "\<forall>k. m k \<noteq> Some 0 \<Longrightarrow> dec_at l (dec_at k (inc_at l (inc_at k m))) = m"
  using inc_ok [of m l] by (metis dec_inc inc_commute)

lemma wp_suppress_path [wp_rules]:
  "wp (suppress_path E p) Q R =
     (\<lambda>s. Q () (s\<lparr>e_suppressed := inc_at (supp_key E s p) (e_suppressed s)\<rparr>))"
  by (simp add: suppress_path_def wp_rules inc_at_def supp_count_def Let_def)

lemma wp_release_path [wp_rules]:
  "wp (release_path E p) Q R =
     (\<lambda>s. Q () (s\<lparr>e_suppressed := dec_at (supp_key E s p) (e_suppressed s)\<rparr>))"
  by (simp add: release_path_def wp_rules dec_at_def supp_count_def Let_def)

lemma supp_key_cong: "e_folds s' = e_folds s \<Longrightarrow> supp_key E s' p = supp_key E s p"
  by (simp add: supp_key_def)

lemma balanced_around:
  assumes m: "balanced m"
    and b: "\<And>Q R s. wp b Q R s = Q () (f s)"
    and ok: "\<And>s. counts_ok (counters_of s) \<Longrightarrow> counts_ok (counters_of (f s))"
    and e: "\<And>s s'. counts_ok (counters_of s) \<Longrightarrow> counters_of s' = counters_of (f s) \<Longrightarrow>
       wp e (\<lambda>_ t. counters_of t = counters_of s) (\<lambda>_ t. counters_of t = counters_of s) s'"
  shows "balanced (thenm b (finallym m e))"
proof (rule balancedI)
  fix c s
  assume c: "counts_ok c" "counters_of s = c"
  then have "counts_ok (counters_of (f s))" by (auto intro: ok)
  from balancedD [OF m this] show
    "wp (thenm b (finallym m e)) (\<lambda>_ s. counters_of s = c) (\<lambda>_ s. counters_of s = c) s"
    unfolding wp_thenm wp_finallym b
    by (rule wp_conseq) (use e c in blast)+
qed

lemma balanced_handler1 [balanced_intros]:
  assumes "balanced m"
  shows "balanced (thenm (handler_begin E [p]) (finallym m (handler_end E [p])))"
proof (rule balanced_around [OF assms])
  show "wp (handler_begin E [p]) Q R s = Q ()
      (s\<lparr>e_catch_up_pending := e_catch_up_pending s + 1,
         e_suppressed := inc_at (supp_key E s p) (e_suppressed s)\<rparr>)" for Q R s
    by (simp add: handler_begin_def wp_rules supp_key_def)
qed (auto simp: handler_end_def maybe_finish_catch_up_def wp_rules counters_of_def counts_ok_def
      supp_key_def dec_inc inc_ok)

lemma balanced_handler2 [balanced_intros]:
  assumes "balanced m"
  shows "balanced (thenm (handler_begin E [p, q]) (finallym m (handler_end E [p, q])))"
proof (rule balanced_around [OF assms])
  show "wp (handler_begin E [p, q]) Q R s = Q ()
      (s\<lparr>e_catch_up_pending := e_catch_up_pending s + 1,
         e_suppressed := inc_at (supp_key E s q) (inc_at (supp_key E s p) (e_suppressed s))\<rparr>)"
    for Q R s
    by (simp add: handler_begin_def wp_rules supp_key_def)
qed (auto simp: handler_end_def maybe_finish_catch_up_def wp_rules counters_of_def counts_ok_def
      supp_key_def dec_inc2 inc_ok)

lemma balanced_suppressed [balanced_intros]:
  assumes "balanced m"
  shows "balanced (thenm (suppress_path E p) (finallym m (release_path E p)))"
proof (rule balanced_around [OF assms])
  show "wp (suppress_path E p) Q R s = Q ()
      (s\<lparr>e_suppressed := inc_at (supp_key E s p) (e_suppressed s)\<rparr>)" for Q R s
    by (simp add: wp_rules)
qed (auto simp: wp_rules counters_of_def counts_ok_def supp_key_def dec_inc inc_ok)

definition begun :: "env \<Rightarrow> string \<Rightarrow> engine \<Rightarrow> engine" where
  "begun E p s = (let t = s\<lparr>e_suppressed := inc_at (supp_key E s p) (e_suppressed s),
       e_active_downloads := e_active_downloads s + 1, e_active_ops := e_active_ops s + 1\<rparr>
     in if e_state s \<noteq> StCatchingUp then t\<lparr>e_state := StDownloading\<rparr> else t)"

lemma counters_begun:
  "counters_of (begun E p s) = (inc_at (supp_key E s p) (e_suppressed s), e_catch_up_pending s,
     e_folds s, e_active_downloads s + 1, e_active_ops s + 1)"
  by (simp add: begun_def counters_of_def Let_def)

lemma balanced_download_bracket:
  assumes "balanced m"
  shows "balanced (thenm (download_begin E p) (finallym m (download_end E p)))"
proof (rule balanced_around [OF assms])
  show "wp (download_begin E p) Q R s = Q () (begun E p s)" for Q R s
    by (simp add: download_begin_def begun_def wp_rules Let_def)
next
  fix s
  show "counts_ok (counters_of s) \<Longrightarrow> counts_ok (counters_of (begun E p s))"
    unfolding counters_begun by (simp add: counts_ok_def counters_of_def inc_ok)
next
  fix s s'
  assume "counts_ok (counters_of s)" "counters_of s' = counters_of (begun E p s)"
  then show "wp (download_end E p) (\<lambda>_ t. counters_of t = counters_of s)
      (\<lambda>_ t. counters_of t = counters_of s) s'"
    unfolding counters_begun
    by (auto simp: download_end_def maybe_finish_catch_up_def maybe_mark_synced_def wp_rules
        counters_of_def counts_ok_def supp_key_def dec_inc)
qed

section \<open>The handlers\<close>

lemma balanced_engine_download [balanced_intros]: "balanced (engine_download E rel fid c sz)"
  unfolding engine_download_def download_file_locked_def download_attempt_def download_failed_def Let_def
  by (intro balanced_intros balanced_download_bracket)
    (auto intro: balanced_intros split: exn.split bool.split)

lemma balanced_case_rename [balanced_intros]: "balanced (reconcile_case_rename E x rel full m)"
  unfolding reconcile_case_rename_def move_to_server_casing_def download_then_advance_def Let_def
  by (intro balanced_intros)

lemma balanced_pull [balanced_intros]: "balanced (pull_file E rel full m known base)"
  unfolding pull_file_def download_then_advance_def
  by (rule balanced_do_all) (auto intro!: balanced_intros)

lemma balanced_refresh [balanced_intros]: "balanced (refresh_row E x rel m)"
  unfolding refresh_row_def by (intro balanced_intros)

lemma balanced_validate [balanced_intros]: "balanced (validate_server_path E rel v)"
  unfolding validate_server_path_def advance_if_given_def
  by (auto intro!: balanced_intros split: verify_result.split)

lemma balanced_with_path [balanced_intros]:
  "(\<And>p full. balanced (body p full)) \<Longrightarrow> balanced (with_event_path E raw v body)"
  unfolding with_event_path_def Let_def by (intro balanced_intros)

lemma balanced_added [balanced_intros]: "balanced (handle_file_added E m known)"
  unfolding handle_file_added_def file_added_body_def by (intro balanced_intros)

lemma balanced_replaced [balanced_intros]: "balanced (handle_file_replaced E m)"
  unfolding handle_file_replaced_def file_replaced_body_def by (intro balanced_intros)

lemma balanced_removed [balanced_intros]: "balanced (handle_file_removed E m)"
  unfolding handle_file_removed_def file_removed_body_def honor_remote_delete_def
  by (intro balanced_intros)

lemma balanced_removed_no_seq [balanced_intros]: "balanced (handle_file_removed_no_seq E rel)"
  unfolding handle_file_removed_no_seq_def
  by (intro balanced_intros) (auto intro!: balanced_intros)

lemma balanced_renamed [balanced_intros]: "balanced (handle_file_renamed E m)"
  unfolding handle_file_renamed_def rename_in_scope_def rename_attempt_def move_renamed_def Let_def
  by (intro balanced_intros)

lemma balanced_apply [balanced_intros]: "balanced (apply_server_message E msg)"
  unfolding apply_server_message_def by (cases msg) (auto intro!: balanced_intros)

text \<open>Property C36: applying any server message, whatever the environment answers and whichever
  database or file-system call throws, restores every path's suppression count, the number of
  pending catch-up handlers and the transfer counters; a path can neither stay suppressed nor lose
  the suppression another operation holds.\<close>

theorem server_message_balanced:
  assumes "\<forall>k. e_suppressed s k \<noteq> Some 0"
  shows "e_suppressed (final (on_server_message E msg) s) = e_suppressed s \<and>
    e_catch_up_pending (final (on_server_message E msg) s) = e_catch_up_pending s \<and>
    e_active_downloads (final (on_server_message E msg) s) = e_active_downloads s \<and>
    e_active_ops (final (on_server_message E msg) s) = e_active_ops s"
proof -
  have "balanced (on_server_message E msg)"
    unfolding on_server_message_def by (intro balanced_intros)
  moreover have "counts_ok (counters_of s)" using assms by (simp add: counts_ok_def counters_of_def)
  ultimately have "counters_of (final (on_server_message E msg) s) = counters_of s"
    using wp_final [OF balancedD] by blast
  then show ?thesis by (simp add: counters_of_def)
qed

definition sample_msg :: file_msg where
  "sample_msg = \<lparr>m_rel = Val ''a'', m_old_rel = Undef, m_file_id = Val ''f1'',
     m_checksum = Val ''new'', m_size = Val 3, m_seq = Val 4\<rparr>"

lemma server_message_balanced_witness:
  "e_suppressed (final (on_server_message plain_env (MsgAdded sample_msg)) idle_engine) = Map.empty"
  using server_message_balanced [of idle_engine plain_env "MsgAdded sample_msg"]
  by (simp add: idle_engine_def)

end
