(* ===== verification/Event_Safety.thy ===== *)
theory Event_Safety
  imports Engine_Views Event_Balance
begin

text \<open>
  What a server event may do to the user's bytes, to the row of the file and to the cursor. The
  file-system effects of a handler are separated from its bookkeeping by the views of theory
  \<open>Engine_Views\<close>: everything but the conflict copy, the download and the local delete keeps the disk.
\<close>

section \<open>The disk as a view\<close>

interpretation whole_disk: quiet_view e_disk
  by unfold_locales simp_all

definition disk_outside :: "path set \<Rightarrow> engine \<Rightarrow> disk" where
  "disk_outside A s = e_disk s |` (- A)"

interpretation outside: quiet_view "disk_outside A" for A
  by unfold_locales (simp_all add: disk_outside_def)

lemma disk_outside_eq:
  "disk_outside A s' = disk_outside A s \<longleftrightarrow> (\<forall>p. p \<notin> A \<longrightarrow> e_disk s' p = e_disk s p)"
  by (auto simp: disk_outside_def fun_eq_iff restrict_map_def)

text \<open>The two keys a download of \<open>full\<close> writes.\<close>

definition own_keys :: "env \<Rightarrow> path \<Rightarrow> path set" where
  "own_keys E full = {disk_key E (temp_name E full), disk_key E full}"

lemma outside_http_download:
  "stable (disk_outside (own_keys E full)) (http_download E rel fid full c n)"
proof (rule stableI)
  fix v s
  assume v: "disk_outside (own_keys E full) s = v"
  obtain res d where r: "download_file (digest_of E) (client_max_bytes E) (download_io E full)
      (download_reply E fid full) (disk_key E (temp_name E full)) (disk_key E full) c (Val n) (e_disk s)
      = (res, d)" by fastforce
  from download_file_frame [OF r] v
  have "disk_outside (own_keys E full) (s\<lparr>e_disk := d\<rparr>) = v"
    by (auto simp: own_keys_def disk_outside_eq)
  then show "wp (http_download E rel fid full c n)
      (\<lambda>_ s. disk_outside (own_keys E full) s = v) (\<lambda>_ s. disk_outside (own_keys E full) s = v) s"
    by (auto simp: http_download_def wp_rules r apply_flip_def disk_outside_def
        split: flip.split sum.split dl_error.split)
qed

lemma outside_engine_download:
  assumes "safe_path E (Val rel) = Some full"
  shows "stable (disk_outside (own_keys E full)) (engine_download E rel fid c sz)"
  unfolding engine_download_def download_file_locked_def download_attempt_def download_failed_def Let_def
  using assms
  by (auto intro!: stable_intros outside.stable_bookkeeping outside_http_download
      split: exn.split bool.split)

lemma outside_download_then_advance:
  assumes "safe_path E (Val rel) = Some full"
  shows "stable (disk_outside (own_keys E full)) (download_then_advance E rel fid c sz v)"
  unfolding download_then_advance_def
  using assms by (intro stable_intros outside.stable_bookkeeping outside_engine_download)

section \<open>Conflict copies\<close>

text \<open>Bytes the server is known to hold: the incoming ones, or the last synced ones.\<close>

definition server_has :: "env \<Rightarrow> content \<Rightarrow> string jsv \<Rightarrow> string jsv \<Rightarrow> bool" where
  "server_has E c incoming known \<longleftrightarrow> Val (digest_of E c) \<in> {incoming, known}"

text \<open>
  What became of the regular files of \<open>d\<close>: in place, or, for the file at \<open>full\<close>, at its conflict path
  or known to the server.
\<close>

definition bytes_kept :: "env \<Rightarrow> path \<Rightarrow> string jsv \<Rightarrow> string jsv \<Rightarrow> disk \<Rightarrow> disk \<Rightarrow> bool" where
  "bytes_kept E full incoming known d d' \<longleftrightarrow>
     (\<forall>p c t. d p = Some (RegFile c t) \<longrightarrow> d' p = Some (RegFile c t) \<or>
        p = disk_key E full \<and> (d' (disk_key E (conflict_of E full)) = Some (RegFile c t) \<or>
          server_has E c incoming known))"

text \<open>The temporary and the conflict name of \<open>full\<close> are fresh.\<close>

definition fresh_names :: "env \<Rightarrow> path \<Rightarrow> disk \<Rightarrow> bool" where
  "fresh_names E full d \<longleftrightarrow>
     d (disk_key E (temp_name E full)) = None \<and> d (disk_key E (conflict_of E full)) = None \<and>
     disk_key E (temp_name E full) \<noteq> disk_key E full \<and>
     disk_key E (temp_name E full) \<noteq> disk_key E (conflict_of E full) \<and>
     disk_key E full \<noteq> disk_key E (conflict_of E full)"

lemma bytes_kept_refl [simp]: "bytes_kept E full i k d d"
  by (simp add: bytes_kept_def)

lemma bytes_kept_overwrite:
  assumes fresh: "fresh_names E full d" and d': "\<And>p. p \<notin> own_keys E full \<Longrightarrow> d' p = d p"
    and safe: "\<And>c t. d (disk_key E full) = Some (RegFile c t) \<Longrightarrow> server_has E c inc known"
  shows "bytes_kept E full inc known d d'"
  unfolding bytes_kept_def
proof (intro allI impI)
  fix p c t
  assume p: "d p = Some (RegFile c t)"
  show "d' p = Some (RegFile c t) \<or> p = disk_key E full \<and>
      (d' (disk_key E (conflict_of E full)) = Some (RegFile c t) \<or> server_has E c inc known)"
  proof (cases "p = disk_key E full")
    case True
    with p safe show ?thesis by blast
  next
    case False
    with p fresh have "p \<notin> own_keys E full" by (auto simp: own_keys_def fresh_names_def)
    with d' p show ?thesis by simp
  qed
qed

lemma bytes_kept_aside:
  assumes fresh: "fresh_names E full d"
    and d': "\<And>p. p \<notin> own_keys E full \<Longrightarrow>
       d' p = rename_node (disk_key E full) (disk_key E (conflict_of E full)) d p"
  shows "bytes_kept E full inc known d d'"
  unfolding bytes_kept_def
proof (intro allI impI)
  fix p c t
  assume p: "d p = Some (RegFile c t)"
  have conf: "disk_key E (conflict_of E full) \<notin> own_keys E full"
    using fresh by (auto simp: own_keys_def fresh_names_def)
  show "d' p = Some (RegFile c t) \<or> p = disk_key E full \<and>
      (d' (disk_key E (conflict_of E full)) = Some (RegFile c t) \<or> server_has E c inc known)"
  proof (cases "p = disk_key E full")
    case True
    with p d' [OF conf] show ?thesis by (simp add: rename_node_def)
  next
    case False
    with p fresh have "p \<notin> own_keys E full" "p \<noteq> disk_key E (conflict_of E full)"
      by (auto simp: own_keys_def fresh_names_def)
    with d' p False show ?thesis by (simp add: rename_node_def)
  qed
qed

text \<open>
  After the conflict-copy step whatever is still at \<open>full\<close> may be overwritten; the step moved it to
  the fresh conflict name otherwise.
\<close>

lemma conflict_copy_keeps:
  assumes fresh: "fresh_names E full (e_disk s)" and ok: "rename_code E full (conflict_of E full) = None"
  shows "wp (maybe_save_conflict_copy E full inc known)
     (\<lambda>_ s'. \<forall>d'. (\<forall>p. p \<notin> own_keys E full \<longrightarrow> d' p = e_disk s' p) \<longrightarrow>
        bytes_kept E full inc known (e_disk s) d')
     (\<lambda>_ _. False) s"
proof -
  have "wp (maybe_save_conflict_copy E full inc known)
     (\<lambda>_ s'. e_disk s' = e_disk s \<and>
          (\<forall>c t. e_disk s (disk_key E full) = Some (RegFile c t) \<longrightarrow> server_has E c inc known) \<or>
        e_disk s' = rename_node (disk_key E full) (disk_key E (conflict_of E full)) (e_disk s))
     (\<lambda>_ _. False) s"
    using ok
    by (auto simp: maybe_save_conflict_copy_def save_aside_def known_safe_def server_has_def wp_rules
        exists_on_disk_def node_at_def split: node.splits if_splits)
  then show ?thesis
    by (rule wp_conseq) (auto intro: bytes_kept_overwrite [OF fresh] bytes_kept_aside [OF fresh])
qed

lemma pull_keeps:
  assumes fresh: "fresh_names E full (e_disk s)" and ok: "rename_code E full (conflict_of E full) = None"
    and path: "safe_path E (Val rel) = Some full"
  shows "wp (pull_file E rel full m known base)
     (\<lambda>_ s'. bytes_kept E full (m_checksum m) known (e_disk s) (e_disk s'))
     (\<lambda>_ s'. bytes_kept E full (m_checksum m) known (e_disk s) (e_disk s')) s"
proof -
  let ?K = "\<lambda>s'. \<forall>d'. (\<forall>p. p \<notin> own_keys E full \<longrightarrow> d' p = e_disk s' p) \<longrightarrow>
        bytes_kept E full (m_checksum m) known (e_disk s) d'"
  have rest: "stable (disk_outside (own_keys E full)) (do_all [db_upsert E (queued_row base rel m),
     download_then_advance E rel (m_file_id m) (m_checksum m) (m_size m) (m_seq m)])"
    by (rule stable_do_all) (use path in \<open>auto intro: outside.stable_db outside_download_then_advance\<close>)
  have step: "wp (do_all [db_upsert E (queued_row base rel m),
     download_then_advance E rel (m_file_id m) (m_checksum m) (m_size m) (m_seq m)])
     (\<lambda>_ s'. bytes_kept E full (m_checksum m) known (e_disk s) (e_disk s'))
     (\<lambda>_ s'. bytes_kept E full (m_checksum m) known (e_disk s) (e_disk s')) s1" if "?K s1" for s1
    by (rule wp_conseq [OF stableD [OF rest]]) (use that in \<open>simp_all add: disk_outside_eq\<close>)
  have "wp (maybe_save_conflict_copy E full (m_checksum m) known) (\<lambda>_. ?K) (\<lambda>_ _. False) s"
    using conflict_copy_keeps [OF fresh ok] .
  then show ?thesis
    unfolding pull_file_def wp_do_all_Cons [of "maybe_save_conflict_copy E full (m_checksum m) known"]
    by (rule wp_conseq) (use step in blast)+
qed

section \<open>Handlers and the disk\<close>

lemma disk_stable_wp:
  "stable e_disk m \<Longrightarrow> P (e_disk s) \<Longrightarrow> wp m (\<lambda>_ t. P (e_disk t)) (\<lambda>_ t. P (e_disk t)) s"
  by (rule wp_conseq [OF stableD [of e_disk]]) auto

lemma with_event_path_disk:
  assumes path: "safe_path E (identity_key E raw) = Some full"
    and body: "\<And>s1. e_disk s1 = e_disk s \<Longrightarrow> e_db s1 = e_db s \<Longrightarrow> e_folds s1 = e_folds s \<Longrightarrow>
      wp (body (jsstr (identity_key E raw)) full) (\<lambda>_ t. P (e_disk t)) (\<lambda>_ t. P (e_disk t)) s1"
    and init: "P (e_disk s)"
  shows "wp (with_event_path E raw v body) (\<lambda>_ t. P (e_disk t)) (\<lambda>_ t. P (e_disk t)) s"
proof -
  let ?rel = "jsstr (identity_key E raw)"
  note quiet = disk_stable_wp [of _ P, OF _ init] and upd = whole_disk.stable_cursor(1)
  have inner: "wp (thenm (handler_begin E [?rel]) (finallym (body ?rel full) (handler_end E [?rel])))
      (\<lambda>_ t. P (e_disk t)) (\<lambda>_ t. P (e_disk t)) s"
  proof -
    have "wp (finallym (body ?rel full) (handler_end E [?rel]))
        (\<lambda>_ t. P (e_disk t)) (\<lambda>_ t. P (e_disk t)) s1"
      if "e_disk s1 = e_disk s" "e_db s1 = e_db s" "e_folds s1 = e_folds s" for s1
      unfolding wp_finallym
      by (rule wp_conseq [OF body [OF that]])
        (auto intro: disk_stable_wp whole_disk.stable_brackets)
    then show ?thesis
      unfolding wp_thenm by (simp add: handler_begin_def wp_rules suppress_path_def Let_def)
  qed
  show ?thesis
    unfolding with_event_path_def validate_server_path_def advance_if_given_def Let_def
    using inner quiet [OF upd] init
    by (auto simp: path wp_rules split: verify_result.split)
qed

lemma wp_lookup_exact:
  "\<not> e_folds s \<Longrightarrow> wp (lookup_tracked E p) Q R s =
     (if db_fails E DbRead \<or> \<not> db_open (e_db s) then R DbExn s
      else Q (get_file (e_db s) (canon_rel E p)) s)"
  by (simp add: lookup_tracked_def wp_rules get_file_folded_def Let_def)

text \<open>The last synced checksum of the row of \<open>rel\<close>.\<close>

definition synced_sum :: "engine \<Rightarrow> string \<Rightarrow> string jsv" where
  "synced_sum s rel = row_server_checksum (get_file (e_db s) rel)"

lemma str_or_Undef [simp]: "str_or Undef v = v"
  by (simp add: str_or_def)

lemma pull_bodies_keep:
  assumes body: "body = file_added_body E m Undef rel full \<or> body = file_replaced_body E m rel full"
    and fresh: "fresh_names E full (e_disk s)" and ok: "rename_code E full (conflict_of E full) = None"
    and path: "safe_path E (Val rel) = Some full"
    and exact: "\<not> e_folds s" and canon: "canon_rel E rel = rel"
  shows "wp body (\<lambda>_ t. bytes_kept E full (m_checksum m) (synced_sum s rel) (e_disk s) (e_disk t))
     (\<lambda>_ t. bytes_kept E full (m_checksum m) (synced_sum s rel) (e_disk s) (e_disk t)) s"
proof -
  note pull = pull_keeps [OF fresh ok path]
  have refresh: "wp (refresh_row E x rel m)
     (\<lambda>_ t. bytes_kept E full (m_checksum m) (synced_sum s rel) (e_disk s) (e_disk t))
     (\<lambda>_ t. bytes_kept E full (m_checksum m) (synced_sum s rel) (e_disk s) (e_disk t)) s" for x
    by (rule disk_stable_wp [OF whole_disk.stable_refresh]) simp
  show ?thesis
  proof (cases "get_file (e_db s) rel")
    case None
    then show ?thesis
      using body exact canon pull [of m Undef empty_rec]
      by (auto simp: file_added_body_def file_replaced_body_def wp_bindm wp_lookup_exact
          synced_sum_def row_server_checksum_def)
  next
    case (Some x)
    with get_file_SomeD have "row_key x = rel" by blast
    with Some show ?thesis
      using body exact canon pull [of m "server_checksum x" empty_rec] pull [of m "server_checksum x" x]
        refresh [of x]
      by (auto simp: file_added_body_def file_replaced_body_def wp_bindm wp_lookup_exact
          synced_sum_def row_server_checksum_def)
  qed
qed

lemma wp_on_server_message:
  assumes m: "wp (apply_server_message E msg) (\<lambda>_ t. P (e_disk t)) (\<lambda>_ t. P (e_disk t)) s"
    and init: "P (e_disk s)"
  shows "P (e_disk (final (on_server_message E msg) s))"
proof -
  have "wp (on_server_message E msg) (\<lambda>_ t. P (e_disk t)) (\<lambda>_ t. P (e_disk t)) s"
    unfolding on_server_message_def
    using m init note_unapplied_frame by (auto simp: wp_rules)
  then show ?thesis by (rule wp_final)
qed

section \<open>Properties of the bytes\<close>


text \<open>A local edit of \<open>a\<close> that was never uploaded, and the server's new version of it.\<close>

definition edited_engine :: engine where
  "edited_engine = idle_engine\<lparr>e_disk := [''/d/a'' \<mapsto> RegFile ''mine'' 1],
     e_db := \<lparr>db_open = True, db_files = [empty_rec\<lparr>rel_path := Val ''a'', local_checksum := Val ''old'',
        server_checksum := Val ''old'', fstatus := Val Synced\<rparr>], db_meta = []\<rparr>\<rparr>"

definition serving_env :: env where
  "serving_env = plain_env\<lparr>download_reply := \<lambda>_ _. Response 200 (Some 3) [''new''] BodyEnd\<rparr>"


section \<open>Removed files\<close>

lemma unlink_cases:
  assumes there: "node_at E s full \<noteq> None" and code: "\<And>i. unlink_code E full i \<noteq> Some ''ENOENT''"
    and gone: "Q True (s\<lparr>e_disk := remove_node (disk_key E full) (e_disk s),
                     e_effects := e_effects s @ [EUnlink full]\<rparr>)"
    and failed: "Q False s"
  shows "wp (unlink_with_retry E full) Q R s"
proof -
  have "wp (unlink_loop E full i n) Q R s" for i n
  proof (induction n arbitrary: i)
    case 0
    show ?case by (simp add: wp_rules failed)
  next
    case (Suc n)
    show ?case
    proof (cases "unlink_code E full i")
      case None
      with there gone show ?thesis by (auto simp: wp_rules Let_def)
    next
      case (Some c)
      with there failed Suc [of "Suc i"] code [of i] show ?thesis
        by (simp only: unlink_loop.simps wp_rules Let_def) (simp add: wp_ret)
    qed
  qed
  then show ?thesis by (simp add: unlink_with_retry_def)
qed

text \<open>What a remote delete did to the file at \<open>full\<close>: nothing, or a copy aside, or the unlink of bytes
  that equal the last synced ones.\<close>

definition removal_outcome :: "env \<Rightarrow> path \<Rightarrow> string jsv \<Rightarrow> bool \<Rightarrow> disk \<Rightarrow> disk \<Rightarrow> bool" where
  "removal_outcome E full synced applied d d' \<longleftrightarrow>
     (if \<not> applied then d' = d
      else d' = d \<and> d (disk_key E full) = None
        \<or> d' = rename_node (disk_key E full) (disk_key E (conflict_of E full)) d
        \<or> (d' = remove_node (disk_key E full) d \<and>
           (\<forall>c t. d (disk_key E full) = Some (RegFile c t) \<longrightarrow> Val (digest_of E c) = synced)))"

lemma honor_remote_delete_outcome:
  assumes "\<And>i. unlink_code E full i \<noteq> Some ''ENOENT''"
  shows "wp (honor_remote_delete E full synced)
     (\<lambda>applied t. removal_outcome E full synced applied (e_disk s) (e_disk t) \<and> e_db t = e_db s \<and>
        e_lowest_unapplied t = e_lowest_unapplied s)
     (\<lambda>_ _. False) s"
proof (cases "e_disk s (disk_key E full)")
  case None
  then show ?thesis
    by (simp add: honor_remote_delete_def wp_rules exists_on_disk_def node_at_def removal_outcome_def)
next
  case (Some n)
  show ?thesis
  proof (cases n)
    case Directory
    with Some show ?thesis
      by (simp add: honor_remote_delete_def save_aside_def wp_rules exists_on_disk_def node_at_def
          removal_outcome_def)
  next
    case (RegFile c t)
    have unlink: "Val (digest_of E c) = synced \<Longrightarrow> wp (unlink_with_retry E full)
       (\<lambda>applied t. removal_outcome E full synced applied (e_disk s) (e_disk t) \<and> e_db t = e_db s \<and>
          e_lowest_unapplied t = e_lowest_unapplied s) (\<lambda>_ _. False) s"
      by (rule unlink_cases)
        (use Some RegFile assms in \<open>auto simp: removal_outcome_def node_at_def\<close>)
    with Some RegFile show ?thesis
      by (auto simp: honor_remote_delete_def save_aside_def wp_rules exists_on_disk_def node_at_def
          removal_outcome_def split: option.split)
  qed
qed

lemma removal_bytes:
  assumes "removal_outcome E full synced applied d d'" and "d (disk_key E (conflict_of E full)) = None"
    and "d p = Some (RegFile c t)"
  shows "d' p = Some (RegFile c t) \<or> p = disk_key E full \<and>
     (d' (disk_key E (conflict_of E full)) = Some (RegFile c t) \<or> Val (digest_of E c) = synced)"
  using assms
  by (auto simp: removal_outcome_def rename_node_def remove_node_def split: if_splits)

lemma removed_body_outcome:
  assumes code: "\<And>i. unlink_code E full i \<noteq> Some ''ENOENT''"
    and exact: "\<not> e_folds s" and canon: "canon_rel E rel = rel"
    and conf: "e_disk s (disk_key E (conflict_of E full)) = None"
    and here: "e_disk s (disk_key E full) = Some (RegFile c t)"
      "disk_key E (conflict_of E full) \<noteq> disk_key E full"
    and n: "m_seq m = Val n" "0 < n" "0 \<le> e_lowest_unapplied s"
  shows "wp (file_removed_body E m rel full)
     (\<lambda>_ s'. (e_disk s' (disk_key E full) = Some (RegFile c t) \<longrightarrow> e_disk s' = e_disk s \<and>
          0 < e_lowest_unapplied s' \<and> e_lowest_unapplied s' \<le> n \<and> e_db s' = e_db s))
     (\<lambda>_ s'. e_disk s' (disk_key E full) = Some (RegFile c t) \<longrightarrow> e_disk s' = e_disk s \<and> e_db s' = e_db s \<and>
        0 \<le> e_lowest_unapplied s') s"
proof -
  let ?syn = "row_server_checksum (get_file (e_db s) rel)"
  let ?Q = "\<lambda>s'. (e_disk s' (disk_key E full) = Some (RegFile c t) \<longrightarrow> e_disk s' = e_disk s \<and>
          0 < e_lowest_unapplied s' \<and> e_lowest_unapplied s' \<le> n \<and> e_db s' = e_db s)"
  let ?R = "\<lambda>s'. e_disk s' (disk_key E full) = Some (RegFile c t) \<longrightarrow> e_disk s' = e_disk s \<and>
          e_db s' = e_db s \<and> 0 \<le> e_lowest_unapplied s'"
  have gone: "wp (thenm (db_remove E p) (update_seq E (m_seq m))) (\<lambda>_. ?Q) (\<lambda>_. ?R) s1"
    if "e_disk s1 (disk_key E full) \<noteq> Some (RegFile c t)" for s1 p
    by (rule wp_conseq [OF stableD [of e_disk]])
      (use that in \<open>auto intro!: stable_intros whole_disk.stable_db whole_disk.stable_cursor\<close>)
  have kept: "wp (note_unapplied_seq (m_seq m)) (\<lambda>_. ?Q) (\<lambda>_. ?R) s1"
    if "e_disk s1 = e_disk s" "e_db s1 = e_db s" "e_lowest_unapplied s1 = e_lowest_unapplied s" for s1 :: engine
    using n that by (simp add: wp_rules note_unapplied_def)
  have "wp (honor_remote_delete E full ?syn)
      (\<lambda>applied. wp (if applied then thenm (db_remove E p) (update_seq E (m_seq m))
         else note_unapplied_seq (m_seq m)) (\<lambda>_. ?Q) (\<lambda>_. ?R)) (\<lambda>_. ?R) s" for p
    by (rule wp_conseq [OF honor_remote_delete_outcome [OF code]])
      (use here in \<open>auto simp: removal_outcome_def rename_node_def remove_node_def
        split: if_splits intro!: gone kept\<close>)
  with exact canon n show ?thesis
    by (auto simp: file_removed_body_def wp_bindm wp_lookup_exact wp_if)
qed

lemma removed_body_keeps:
  assumes code: "\<And>i. unlink_code E full i \<noteq> Some ''ENOENT''"
    and exact: "\<not> e_folds s" and canon: "canon_rel E rel = rel"
    and conf: "e_disk s (disk_key E (conflict_of E full)) = None"
  shows "wp (file_removed_body E m rel full)
     (\<lambda>_ t. bytes_kept E full Undef (synced_sum s rel) (e_disk s) (e_disk t))
     (\<lambda>_ t. bytes_kept E full Undef (synced_sum s rel) (e_disk s) (e_disk t)) s"
proof -
  let ?syn = "synced_sum s rel" and ?P = "\<lambda>d. bytes_kept E full Undef (synced_sum s rel) (e_disk s) d"
  have outcome: "?P d'" if "removal_outcome E full ?syn b (e_disk s) d'" for d' b
    using removal_bytes [OF that conf] by (auto simp: bytes_kept_def server_has_def)
  have rest: "wp (if b then thenm (db_remove E q) (update_seq E (m_seq m)) else note_unapplied_seq (m_seq m))
      (\<lambda>_ t. ?P (e_disk t)) (\<lambda>_ t. ?P (e_disk t)) s1" if "?P (e_disk s1)" for s1 b q
    by (rule disk_stable_wp [where P = ?P, OF _ that]) (intro stable_intros whole_disk.stable_bookkeeping)
  have "wp (honor_remote_delete E full ?syn)
      (\<lambda>applied. wp (if applied then thenm (db_remove E q) (update_seq E (m_seq m))
         else note_unapplied_seq (m_seq m)) (\<lambda>_ t. ?P (e_disk t)) (\<lambda>_ t. ?P (e_disk t)))
      (\<lambda>_ t. ?P (e_disk t)) s" for q
    by (rule wp_conseq [OF honor_remote_delete_outcome [OF code]]) (use outcome rest in blast)+
  with exact canon show ?thesis
    by (simp add: file_removed_body_def wp_bindm wp_lookup_exact synced_sum_def)
qed

text \<open>Property C5: a server delete never destroys local work. Every regular file is still in place
  afterwards, except that the file at the event's path may have moved to its conflict name, bytes
  intact, or been unlinked when its content is exactly the last version synced with the server;
  unreadable, diverged and untracked files are never unlinked.\<close>

theorem removed_event_keeps_user_bytes:
  assumes "m_rel m = Val raw" and "safe_path E (Val (canon_rel E raw)) = Some full"
    and "e_disk s (disk_key E (conflict_of E full)) = None"
    and "\<And>i. unlink_code E full i \<noteq> Some ''ENOENT''"
    and "\<not> e_folds s" and "canon_rel E (canon_rel E raw) = canon_rel E raw"
    and "e_disk s p = Some (RegFile c t)"
  shows "e_disk (final (on_server_message E (MsgRemoved m)) s) p = Some (RegFile c t) \<or>
    p = disk_key E full \<and>
     (e_disk (final (on_server_message E (MsgRemoved m)) s) (disk_key E (conflict_of E full))
         = Some (RegFile c t) \<or>
      Val (digest_of E c) = synced_sum s (canon_rel E raw))"
proof -
  let ?P = "bytes_kept E full Undef (synced_sum s (canon_rel E raw)) (e_disk s)"
  have id: "identity_key E (m_rel m) = Val (canon_rel E raw)"
    using assms(1) by (simp add: canon_rel_def)
  have path: "safe_path E (identity_key E (m_rel m)) = Some full" using assms(2) id by simp
  have "wp (with_event_path E (m_rel m) (m_seq m) (file_removed_body E m))
      (\<lambda>_ t. ?P (e_disk t)) (\<lambda>_ t. ?P (e_disk t)) s"
  proof (rule with_event_path_disk [OF path])
    fix s1 :: engine
    assume s1: "e_disk s1 = e_disk s" "e_db s1 = e_db s" "e_folds s1 = e_folds s"
    then have "synced_sum s1 (canon_rel E raw) = synced_sum s (canon_rel E raw)"
      by (simp add: synced_sum_def)
    with removed_body_keeps [OF assms(4), of s1 "canon_rel E raw" m] s1 assms(3,5,6)
    show "wp (file_removed_body E m (jsstr (identity_key E (m_rel m))) full) (\<lambda>_ t. ?P (e_disk t))
        (\<lambda>_ t. ?P (e_disk t)) s1"
      unfolding id by simp
  qed simp
  then have "wp (apply_server_message E (MsgRemoved m)) (\<lambda>_ t. ?P (e_disk t)) (\<lambda>_ t. ?P (e_disk t)) s"
    by (simp add: apply_server_message_def handle_file_removed_def wp_rules)
  from wp_on_server_message [of E "MsgRemoved m" ?P, OF this]
  have "?P (e_disk (final (on_server_message E (MsgRemoved m)) s))" by simp
  with assms(7) show ?thesis by (auto simp: bytes_kept_def server_has_def)
qed

lemma removed_event_keeps_user_bytes_witness:
  "RegFile ''mine'' 1 \<in> (\<lambda>p. the (e_disk (final (on_server_message plain_env
     (MsgRemoved sample_msg)) edited_engine) p)) ` {''/d/a'', ''/d/a.conflict''}"
  using removed_event_keeps_user_bytes [of sample_msg "''a''" plain_env "''/d/a''" edited_engine
      "''/d/a''" "''mine''" 1]
  by (auto simp: sample_msg_def plain_env_def edited_engine_def idle_engine_def
      canon_rel_def ascii_ops_def synced_sum_def row_server_checksum_def
      get_file_def row_key.simps empty_rec_def)

text \<open>A server delete that could not be carried out is not forgotten. When the in-scope file
  is still at its path after the event, nothing on disk and no row changed, and the event's number
  is recorded as un-applied.\<close>

theorem unapplied_removal_noted:
  assumes "\<not> e_stopped s" and "m_rel m = Val raw" and "safe_path E (Val (canon_rel E raw)) = Some full"
    and "canon_rel E raw \<noteq> []" and "verify_extraction E (canon_rel E raw) = VerifyOk"
    and "in_scope E s (canon_rel E raw)"
    and "e_disk s (disk_key E (conflict_of E full)) = None"
    and "disk_key E (conflict_of E full) \<noteq> disk_key E full"
    and "\<And>i. unlink_code E full i \<noteq> Some ''ENOENT''"
    and "\<not> e_folds s" and "canon_rel E (canon_rel E raw) = canon_rel E raw"
    and "m_seq m = Val n" and "0 < n" and "0 \<le> e_lowest_unapplied s"
    and "e_disk s (disk_key E full) = Some (RegFile c t)"
    and "e_disk (final (on_server_message E (MsgRemoved m)) s) (disk_key E full) = Some (RegFile c t)"
  shows "e_disk (final (on_server_message E (MsgRemoved m)) s) = e_disk s \<and>
    get_file (e_db (final (on_server_message E (MsgRemoved m)) s)) = get_file (e_db s) \<and>
    0 < e_lowest_unapplied (final (on_server_message E (MsgRemoved m)) s) \<and>
    e_lowest_unapplied (final (on_server_message E (MsgRemoved m)) s) \<le> n"
proof -
  let ?rel = "canon_rel E raw"
  define P where "P b d fs low \<longleftrightarrow> (d (disk_key E full) = Some (RegFile c t) \<longrightarrow>
      d = e_disk s \<and> fs = db_files (e_db s) \<and> 0 \<le> low \<and> (b \<longrightarrow> 0 < low \<and> low \<le> n))" for b and d :: disk and fs low
  define V where "V b s' \<longleftrightarrow> P b (e_disk s') (db_files (e_db s')) (e_lowest_unapplied s')" for b and s' :: engine
  let ?begun = "s\<lparr>e_catch_up_pending := e_catch_up_pending s + 1,
     e_suppressed := inc_at (supp_key E s ?rel) (e_suppressed s)\<rparr>"
  have id: "identity_key E (m_rel m) = Val ?rel" using assms(2) by (simp add: canon_rel_def)
  have body: "wp (file_removed_body E m ?rel full) (\<lambda>_. V True) (\<lambda>_. V False) ?begun"
    by (rule wp_conseq [OF removed_body_outcome [of E full ?begun ?rel c t m n]])
      (use assms in \<open>auto simp: V_def P_def\<close>)
  have ending: "wp (handler_end E [?rel]) (\<lambda>_. V b) (\<lambda>_. V b) s1" if "V b s1" for s1 b
    using that by (simp add: handler_end_def maybe_finish_catch_up_def wp_rules V_def)
  have "wp (finallym (file_removed_body E m ?rel full) (handler_end E [?rel])) (\<lambda>_. V True) (\<lambda>_. V False) ?begun"
    unfolding wp_finallym
    by (rule wp_conseq [OF body], rule wp_conseq [OF ending [of True]], simp_all add: ending)
      (auto simp: V_def P_def)
  then have "wp (apply_server_message E (MsgRemoved m)) (\<lambda>_. V True) (\<lambda>_. V False) s"
    using assms(1,3-6) by (simp add: apply_server_message_def handle_file_removed_def with_event_path_def
        validate_server_path_def handler_begin_def id wp_rules Let_def supp_key_def del: safe_path.simps)
  then have "wp (on_server_message E (MsgRemoved m)) (\<lambda>_. V True) (\<lambda>_. V True) s"
    unfolding on_server_message_def using assms(1,12-13)
    by (auto simp: wp_rules V_def P_def note_unapplied_def elim!: wp_conseq)
  from wp_final [OF this] have "V True (final (on_server_message E (MsgRemoved m)) s)" .
  with assms(16) show ?thesis by (auto simp: V_def P_def get_file_def fun_eq_iff)
qed

lemma unapplied_removal_noted_witness:
  "e_lowest_unapplied (final (on_server_message (plain_env\<lparr>hash_fails := \<lambda>_. True\<rparr>)
     (MsgRemoved sample_msg)) edited_engine) > 0"
proof -
  let ?E = "plain_env\<lparr>hash_fails := \<lambda>_. True\<rparr>"
  have here: "e_disk (final (on_server_message ?E (MsgRemoved sample_msg)) edited_engine) ''/d/a''
      = Some (RegFile ''mine'' 1)"
    by code_simp
  have scope: "in_scope ?E edited_engine ''a''" by code_simp
  show ?thesis
    using unapplied_removal_noted [of edited_engine sample_msg "''a''" ?E "''/d/a''" 4 "''mine''" 1]
      here scope
    by (simp add: sample_msg_def plain_env_def edited_engine_def idle_engine_def canon_rel_def
        ascii_ops_def)
qed

section \<open>Downloads\<close>

text \<open>The row and the bytes a completed download leaves.\<close>

definition downloaded :: "env \<Rightarrow> string \<Rightarrow> path \<Rightarrow> string jsv \<Rightarrow> engine \<Rightarrow> bool" where
  "downloaded E rel full expected s \<longleftrightarrow> (\<exists>body r.
     e_disk s (disk_key E full) = Some (RegFile body (io_time (download_io E full))) \<and>
     (str_truthy expected \<longrightarrow> Val (digest_of E body) = expected) \<and>
     get_file (e_db s) rel = Some r \<and> fstatus r = Val Synced \<and>
     local_checksum r = str_or expected Null \<and> fsize r = Val (int (length body)))"

lemma http_download_done:
  assumes "disk_key E (temp_name E full) \<noteq> disk_key E full"
  shows "wp (http_download E rel fid full expected n)
     (\<lambda>_ t. \<exists>body. e_disk t (disk_key E full) = Some (RegFile body (io_time (download_io E full))) \<and>
        (str_truthy expected \<longrightarrow> Val (digest_of E body) = expected)) (\<lambda>_ _. True) s"
proof -
  obtain res d where r: "download_file (digest_of E) (client_max_bytes E) (download_io E full)
      (download_reply E fid full) (disk_key E (temp_name E full)) (disk_key E full) expected (Val n)
      (e_disk s) = (res, d)" by fastforce
  show ?thesis
  proof (cases res)
    case (Inl e)
    with r show ?thesis
      by (simp add: http_download_def wp_rules split: dl_error.split)
  next
    case (Inr u)
    with r have "\<exists>body. d (disk_key E full) = Some (RegFile body (io_time (download_io E full))) \<and>
        (str_truthy expected \<longrightarrow> Val (digest_of E body) = expected)"
      by (simp only: download_file_done [OF _ assms])
    with r Inr show ?thesis
      by (simp add: http_download_def wp_rules split: flip.split)
  qed
qed

lemma download_attempt_done:
  assumes "disk_key E (temp_name E full) \<noteq> disk_key E full" and "rel \<noteq> []"
  shows "wp (download_attempt E rel fid expected sz full)
     (\<lambda>ok t. ok \<longrightarrow> downloaded E rel full expected t) (\<lambda>_ _. True) s"
proof -
  have row: "row_key (spread r rel) = rel" for r
    by (simp add: spread_def row_key.simps)
  have "wp (http_download E rel fid full expected (wanted_size sz)) (\<lambda>_ t.
       wp (bindm (reads (\<lambda>s. e_resyncing s \<or> e_stopped s)) (\<lambda>off.
            if off then ret False
            else bindm (stat_of E full) (\<lambda>st. case st of
                None \<Rightarrow> throw (FsExn ''ENOENT'')
              | Some node \<Rightarrow>
                  bindm (db_read E (\<lambda>d. get_file d rel)) (\<lambda>row.
                    thenm (db_upsert E ((spread row rel)\<lparr>local_checksum := expected,
                             local_mtime := Val (node_mtime node), fsize := Val (node_size node),
                             fstatus := Val Synced, needs_bytes := Val 0\<rparr>))
                      (thenm (clear_permanent rel) (ret True))))))
         (\<lambda>ok t. ok \<longrightarrow> downloaded E rel full expected t) (\<lambda>_ _. True) t) (\<lambda>_ _. True) s" for s
    by (rule wp_conseq [OF http_download_done [OF assms(1)]])
      (auto simp: wp_rules stat_of_def node_at_def clear_permanent_def downloaded_def row
        get_file_put_file bind_row_def)
  then show ?thesis
    by (auto simp: download_attempt_def wp_rules Let_def)
qed

text \<open>The engine reports a download as done only when the bytes at the destination have the
  digest the server announced and the row is recorded as synced with that checksum and the size of
  those bytes.\<close>

theorem download_reported_done:
  assumes "safe_path E (Val rel) = Some full" and "rel \<noteq> []"
    and "disk_key E (temp_name E full) \<noteq> disk_key E full"
    and "fst (engine_download E rel fid expected sz s) = Inr True"
  shows "downloaded E rel full expected (final (engine_download E rel fid expected sz) s)"
proof -
  have ending: "wp (download_end E rel) (\<lambda>_ t. ok \<longrightarrow> downloaded E rel full expected t) (\<lambda>_ _. True) s"
    if "ok \<longrightarrow> downloaded E rel full expected s" for ok s
    using that
    by (auto simp: download_end_def maybe_mark_synced_def maybe_finish_catch_up_def release_path_def
        Let_def wp_rules downloaded_def get_file_def)
  have failed: "wp (download_failed E rel e) (\<lambda>ok t. ok \<longrightarrow> downloaded E rel full expected t) (\<lambda>_ _. True) s"
    for e s
    by (auto simp: download_failed_def mark_permanent_def wp_rules split: exn.split bool.split)
  have body: "wp (try_catch (download_attempt E rel fid expected sz full) (download_failed E rel))
      (\<lambda>ok t. ok \<longrightarrow> downloaded E rel full expected t) (\<lambda>_ _. True) s" for s
    unfolding wp_try_catch
    by (rule wp_conseq [OF download_attempt_done [OF assms(3,2)]]) (simp_all add: failed)
  have "wp (download_file_locked E rel fid expected sz full)
      (\<lambda>ok t. ok \<longrightarrow> downloaded E rel full expected t) (\<lambda>_ _. True) s"
    unfolding download_file_locked_def wp_thenm wp_finallym
    by (rule wp_conseq [where Q = "\<lambda>_ _. True" and R = "\<lambda>_ _. True"], simp,
        rule wp_conseq [OF body]) (auto intro: ending wp_conseq [where Q = "\<lambda>_ _. True"])
  then show ?thesis
    using assms(1,4)
    by (auto simp: engine_download_def wp_def final_def split: prod.splits sum.splits)
qed

lemma download_reported_done_witness:
  "downloaded serving_env ''a'' ''/d/a'' (Val ''new'')
     (final (engine_download serving_env ''a'' (Val ''f1'') (Val ''new'') (Val 3)) idle_engine)"
proof (rule download_reported_done)
  show "fst (engine_download serving_env ''a'' (Val ''f1'') (Val ''new'') (Val 3) idle_engine) = Inr True"
    by code_simp
qed (simp_all add: serving_env_def plain_env_def)

end
