(* ===== verification/Event_Renames.thy ===== *)
theory Event_Renames
  imports Event_Safety
begin

text \<open>
  Where the rename handler differs from the other handlers: what it does to a file already at the
  destination, and to the source when the local move fails. Both properties describe a loss the
  handlers of theory \<open>Event_Safety\<close> exclude.
\<close>

section \<open>Renames\<close>

definition rename_msg :: file_msg where
  "rename_msg = \<lparr>m_rel = Val ''b'', m_old_rel = Val ''a'', m_file_id = Val ''f1'',
     m_checksum = Val ''old'', m_size = Val 3, m_seq = Val 4\<rparr>"

definition tracked_row :: file_rec where
  "tracked_row = empty_rec\<lparr>rel_path := Val ''a'', local_checksum := Val ''old'',
     server_checksum := Val ''old'', fstatus := Val Synced\<rparr>"


text \<open>Both paths of a rename are canonical, safe, representable and in scope.\<close>

definition rename_admitted :: "env \<Rightarrow> engine \<Rightarrow> file_msg \<Rightarrow> string \<Rightarrow> string \<Rightarrow> path \<Rightarrow> path \<Rightarrow> bool" where
  "rename_admitted E s m old new old_full new_full \<longleftrightarrow>
     m_old_rel m = Val old \<and> m_rel m = Val new \<and> canon_rel E old = old \<and> canon_rel E new = new \<and>
     safe_path E (Val old) = Some old_full \<and> safe_path E (Val new) = Some new_full \<and>
     old \<noteq> [] \<and> new \<noteq> [] \<and>
     verify_extraction E old = VerifyOk \<and> verify_extraction E new = VerifyOk \<and>
     in_scope E s old \<and> in_scope E s new \<and> \<not> e_stopped s \<and> \<not> e_folds s"

lemma renamed_admitted:
  assumes "rename_admitted E s m old new old_full new_full"
  shows "on_server_message E (MsgRenamed m) s =
     try_catch (rename_in_scope E old new old_full new_full m) (\<lambda>_. note_unapplied_seq (m_seq m)) s"
  using assms
  by (simp add: rename_admitted_def on_server_message_def apply_server_message_def
      handle_file_renamed_def validate_server_path_def canon_rel_def try_catch_def bindm_def reads_def
      ret_def Let_def del: safe_path.simps split: prod.split sum.split)

lemma begin2:
  "wp (handler_begin E [p, q]) (\<lambda>_ t. e_disk t = e_disk s \<and> e_db t = e_db s \<and> e_folds t = e_folds s)
     (\<lambda>_ _. False) s"
  by (simp add: handler_begin_def suppress_path_def Let_def wp_rules)

lemma after_attempt:
  assumes attempt: "\<And>s1. e_disk s1 = e_disk s \<Longrightarrow> e_db s1 = e_db s \<Longrightarrow> e_folds s1 = e_folds s \<Longrightarrow>
      wp (rename_attempt E old new old_full new_full m) (\<lambda>(applied, _) t. applied \<and> e_disk t = d)
        (\<lambda>_ _. False) s1"
    and admitted: "rename_admitted E s m old new old_full new_full"
  shows "e_disk (final (on_server_message E (MsgRenamed m)) s) = d"
proof -
  let ?D = "\<lambda>t :: engine. e_disk t = d"
  have rest: "wp (finallym (rename_attempt E old new old_full new_full m) (handler_end E [old, new]))
      (\<lambda>(applied, _) t. applied \<and> ?D t) (\<lambda>_. ?D) s1"
    if "e_disk s1 = e_disk s" "e_db s1 = e_db s" "e_folds s1 = e_folds s" for s1
    unfolding wp_finallym
    by (rule wp_conseq [OF attempt [OF that]])
      (auto intro!: wp_conseq [OF stableD [OF whole_disk.stable_brackets(2)]])
  have upd: "wp (update_seq E v) (\<lambda>_. ?D) (\<lambda>_. ?D) t" if "?D t" for v t
    by (rule disk_stable_wp [where P = "\<lambda>x. x = d", OF whole_disk.stable_cursor(1) that])
  have "wp (rename_in_scope E old new old_full new_full m) (\<lambda>_. ?D) (\<lambda>_. ?D) s"
    unfolding rename_in_scope_def wp_bindm wp_thenm
    by (rule wp_conseq [OF begin2], rule wp_conseq [OF rest]) (use upd in auto)
  then have "wp (try_catch (rename_in_scope E old new old_full new_full m)
      (\<lambda>_. note_unapplied_seq (m_seq m))) (\<lambda>_. ?D) (\<lambda>_. ?D) s"
    by (simp add: wp_rules)
  from wp_final [OF this] show ?thesis
    using renamed_admitted [OF admitted] by (simp add: final_def)
qed

text \<open>Unlike the other handlers, a server rename makes no conflict copy at its destination.
  When the tracked source is moved, whatever untracked file was at the destination is gone from the
  disk: the destination holds the source's bytes and every other path is as it was.\<close>

theorem rename_overwrites_destination:
  assumes "rename_admitted E s m old new old_full new_full"
    and "e_disk s (disk_key E old_full) = Some n" and "rename_code E old_full new_full = None"
    and "disk_key E old_full \<noteq> disk_key E new_full"
    and "get_file (e_db s) old = Some row" and "server_checksum row = m_checksum m"
    and "db_open (e_db s)" and "\<not> db_fails E DbRead" and "\<not> db_fails E DbRename"
    and "e_disk s (disk_key E new_full) = Some (RegFile mine t)"
  shows "e_disk (final (on_server_message E (MsgRenamed m)) s) =
    (e_disk s)(disk_key E old_full := None, disk_key E new_full := Some n)"
proof (rule after_attempt [OF _ assms(1)])
  fix s1 :: engine
  assume s1: "e_disk s1 = e_disk s" "e_db s1 = e_db s" "e_folds s1 = e_folds s"
  have key: "row_key (renamed_row E r new m) \<noteq> []" for r
    using assms(1) by (simp add: renamed_row_def rename_admitted_def Let_def row_key.simps)
  have adm: "canon_rel E old = old" "\<not> e_folds s1"
    using assms(1) s1 by (simp_all add: rename_admitted_def)
  show "wp (rename_attempt E old new old_full new_full m)
      (\<lambda>(applied, _) t. applied \<and> e_disk t = (e_disk s)(disk_key E old_full := None, disk_key E new_full := Some n))
      (\<lambda>_ _. False) s1"
    using assms(2-9) s1 adm key
    by (simp add: rename_attempt_def move_renamed_def wp_rules wp_lookup_exact exists_on_disk_def
        node_at_def rename_node_def row_server_checksum_def Let_def)
qed

definition rename_state :: engine where
  "rename_state = idle_engine\<lparr>
     e_disk := [''/d/a'' \<mapsto> RegFile ''old'' 1, ''/d/b'' \<mapsto> RegFile ''mine'' 1],
     e_db := \<lparr>db_open = True, db_files = [tracked_row], db_meta = []\<rparr>\<rparr>"

lemma rename_admitted_sample:
  "rename_admitted plain_env rename_state rename_msg ''a'' ''b'' ''/d/a'' ''/d/b''"
proof -
  have "in_scope plain_env rename_state ''a''" "in_scope plain_env rename_state ''b''"
    by (simp_all add: in_scope_def should_sync_def is_included_def is_ignored_def match_any_def
        rename_state_def idle_engine_def)
  then show ?thesis
    by (simp add: rename_admitted_def rename_msg_def plain_env_def canon_rel_def ascii_ops_def
        rename_state_def idle_engine_def)
qed

lemma rename_overwrites_destination_witness:
  "e_disk (final (on_server_message plain_env (MsgRenamed rename_msg)) rename_state) ''/d/b''
     = Some (RegFile ''old'' 1)"
  using rename_overwrites_destination [OF rename_admitted_sample, of "RegFile ''old'' 1" tracked_row
      "''mine''" 1]
  by (simp add: rename_state_def plain_env_def rename_msg_def tracked_row_def idle_engine_def
      get_file_def row_key.simps empty_rec_def)

lemma outside_mono:
  assumes "B \<subseteq> A" and "stable (disk_outside B) m"
  shows "stable (disk_outside A) m"
proof (rule stableI)
  fix v s
  assume v: "disk_outside A s = v"
  have step: "disk_outside B t = disk_outside B s \<Longrightarrow> disk_outside A t = v" for t :: engine
    using assms(1) unfolding v [symmetric] disk_outside_eq by blast
  show "wp m (\<lambda>_ t. disk_outside A t = v) (\<lambda>_ t. disk_outside A t = v) s"
    by (rule wp_conseq [OF stableD [OF assms(2)]]) (rule step, assumption)+
qed

text \<open>The keys an added event at \<open>full\<close> may write.\<close>

definition event_keys :: "env \<Rightarrow> path \<Rightarrow> path set" where
  "event_keys E full = insert (disk_key E (conflict_of E full)) (own_keys E full)"

lemma outside_conflict_copy:
  "stable (disk_outside (event_keys E full)) (maybe_save_conflict_copy E full inc known)"
  by (rule stableI)
    (auto simp: maybe_save_conflict_copy_def save_aside_def wp_rules disk_outside_eq event_keys_def
      own_keys_def rename_node_def split: option.split)

lemma added_outside:
  assumes path: "safe_path E (Val rel) = Some full" and exact: "\<not> e_folds s" "canon_rel E rel = rel"
    and rel: "m_rel m = Val rel" and init: "disk_outside (event_keys E full) s = d"
  shows "wp (handle_file_added E m known) (\<lambda>_ t. disk_outside (event_keys E full) t = d)
     (\<lambda>_ t. disk_outside (event_keys E full) t = d) s"
proof -
  let ?P = "\<lambda>x. x |` (- event_keys E full) = d"
  have id: "identity_key E (m_rel m) = Val rel" using exact(2) rel by (simp add: canon_rel_def)
  have down: "stable (disk_outside (event_keys E full)) (download_then_advance E rel fid c sz v)"
    for fid c sz v
    by (rule outside_mono [OF _ outside_download_then_advance [OF path]]) (auto simp: event_keys_def)
  have pull: "stable (disk_outside (event_keys E full)) (pull_file E rel full m k base)" for k base
    unfolding pull_file_def
    by (rule stable_do_all) (auto intro: outside.stable_db outside_conflict_copy down)
  have "wp (with_event_path E (m_rel m) (m_seq m) (file_added_body E m known))
      (\<lambda>_ t. ?P (e_disk t)) (\<lambda>_ t. ?P (e_disk t)) s"
  proof (rule with_event_path_disk [where full = full])
    fix s1 :: engine
    assume s1: "e_disk s1 = e_disk s" "e_db s1 = e_db s" "e_folds s1 = e_folds s"
    have here: "wp (pull_file E rel full m k base) (\<lambda>_ t. ?P (e_disk t)) (\<lambda>_ t. ?P (e_disk t)) s1" for k base
      using wp_conseq [OF stableD [OF pull]] s1 init by (simp add: disk_outside_def)
    have keep: "wp (refresh_row E x rel m) (\<lambda>_ t. ?P (e_disk t)) (\<lambda>_ t. ?P (e_disk t)) s1" for x
      using wp_conseq [OF stableD [OF whole_disk.stable_refresh]] s1 init by (simp add: disk_outside_def)
    have key: "get_file (e_db s) rel = Some x \<Longrightarrow> row_key x = rel" for x
      using get_file_SomeD by blast
    show "wp (file_added_body E m known (jsstr (identity_key E (m_rel m))) full)
        (\<lambda>_ t. ?P (e_disk t)) (\<lambda>_ t. ?P (e_disk t)) s1"
      using s1 init exact here keep key
      by (auto simp: id file_added_body_def wp_bindm wp_lookup_exact disk_outside_def split: option.split)
  qed (use path id init in \<open>simp_all add: disk_outside_def\<close>)
  then show ?thesis by (simp add: handle_file_added_def disk_outside_def)
qed

lemma fallback_unlinks:
  assumes "safe_path E (Val old) = Some full" and "e_disk s (disk_key E full) = Some n"
    and "unlink_code E full 0 = None"
  shows "wp (handle_file_removed_no_seq E old)
     (\<lambda>_ t. e_disk t = (e_disk s)(disk_key E full := None) \<and> e_folds t = e_folds s)
     (\<lambda>_ t. e_disk t = (e_disk s)(disk_key E full := None)) s"
  using assms
  by (simp add: handle_file_removed_no_seq_def unlink_with_retry_def wp_rules suppress_path_def
      release_path_def lookup_tracked_def exists_on_disk_def node_at_def remove_node_def Let_def
      numeral_eq_Suc del: safe_path.simps)

text \<open>When the local move of a server rename fails, the recovery unlinks the old path
  without comparing its bytes to the last synced version. Whatever was there, an edit that was never
  uploaded included, is gone, and no path outside the new file's own names received it.\<close>

theorem rename_fallback_drops_local_edit:
  assumes "rename_admitted E s m old new old_full new_full"
    and "e_disk s (disk_key E old_full) = Some (RegFile mine t)"
    and "rename_code E old_full new_full = Some code" and "unlink_code E old_full 0 = None"
    and "disk_key E old_full \<notin> event_keys E new_full"
    and "p \<notin> event_keys E new_full" and "db_open (e_db s)" and "\<not> db_fails E DbMeta"
  shows "e_disk (final (on_server_message E (MsgRenamed m)) s) p =
    (if p = disk_key E old_full then None else e_disk s p)"
proof -
  let ?A = "event_keys E new_full" and ?d = "(e_disk s)(disk_key E old_full := None)"
  define D where "D = ?d |` (- ?A)"
  let ?P = "\<lambda>t :: engine. disk_outside ?A t = D"
  have adm: "safe_path E (Val old) = Some old_full" "safe_path E (Val new) = Some new_full"
    "\<not> e_folds s" "canon_rel E new = new"
    using assms(1) by (simp_all add: rename_admitted_def)
  have attempt: "wp (rename_attempt E old new old_full new_full m)
      (\<lambda>(applied, _) t. \<not> applied \<and> t = s1) (\<lambda>_ _. False) s1"
    if "e_disk s1 = e_disk s" for s1 :: engine
    using that assms(2,3)
    by (simp add: rename_attempt_def move_renamed_def wp_rules exists_on_disk_def node_at_def)
  have quiet: "wp (handler_end E [old, new]) (\<lambda>_ t. e_disk t = e_disk s \<and> e_folds t = e_folds s)
      (\<lambda>_ _. False) s1"
    if "e_disk s1 = e_disk s" "e_folds s1 = e_folds s" "e_db s1 = e_db s" for s1 :: engine
    using that assms(7,8)
    by (simp add: handler_end_def maybe_finish_catch_up_def release_path_def Let_def wp_rules)
  have recover: "wp (thenm (handle_file_removed_no_seq E old)
        (handle_file_added E (m\<lparr>m_rel := Val new\<rparr>) k)) (\<lambda>_. ?P) (\<lambda>_. ?P) s1"
    if "e_disk s1 = e_disk s" "e_folds s1 = e_folds s" for s1 :: engine and k
  proof -
    have "wp (handle_file_removed_no_seq E old) (\<lambda>_ t. ?P t \<and> e_folds t = e_folds s) (\<lambda>_. ?P) s1"
      by (rule wp_conseq [OF fallback_unlinks [OF adm(1), of s1 "RegFile mine t"]])
        (use that assms(2,4) in \<open>simp_all add: disk_outside_def D_def\<close>)
    then show ?thesis
      unfolding wp_thenm by (rule wp_conseq) (use adm in \<open>auto intro!: added_outside\<close>)
  qed
  have both: "wp (finallym (rename_attempt E old new old_full new_full m) (handler_end E [old, new]))
      (\<lambda>(applied, _) t. \<not> applied \<and> e_disk t = e_disk s \<and> e_folds t = e_folds s) (\<lambda>_ _. False) s1"
    if "e_disk s1 = e_disk s" "e_folds s1 = e_folds s" "e_db s1 = e_db s" for s1
    unfolding wp_finallym
    by (rule wp_conseq [OF attempt [OF that(1)]]) (auto intro: wp_conseq [OF quiet [OF that]])
  have after: "wp (finallym (rename_attempt E old new old_full new_full m) (handler_end E [old, new]))
      (\<lambda>x. wp (case x of (applied, moved_checksum) \<Rightarrow>
           if applied then update_seq E (m_seq m)
           else thenm (handle_file_removed_no_seq E old)
                  (handle_file_added E (m\<lparr>m_rel := Val new\<rparr>) moved_checksum)) (\<lambda>_. ?P) (\<lambda>_. ?P))
      (\<lambda>_. ?P) s1"
    if "e_disk s1 = e_disk s" "e_folds s1 = e_folds s" "e_db s1 = e_db s" for s1
    by (rule wp_conseq [OF both [OF that]]) (auto intro: recover)
  have "wp (rename_in_scope E old new old_full new_full m) (\<lambda>_. ?P) (\<lambda>_. ?P) s"
    unfolding rename_in_scope_def wp_bindm wp_thenm
    by (rule wp_conseq [OF begin2]) (auto intro: after)
  then have "wp (try_catch (rename_in_scope E old new old_full new_full m)
      (\<lambda>_. note_unapplied_seq (m_seq m))) (\<lambda>_. ?P) (\<lambda>_. ?P) s"
    by (simp add: wp_try_catch wp_note_unapplied_seq disk_outside_def)
  from wp_final [OF this] have "?P (final (on_server_message E (MsgRenamed m)) s)"
    using renamed_admitted [OF assms(1)] by (simp add: final_def)
  from fun_cong [OF this, of p] assms(5,6) show ?thesis
    by (simp add: disk_outside_def D_def split: if_splits)
qed

lemma rename_fallback_drops_local_edit_witness:
  "let E = plain_env\<lparr>rename_code := \<lambda>_ _. Some ''EPERM''\<rparr>;
     s = idle_engine\<lparr>e_disk := [''/d/a'' \<mapsto> RegFile ''mine'' 1],
       e_db := \<lparr>db_open = True, db_files = [tracked_row], db_meta = []\<rparr>\<rparr>
   in e_disk (final (on_server_message E (MsgRenamed rename_msg)) s) ''/d/a'' = None"
proof -
  let ?E = "plain_env\<lparr>rename_code := \<lambda>_ _. Some ''EPERM''\<rparr>"
  let ?s = "idle_engine\<lparr>e_disk := [''/d/a'' \<mapsto> RegFile ''mine'' 1],
     e_db := \<lparr>db_open = True, db_files = [tracked_row], db_meta = []\<rparr>\<rparr>"
  have "in_scope ?E ?s ''a''" "in_scope ?E ?s ''b''"
    by (simp_all add: in_scope_def should_sync_def is_included_def is_ignored_def match_any_def
        idle_engine_def)
  then have "rename_admitted ?E ?s rename_msg ''a'' ''b'' ''/d/a'' ''/d/b''"
    by (simp add: rename_admitted_def rename_msg_def plain_env_def canon_rel_def ascii_ops_def
        idle_engine_def)
  from rename_fallback_drops_local_edit [OF this, of "''mine''" 1 "''EPERM''" "''/d/a''"]
  show ?thesis
    by (simp add: plain_env_def event_keys_def own_keys_def)
qed

end
