(* ===== verification/Event_Cursor.thy ===== *)
theory Event_Cursor
  imports Event_Balance
begin

text \<open>
  The cursor across whole server events. The locale \<open>cursor_contract\<close> states what an invariant of the
  cursor and the watermark must satisfy for one event number; its lemmas say that the handler of
  every event with that number keeps it. The properties instantiate it with the invariant of a
  session that has an un-applied event.
\<close>

section \<open>The contract\<close>

locale cursor_contract =
  fixes P :: "engine \<Rightarrow> bool" and v :: "int jsv"
  assumes only_cursor:
      "P s \<Longrightarrow> e_lowest_unapplied t = e_lowest_unapplied s \<Longrightarrow> last_seq t = last_seq s \<Longrightarrow> P t"
    and advance: "P s \<Longrightarrow> P (final (update_seq E v) s)"
    and noted: "P s \<Longrightarrow> P (note_unapplied v s)"
begin

lemma keeps_frame:
  "(\<And>s. e_lowest_unapplied (f s) = e_lowest_unapplied s) \<Longrightarrow> (\<And>s. e_db (f s) = e_db s) \<Longrightarrow>
     keeps P (modifies f)"
  by (rule keeps_modifies) (erule only_cursor, simp_all add: last_seq_def)

lemma keeps_if_frame:
  assumes "\<And>s. wp m (\<lambda>_ t. e_lowest_unapplied t = e_lowest_unapplied s \<and> last_seq t = last_seq s)
        (\<lambda>_ t. e_lowest_unapplied t = e_lowest_unapplied s \<and> last_seq t = last_seq s) s"
  shows "keeps P m"
proof (rule keepsI)
  fix s
  assume "P s"
  then show "wp m (\<lambda>_. P) (\<lambda>_. P) s"
    by (intro wp_conseq [OF assms]) (auto intro: only_cursor)
qed

lemma keeps_advance: "w = v \<Longrightarrow> keeps P (update_seq E w)"
  by (rule keepsI) (rule final_wp, simp add: advance)

lemma keeps_note: "w = v \<Longrightarrow> keeps P (note_unapplied_seq w)"
  by (rule keepsI) (simp add: wp_rules noted)

lemma keeps_basic:
  "keeps P (emit x)" "keeps P (set_state st)" "keeps P (suppress_path E p)"
  "keeps P (release_path E p)" "keeps P (mark_permanent p)" "keeps P (clear_permanent p)"
  "keeps P (apply_flip fl)"
  unfolding emit_def set_state_def suppress_path_def release_path_def mark_permanent_def
    clear_permanent_def apply_flip_def Let_def
  by (rule keeps_frame; simp split: flip.split)+

lemma keeps_db:
  "keeps P (db_upsert E r)" "keeps P (db_update_status E p fs)" "keeps P (db_remove E p)"
  "keeps P (db_rename E p r)" "keeps P (db_read E f)" "keeps P (lookup_tracked E p)"
  by (rule keeps_if_frame, simp add: lookup_tracked_def wp_rules last_seq_def)+

lemma keeps_state:
  "keeps P maybe_mark_synced" "keeps P (maybe_finish_catch_up E)" "keeps P (handle_heartbeat E w)"
  by (rule keeps_if_frame, auto simp: maybe_mark_synced_def maybe_finish_catch_up_def
      handle_heartbeat_def wp_rules last_seq_def)+

lemma keeps_files:
  "keeps P (hash_file E p)" "keeps P (try_hash E p)" "keeps P (stat_of E p)"
  "keeps P (rename_on_disk E p q)" "keeps P (save_aside E p)"
  by (rule keeps_if_frame, simp add: hash_file_def try_hash_def stat_of_def rename_on_disk_def
      save_aside_def wp_rules last_seq_def split: option.split node.split)+

lemma keeps_unlink: "keeps P (unlink_with_retry E full)"
proof -
  have "keeps P (unlink_loop E full i n)" for i n
  proof (induction n arbitrary: i)
    case (Suc n)
    have "keeps P (modifies (\<lambda>s. s\<lparr>e_disk := f s\<rparr>))" for f
      by (rule keeps_frame) simp_all
    with Suc show ?case
      by (simp only: unlink_loop.simps Let_def) (intro keeps_rules keeps_basic)
  qed (simp add: keeps_ret)
  then show ?thesis by (simp add: unlink_with_retry_def)
qed

lemma keeps_brackets:
  "keeps P (handler_begin E ps)" "keeps P (handler_end E ps)"
  "keeps P (download_begin E p)" "keeps P (download_end E p)"
  unfolding handler_begin_def handler_end_def download_begin_def download_end_def
  by (rule keeps_do_all; auto intro!: keeps_rules keeps_basic keeps_state keeps_frame)+

lemma keeps_http_download: "keeps P (http_download E rel fid full c n)"
  unfolding http_download_def
  by (intro keeps_rules)
    (auto intro!: keeps_rules keeps_basic keeps_frame split: prod.split sum.split dl_error.split)

lemmas keeps_parts = keeps_basic keeps_db keeps_state keeps_files keeps_unlink keeps_brackets
  keeps_http_download keeps_advance keeps_note

lemma keeps_engine_download: "keeps P (engine_download E rel fid c sz)"
  unfolding engine_download_def download_file_locked_def download_attempt_def download_failed_def Let_def
  by (auto intro!: keeps_rules keeps_parts split: exn.split bool.split)

lemma keeps_download_then_advance: "w = v \<Longrightarrow> keeps P (download_then_advance E rel fid c sz w)"
  unfolding download_then_advance_def by (intro keeps_rules keeps_parts keeps_engine_download)

lemma keeps_conflict: "keeps P (maybe_save_conflict_copy E full inc known)"
  unfolding maybe_save_conflict_copy_def by (intro keeps_rules keeps_parts)

lemma keeps_validate: "w = v \<Longrightarrow> keeps P (validate_server_path E rel w)"
  unfolding validate_server_path_def advance_if_given_def
  by (auto intro!: keeps_rules keeps_parts split: verify_result.split)

lemma keeps_with_path:
  "w = v \<Longrightarrow> (\<And>p full. keeps P (body p full)) \<Longrightarrow> keeps P (with_event_path E raw w body)"
  unfolding with_event_path_def Let_def by (intro keeps_rules keeps_parts keeps_validate)

lemma keeps_case_rename: "m_seq m = v \<Longrightarrow> keeps P (reconcile_case_rename E x rel full m)"
  unfolding reconcile_case_rename_def move_to_server_casing_def Let_def
  by (intro keeps_rules keeps_parts keeps_conflict keeps_download_then_advance)

lemma keeps_pull: "m_seq m = v \<Longrightarrow> keeps P (pull_file E rel full m known base)"
  unfolding pull_file_def
  by (rule keeps_do_all) (auto intro: keeps_parts keeps_conflict keeps_download_then_advance)

lemma keeps_refresh: "m_seq m = v \<Longrightarrow> keeps P (refresh_row E x rel m)"
  unfolding refresh_row_def by (auto intro!: keeps_rules keeps_parts)

lemmas keeps_handler_parts = keeps_parts keeps_case_rename keeps_pull keeps_refresh keeps_validate
  keeps_with_path keeps_conflict

lemma keeps_added: "m_seq m = v \<Longrightarrow> keeps P (handle_file_added E m known)"
  unfolding handle_file_added_def file_added_body_def
  by (intro keeps_rules keeps_handler_parts)

lemma keeps_replaced: "m_seq m = v \<Longrightarrow> keeps P (handle_file_replaced E m)"
  unfolding handle_file_replaced_def file_replaced_body_def
  by (intro keeps_rules keeps_handler_parts)

lemma keeps_removed: "m_seq m = v \<Longrightarrow> keeps P (handle_file_removed E m)"
  unfolding handle_file_removed_def file_removed_body_def honor_remote_delete_def
  by (intro keeps_rules keeps_handler_parts)

lemma keeps_removed_no_seq: "keeps P (handle_file_removed_no_seq E rel)"
  unfolding handle_file_removed_no_seq_def
  by (auto intro!: keeps_rules keeps_parts)

lemma keeps_renamed: "m_seq m = v \<Longrightarrow> keeps P (handle_file_renamed E m)"
  unfolding handle_file_renamed_def rename_in_scope_def rename_attempt_def move_renamed_def Let_def
  by (auto intro!: keeps_rules keeps_handler_parts keeps_removed keeps_removed_no_seq keeps_added
      split: option.split prod.split)

lemma keeps_apply: "msg_seq msg = v \<Longrightarrow> keeps P (apply_server_message E msg)"
  unfolding apply_server_message_def
  by (cases msg)
    (auto intro!: keeps_rules keeps_added keeps_replaced keeps_removed keeps_renamed keeps_state)

lemma keeps_message: "msg_seq msg = v \<Longrightarrow> keeps P (on_server_message E msg)"
  unfolding on_server_message_def by (intro keeps_rules keeps_apply keeps_note)

end

section \<open>A session with an un-applied event\<close>

text \<open>The lowest un-applied event is \<open>l\<close> and the cursor is below it.\<close>

definition gap_at :: "int \<Rightarrow> engine \<Rightarrow> bool" where
  "gap_at l s \<longleftrightarrow> 0 < l \<and> e_lowest_unapplied s = l \<and> last_seq s < l"

definition later_than :: "int \<Rightarrow> int jsv \<Rightarrow> bool" where
  "later_than l v \<longleftrightarrow> (\<forall>n. v = Val n \<longrightarrow> l < n)"

lemma gap_at_contract: "later_than l v \<Longrightarrow> cursor_contract (gap_at l) v"
proof
  fix s E
  assume v: "later_than l v" and s: "gap_at l s"
  then have "clear_gap v s = s" by (auto simp: clear_gap_def gap_at_def later_than_def)
  with s update_seq_cases [of E v s] cap_target_below_gap [of s v]
  show "gap_at l (final (update_seq E v) s)" by (auto simp: gap_at_def)
  from v s show "gap_at l (note_unapplied v s)"
    by (auto simp: gap_at_def note_unapplied_def later_than_def last_seq_def split: jsv.split)
qed (auto simp: gap_at_def)

text \<open>The event \<open>l\<close> and everything after it, for every \<open>l\<close>: the locale on the model's own cursor.\<close>

interpretation gap: cursor_contract "gap_at (max 1 l)" "Val (max 1 l + 1 + int n)" for l n
  by (rule gap_at_contract) (auto simp: later_than_def max_def)

lemma watermark_contract: "cursor_contract (\<lambda>s. 0 \<le> e_lowest_unapplied s) v"
proof
  fix s :: engine and E
  assume "0 \<le> e_lowest_unapplied s"
  then show "0 \<le> e_lowest_unapplied (final (update_seq E v) s)" "0 \<le> e_lowest_unapplied (note_unapplied v s)"
    using watermark_nonneg [of s "(E, Applied v)"] watermark_nonneg [of s "(E, Failed v)"] by simp_all
qed auto

interpretation watermark: cursor_contract "\<lambda>s. 0 \<le> e_lowest_unapplied s" v for v
  by (rule watermark_contract)

lemma gap_message:
  assumes "later_than l (msg_seq msg)" and "gap_at l s"
  shows "gap_at l (final (on_server_message E msg) s)"
proof -
  note c = cursor_contract.keeps_message [OF gap_at_contract [OF assms(1)] refl]
  show ?thesis by (rule keeps_final [OF c assms(2)])
qed

lemma own_watermark_contract:
  assumes "0 < n"
  shows "cursor_contract (\<lambda>s. e_lowest_unapplied s \<in> {0, n}) (Val n)"
proof
  fix s :: engine and E
  assume s: "e_lowest_unapplied s \<in> {0, n}"
  then show "e_lowest_unapplied (final (update_seq E (Val n)) s) \<in> {0, n}"
    using update_seq_cases [of E "Val n" s] by (auto simp: clear_gap_def)
  from s show "e_lowest_unapplied (note_unapplied (Val n) s) \<in> {0, n}"
    by (auto simp: note_unapplied_def)
qed auto

definition run_messages :: "(env \<times> server_msg) list \<Rightarrow> engine \<Rightarrow> engine" where
  "run_messages ms s = fold (\<lambda>(E, msg) s. final (on_server_message E msg) s) ms s"

lemma gap_messages:
  "\<forall>(E, msg) \<in> set ms. later_than l (msg_seq msg) \<Longrightarrow> gap_at l s \<Longrightarrow> gap_at l (run_messages ms s)"
proof (induction ms arbitrary: s)
  case Nil
  then show ?case by (simp add: run_messages_def)
next
  case (Cons x ms)
  obtain E msg where x: "x = (E, msg)" by fastforce
  with Cons gap_message [of l msg s E] have "gap_at l (final (on_server_message E msg) s)" by simp
  with Cons x show ?case by (simp add: run_messages_def)
qed

section \<open>Properties\<close>

lemma on_server_message_cases:
  "\<not> e_stopped s \<Longrightarrow> on_server_message E msg s =
     (if threw (apply_server_message E msg) s
      then (Inr (), note_unapplied (msg_seq msg) (final (apply_server_message E msg) s))
      else apply_server_message E msg s)"
  by (auto simp: on_server_message_def bindm_def reads_def try_catch_def threw_def final_def
      note_unapplied_seq_def modifies_def split: prod.split sum.split)

text \<open>The dispatcher never throws. When a handler throws, whatever the cause, the event's
  number is recorded: the watermark ends up positive and at or below it.\<close>

theorem handler_failure_noted:
  "\<not> threw (on_server_message E msg) s \<and>
   (\<not> e_stopped s \<and> 0 \<le> e_lowest_unapplied s \<and> threw (apply_server_message E msg) s \<and>
      msg_seq msg = Val n \<and> 0 < n \<longrightarrow>
    0 < e_lowest_unapplied (final (on_server_message E msg) s) \<and>
    e_lowest_unapplied (final (on_server_message E msg) s) \<le> n)"
proof (cases "e_stopped s")
  case True
  then show ?thesis
    by (simp add: on_server_message_def threw_def bindm_def reads_def ret_def)
next
  case False
  have "0 \<le> e_lowest_unapplied s \<Longrightarrow> 0 \<le> e_lowest_unapplied (final (apply_server_message E msg) s)"
    using keeps_final [OF watermark.keeps_apply [OF refl]] by blast
  with on_server_message_cases [OF False, of E msg] show ?thesis
    by (cases "threw (apply_server_message E msg) s")
      (auto simp: final_def threw_def note_unapplied_def split: sum.splits)
qed

lemma handler_failure_noted_witness:
  "0 < e_lowest_unapplied (final (on_server_message (plain_env\<lparr>db_fails := \<lambda>_. True\<rparr>)
     (MsgAdded sample_msg)) idle_engine)"
proof -
  have "threw (apply_server_message (plain_env\<lparr>db_fails := \<lambda>_. True\<rparr>) (MsgAdded sample_msg)) idle_engine"
    by code_simp
  then show ?thesis
    using handler_failure_noted [of "plain_env\<lparr>db_fails := \<lambda>_. True\<rparr>" "MsgAdded sample_msg" idle_engine 4]
    by (simp add: idle_engine_def sample_msg_def)
qed



end
