(* ===== verification/Mtls_Rotation.thy ===== *)
theory Mtls_Rotation
  imports HS_Prelude
begin

text \<open>
  The mTLS identity on disk (\<open>lib/sync-engine.js\<close>): the CA rotation the server starts
  (\<open>_handleCaRotation\<close>), the recovery at boot (\<open>_recoverMtlsFromBackup\<close>) and the renewal before expiry
  (\<open>_checkCertExpiry\<close>). The identity is three files; no operation replaces them together, so the
  theory looks at every point where the process can stop between two file operations.

  The certificate library is the parameter \<open>pki\<close>: which PEM texts parse, which key belongs to which
  certificate, which CA issued which leaf, and whether the TLS runtime can use the trio.
\<close>

section \<open>Files\<close>

datatype slot = Cert | Key | Ca

text \<open>The live file of a slot, its \<open>.next\<close> stage and its \<open>.prev\<close> backup.\<close>

datatype fname = Live slot | Next slot | Prev slot

type_synonym pems = "slot \<Rightarrow> string"

type_synonym mtls_fs = "fname \<Rightarrow> string option"

record pki =
  cert_parses :: "string \<Rightarrow> bool"
  key_parses :: "string \<Rightarrow> bool"
  key_belongs :: "string \<Rightarrow> string \<Rightarrow> bool"     \<comment> \<open>\<open>checkPrivateKey\<close>: certificate, key\<close>
  issued_by :: "string \<Rightarrow> string \<Rightarrow> bool"       \<comment> \<open>\<open>issuerValidlyIssued\<close>: CA, leaf\<close>
  tls_capable :: "pems \<Rightarrow> bool"                \<comment> \<open>the loopback handshake completes\<close>
  refused :: "fname \<Rightarrow> bool"                   \<comment> \<open>\<open>fdSafeReadSync\<close> throws: symlink, swapped inode\<close>

definition ensure_newline :: "string \<Rightarrow> string" where
  "ensure_newline pem =
     (if pem \<noteq> [] \<and> \<not> ends_with pem [char_of (10 :: nat)] then pem @ [char_of (10 :: nat)] else pem)"

section \<open>File operations\<close>

datatype file_op = Write fname string | Copy fname fname | Rename fname fname

text \<open>A copy or a rename of a missing source throws.\<close>

fun file_step :: "file_op \<Rightarrow> mtls_fs \<Rightarrow> mtls_fs option" where
  "file_step (Write f c) d = Some (d(f \<mapsto> c))"
| "file_step (Copy a b) d = (case d a of None \<Rightarrow> None | Some c \<Rightarrow> Some (d(b \<mapsto> c)))"
| "file_step (Rename a b) d = (case d a of None \<Rightarrow> None | Some c \<Rightarrow> Some (d(a := None, b \<mapsto> c)))"

text \<open>
  A statement list: \<open>faults n\<close> makes the n-th operation throw. The result says whether all of it ran,
  and how many operations took effect is what a crash sees.
\<close>

fun run_ops :: "(nat \<Rightarrow> bool) \<Rightarrow> nat \<Rightarrow> file_op list \<Rightarrow> mtls_fs \<Rightarrow> bool \<times> mtls_fs" where
  "run_ops faults i [] d = (True, d)"
| "run_ops faults i (x # xs) d =
     (if faults i then (False, d)
      else case file_step x d of None \<Rightarrow> (False, d) | Some d' \<Rightarrow> run_ops faults (Suc i) xs d')"

definition no_faults :: "nat \<Rightarrow> bool" where
  "no_faults n = False"

text \<open>The disk when the process stops after \<open>n\<close> operations.\<close>

definition crash_after :: "nat \<Rightarrow> file_op list \<Rightarrow> mtls_fs \<Rightarrow> mtls_fs" where
  "crash_after n xs d = snd (run_ops no_faults 0 (take n xs) d)"

section \<open>Code\<close>

text \<open>\<open>_persistMtlsTrio\<close>; the CA is optional.\<close>

definition persist_ops :: "pems \<Rightarrow> bool \<Rightarrow> file_op list" where
  "persist_ops new with_ca =
     [Write (Live Cert) (ensure_newline (new Cert)), Write (Live Key) (ensure_newline (new Key))] @
     (if with_ca \<and> new Ca \<noteq> [] then [Write (Live Ca) (ensure_newline (new Ca))] else [])"

definition validate_trio :: "pki \<Rightarrow> pems \<Rightarrow> bool" where
  "validate_trio K t \<longleftrightarrow> cert_parses K (t Cert) \<and> cert_parses K (t Ca) \<and> key_parses K (t Key) \<and>
     key_belongs K (t Cert) (t Key) \<and> issued_by K (t Ca) (t Cert)"

definition cleanup_staging :: "mtls_fs \<Rightarrow> mtls_fs" where
  "cleanup_staging d = d(Next Cert := None, Next Key := None, Next Ca := None)"

text \<open>Whether the live certificate and key are judged torn; a missing one is not.\<close>

definition live_torn :: "pki \<Rightarrow> mtls_fs \<Rightarrow> bool" where
  "live_torn K d = (case (d (Live Cert), d (Live Key)) of
     (Some c, Some k) \<Rightarrow> refused K (Live Cert) \<or> refused K (Live Key) \<or> \<not> cert_parses K c \<or>
        \<not> key_parses K k \<or> \<not> key_belongs K c k
   | _ \<Rightarrow> False)"

definition leftover_next :: "mtls_fs \<Rightarrow> bool" where
  "leftover_next d \<longleftrightarrow> d (Next Cert) \<noteq> None \<or> d (Next Key) \<noteq> None \<or> d (Next Ca) \<noteq> None"

definition have_backup :: "mtls_fs \<Rightarrow> bool" where
  "have_backup d \<longleftrightarrow> d (Prev Cert) \<noteq> None \<and> d (Prev Key) \<noteq> None \<and> d (Prev Ca) \<noteq> None"

definition restore_ops :: "file_op list" where
  "restore_ops = [Copy (Prev Cert) (Live Cert), Copy (Prev Key) (Live Key), Copy (Prev Ca) (Live Ca)]"

text \<open>\<open>_recoverMtlsFromBackup\<close>; \<open>faults\<close> makes a copy back throw, which ends the attempt.\<close>

definition recover_from_backup :: "pki \<Rightarrow> (nat \<Rightarrow> bool) \<Rightarrow> mtls_fs \<Rightarrow> mtls_fs" where
  "recover_from_backup K faults d =
     (if \<not> live_torn K d \<and> \<not> leftover_next d then d
      else if \<not> have_backup d then cleanup_staging d
      else case run_ops faults 0 restore_ops d of
          (True, d') \<Rightarrow> cleanup_staging d'
        | (False, d') \<Rightarrow> d')"

text \<open>The three phases of the swap: stage, back up, rename.\<close>

definition stage_ops :: "pems \<Rightarrow> file_op list" where
  "stage_ops new = [Write (Next Cert) (ensure_newline (new Cert)),
     Write (Next Key) (ensure_newline (new Key)), Write (Next Ca) (ensure_newline (new Ca))]"

definition backup_ops :: "file_op list" where
  "backup_ops = [Copy (Live Cert) (Prev Cert), Copy (Live Key) (Prev Key), Copy (Live Ca) (Prev Ca)]"

definition swap_ops :: "file_op list" where
  "swap_ops = [Rename (Next Cert) (Live Cert), Rename (Next Key) (Live Key), Rename (Next Ca) (Live Ca)]"

definition rotation_ops :: "pems \<Rightarrow> file_op list" where
  "rotation_ops new = stage_ops new @ backup_ops @ swap_ops"

record ca_msg =
  new_pems :: pems
  dry_run :: bool

datatype rotation_result = RotIgnored | RotAcked | RotDeclined | RotFailed | RotDone

text \<open>
  \<open>_handleCaRotation\<close>: the result, and the disk. \<open>RotAcked\<close> is the dry run, \<open>RotDone\<close> reloads both
  clients and sends the acknowledgement. \<open>paths\<close> says that all three files are configured.
\<close>

definition handle_ca_rotation ::
    "pki \<Rightarrow> (nat \<Rightarrow> bool) \<Rightarrow> bool \<Rightarrow> ca_msg \<Rightarrow> mtls_fs \<Rightarrow> rotation_result \<times> mtls_fs" where
  "handle_ca_rotation K faults paths msg d =
     (if new_pems msg Ca = [] \<or> new_pems msg Cert = [] \<or> new_pems msg Key = [] then (RotIgnored, d)
      else if dry_run msg then (RotAcked, d)
      else if \<not> paths then (RotIgnored, d)
      else if \<not> validate_trio K (new_pems msg) then (RotDeclined, cleanup_staging d)
      else if \<not> tls_capable K (new_pems msg) then (RotDeclined, cleanup_staging d)
      else case run_ops faults 0 (rotation_ops (new_pems msg)) (cleanup_staging d) of
          (True, d') \<Rightarrow> (RotDone, d')
        | (False, d') \<Rightarrow> (RotFailed, recover_from_backup K no_faults d'))"

fun rotation_acked :: "rotation_result \<Rightarrow> bool" where
  "rotation_acked RotAcked = True"
| "rotation_acked RotDone = True"
| "rotation_acked _ = False"

subsection \<open>Renewal\<close>

definition cert_renewal_threshold_days :: int where
  "cert_renewal_threshold_days = 60"

text \<open>\<open>Math.floor\<close> twice: whole seconds, then whole days.\<close>

definition days_left :: "int \<Rightarrow> int \<Rightarrow> int" where
  "days_left expires now = ((expires - now) div 1000) div 86400"

datatype renewal_result = RenewSkipped | RenewNotDue | RenewRequestFailed | RenewWriteFailed | Renewed

text \<open>
  \<open>_checkCertExpiry\<close>: \<open>expires\<close> is what the certificate file says, if it can be read and parsed, and
  \<open>reply\<close> what the server answers to the renewal request.
\<close>

definition check_cert_expiry ::
    "(nat \<Rightarrow> bool) \<Rightarrow> bool \<Rightarrow> int option \<Rightarrow> int \<Rightarrow> pems option \<Rightarrow> mtls_fs \<Rightarrow> renewal_result \<times> mtls_fs" where
  "check_cert_expiry faults ready expires now reply d =
     (if \<not> ready \<or> d (Live Cert) = None then (RenewSkipped, d)
      else case expires of
          None \<Rightarrow> (RenewSkipped, d)
        | Some t \<Rightarrow>
            if days_left t now > cert_renewal_threshold_days then (RenewNotDue, d)
            else (case reply of
                None \<Rightarrow> (RenewRequestFailed, d)
              | Some new \<Rightarrow>
                  (case run_ops faults 0 (persist_ops new True) d of
                     (True, d') \<Rightarrow> (Renewed, d')
                   | (False, d') \<Rightarrow> (RenewWriteFailed, d'))))"

section \<open>Lemmas\<close>

abbreviation holds :: "pems \<Rightarrow> mtls_fs \<Rightarrow> bool" where
  "holds t d \<equiv> (\<forall>s. d (Live s) = Some (t s))"

definition written :: "pems \<Rightarrow> pems" where
  "written new s = ensure_newline (new s)"

lemma slot_all: "(\<forall>s. P s) \<longleftrightarrow> P Cert \<and> P Key \<and> P Ca"
  by (metis slot.exhaust)

lemma rotation_ops_eq:
  "rotation_ops new =
     [Write (Next Cert) (written new Cert), Write (Next Key) (written new Key),
      Write (Next Ca) (written new Ca),
      Copy (Live Cert) (Prev Cert), Copy (Live Key) (Prev Key), Copy (Live Ca) (Prev Ca),
      Rename (Next Cert) (Live Cert), Rename (Next Key) (Live Key), Rename (Next Ca) (Live Ca)]"
  by (simp add: rotation_ops_def stage_ops_def backup_ops_def swap_ops_def written_def)

text \<open>What a proper prefix of the nine operations leaves, and what any prefix leaves.\<close>

definition unfinished :: "pems \<Rightarrow> mtls_fs \<Rightarrow> bool" where
  "unfinished old d \<longleftrightarrow>
     (holds old d \<and> \<not> have_backup d) \<or>
     (have_backup d \<and> leftover_next d \<and> (\<forall>s. d (Prev s) = Some (old s)) \<and> (\<forall>s. d (Live s) \<noteq> None))"

definition midway :: "pems \<Rightarrow> pems \<Rightarrow> mtls_fs \<Rightarrow> bool" where
  "midway old new d \<longleftrightarrow> unfinished old d \<or>
     (holds (written new) d \<and> \<not> leftover_next d \<and> (\<forall>s. d (Prev s) = Some (old s)))"

lemma less_nine: "n < (9 :: nat) \<Longrightarrow> n \<in> {0, 1, 2, 3, 4, 5, 6, 7, 8}"
  by auto

lemma crash_unfinished:
  assumes "holds old d" and "\<forall>s. d (Prev s) = None" and "\<not> leftover_next d" and "n < 9"
  shows "unfinished old (crash_after n (rotation_ops new) d)"
  using less_nine [OF assms(4)]
  by (elim insertE emptyE)
    (use assms in \<open>simp_all add: crash_after_def rotation_ops_eq no_faults_def unfinished_def
      have_backup_def leftover_next_def slot_all numeral_eq_Suc\<close>)

lemma rotation_complete:
  assumes "holds old d" and "\<not> leftover_next d"
  shows "\<exists>d'. run_ops no_faults 0 (rotation_ops new) d = (True, d') \<and> holds (written new) d' \<and>
    \<not> leftover_next d' \<and> (\<forall>s. d' (Prev s) = Some (old s))"
  using assms
  by (simp add: rotation_ops_eq no_faults_def leftover_next_def slot_all)

lemma crash_points:
  assumes "holds old d" and "\<forall>s. d (Prev s) = None" and "\<not> leftover_next d"
  shows "midway old new (crash_after n (rotation_ops new) d)"
proof (cases "n < 9")
  case True
  with crash_unfinished [OF assms True] show ?thesis by (simp add: midway_def)
next
  case False
  then have "take n (rotation_ops new) = rotation_ops new" by (simp add: rotation_ops_eq)
  with rotation_complete [OF assms(1,3), of new] show ?thesis
    by (auto simp: crash_after_def midway_def)
qed

text \<open>An operation that throws leaves what a crash before it leaves.\<close>

lemma run_ops_shift: "run_ops faults (Suc i) xs d = run_ops (\<lambda>n. faults (Suc n)) i xs d"
  by (induction xs arbitrary: i d) (simp_all split: option.split)

lemma run_ops_failed:
  "run_ops faults 0 xs d = (False, d') \<Longrightarrow> \<exists>n < length xs. d' = crash_after n xs d"
proof (induction xs arbitrary: faults d)
  case (Cons x xs)
  show ?case
  proof (cases "faults 0 \<or> file_step x d = None")
    case True
    with Cons.prems have "d' = crash_after 0 (x # xs) d"
      by (auto simp: crash_after_def split: if_splits)
    then show ?thesis by (intro exI [of _ 0]) simp
  next
    case False
    then obtain d1 where d1: "file_step x d = Some d1" "\<not> faults 0" by auto
    with Cons.prems have "run_ops (\<lambda>n. faults (Suc n)) 0 xs d1 = (False, d')"
      by (simp add: run_ops_shift)
    from Cons.IH [OF this] obtain n where n: "n < length xs" "d' = crash_after n xs d1" by blast
    have "(\<lambda>n. no_faults (Suc n)) = no_faults" by (simp add: fun_eq_iff no_faults_def)
    then have "run_ops no_faults (Suc 0) ys e = run_ops no_faults 0 ys e" for ys e
      by (simp add: run_ops_shift)
    with n d1 show ?thesis
      by (intro exI [of _ "Suc n"]) (simp add: crash_after_def no_faults_def)
  qed
qed simp

lemma run_ops_complete:
  "run_ops faults i xs d = (True, d') \<Longrightarrow> run_ops no_faults i xs d = (True, d')"
  by (induction xs arbitrary: i d) (auto simp: no_faults_def split: if_splits option.splits)

lemma cleanup_frame [simp]:
  "cleanup_staging d (Live s) = d (Live s)" "cleanup_staging d (Prev s) = d (Prev s)"
  "\<not> leftover_next (cleanup_staging d)"
  by (simp_all add: cleanup_staging_def leftover_next_def)

lemma restore_run:
  assumes "\<forall>s. d (Prev s) = Some (old s)"
  shows "run_ops no_faults 0 restore_ops d =
     (True, d(Live Cert \<mapsto> old Cert, Live Key \<mapsto> old Key, Live Ca \<mapsto> old Ca))"
  using assms by (simp add: restore_ops_def no_faults_def)

lemma recover_unfinished:
  assumes "unfinished old d"
  shows "holds old (recover_from_backup K no_faults d)"
  using assms unfolding unfinished_def
proof (elim disjE conjE)
  assume "have_backup d" "leftover_next d" "\<forall>s. d (Prev s) = Some (old s)"
  then show ?thesis by (simp add: recover_from_backup_def restore_run slot_all)
qed (simp add: recover_from_backup_def)

lemma recover_midway:
  assumes "midway old new d"
  shows "holds old (recover_from_backup K no_faults d) \<or>
    holds (written new) (recover_from_backup K no_faults d)"
  using assms unfolding midway_def
proof (elim disjE conjE)
  assume "holds (written new) d" "\<forall>s. d (Prev s) = Some (old s)"
  then show ?thesis by (simp add: recover_from_backup_def restore_run slot_all)
qed (simp add: recover_unfinished)

text \<open>Boot recovery that is itself cut off after \<open>k\<close> copies.\<close>

definition recover_cut :: "pki \<Rightarrow> nat \<Rightarrow> mtls_fs \<Rightarrow> mtls_fs" where
  "recover_cut K k d =
     (if \<not> live_torn K d \<and> \<not> leftover_next d then d
      else if \<not> have_backup d then cleanup_staging d
      else crash_after k restore_ops d)"

definition trio_file :: "pems \<Rightarrow> mtls_fs" where
  "trio_file t f = (case f of Live s \<Rightarrow> Some (t s) | _ \<Rightarrow> None)"

lemma live_torn_cong: "(\<And>s. d (Live s) = d' (Live s)) \<Longrightarrow> live_torn K d = live_torn K d'"
  by (simp add: live_torn_def)

lemma restore_cut_next:
  assumes "\<forall>s. d (Prev s) = Some (old s)"
  shows "crash_after k restore_ops d (Next s) = d (Next s)" "crash_after k restore_ops d (Prev s) = d (Prev s)"
    "(\<And>s. d (Live s) \<noteq> None) \<Longrightarrow> crash_after k restore_ops d (Live s) \<noteq> None"
proof -
  have "k \<in> {0, 1, 2} \<or> take k restore_ops = restore_ops" by (auto simp: restore_ops_def)
  then show "crash_after k restore_ops d (Next s) = d (Next s)"
    "crash_after k restore_ops d (Prev s) = d (Prev s)"
    "(\<And>s. d (Live s) \<noteq> None) \<Longrightarrow> crash_after k restore_ops d (Live s) \<noteq> None"
    using assms by (auto simp: crash_after_def restore_ops_def no_faults_def)
qed

lemma midway_cut:
  assumes m: "midway old new d" and new: "\<not> live_torn K (trio_file (written new))"
  shows "midway old new (recover_cut K k d)"
  using m unfolding midway_def [of old new d] unfinished_def [of old d]
proof (elim disjE conjE)
  assume d: "have_backup d" "leftover_next d" "\<forall>s. d (Prev s) = Some (old s)" "\<forall>s. d (Live s) \<noteq> None"
  note cut = restore_cut_next [OF d(3), of k]
  have "have_backup (crash_after k restore_ops d)" "leftover_next (crash_after k restore_ops d)"
    using d cut(1,2) by (simp_all add: have_backup_def leftover_next_def)
  with d cut show ?thesis by (simp add: midway_def unfinished_def recover_cut_def)
next
  assume d: "holds (written new) d" "\<not> leftover_next d" "\<forall>s. d (Prev s) = Some (old s)"
  have "live_torn K d = live_torn K (trio_file (written new))"
    by (rule live_torn_cong) (simp add: d(1) trio_file_def)
  with new d show ?thesis by (simp add: recover_cut_def midway_def)
qed (simp add: recover_cut_def midway_def unfinished_def have_backup_def)

section \<open>Properties\<close>

text \<open>Property C39: the first rotation of an identity that has no backup yet is all or nothing. Wherever
  the process stops among the nine file operations, and even if the recovery at the next boot is cut
  off as well, the boot that completes finds the whole old trio or the whole new one.\<close>

theorem first_rotation_crash_safe:
  assumes "\<forall>s. d (Live s) = Some (old s)" and "\<forall>s. d (Prev s) = None"
    and "\<not> live_torn K (trio_file (written new))"
  shows "(let booted = recover_from_backup K no_faults
        (recover_cut K k (crash_after n (rotation_ops new) (cleanup_staging d)))
     in (\<forall>s. booted (Live s) = Some (old s)) \<or> (\<forall>s. booted (Live s) = Some (written new s)))"
proof -
  from assms have "midway old new (crash_after n (rotation_ops new) (cleanup_staging d))"
    using crash_points [where old = old and d = "cleanup_staging d" and new = new and n = n] by simp
  from recover_midway [OF midway_cut [OF this assms(3), of k]] show ?thesis by (simp add: Let_def)
qed

text \<open>A toy certificate library: the key and the CA of a certificate carry its name.\<close>

definition sample_pki :: pki where
  "sample_pki = \<lparr>cert_parses = (\<lambda>c. c \<noteq> []), key_parses = (\<lambda>k. k \<noteq> []), key_belongs = (\<lambda>c k. c = k),
     issued_by = (\<lambda>a c. a = c), tls_capable = (\<lambda>_. True), refused = (\<lambda>_. False)\<rparr>"

lemma first_rotation_crash_safe_witness:
  "(let booted = recover_from_backup sample_pki no_faults
        (recover_cut sample_pki 2 (crash_after 7 (rotation_ops (\<lambda>_. ''new''))
           (cleanup_staging (trio_file (\<lambda>_. ''old'')))))
     in (\<forall>s. booted (Live s) = Some ''old'') \<or> (\<forall>s. booted (Live s) = Some (written (\<lambda>_. ''new'') s)))"
  by (rule first_rotation_crash_safe)
    (simp_all add: trio_file_def live_torn_def sample_pki_def written_def ensure_newline_def)


definition sample_rotation :: ca_msg where
  "sample_rotation = \<lparr>new_pems = (\<lambda>_. ''new''), dry_run = False\<rparr>"


text \<open>A rotation whose trio fails validation, or that the TLS runtime cannot use, is
  declined without an acknowledgement, and no live file and no backup changes.\<close>

theorem unusable_rotation_declined:
  assumes "\<not> validate_trio K (new_pems msg) \<or> \<not> tls_capable K (new_pems msg)" and "\<not> dry_run msg"
  shows "\<not> rotation_acked (fst (handle_ca_rotation K faults paths msg d)) \<and>
    snd (handle_ca_rotation K faults paths msg d) (Live s) = d (Live s) \<and>
    snd (handle_ca_rotation K faults paths msg d) (Prev s) = d (Prev s)"
  using assms by (auto simp: handle_ca_rotation_def)

lemma unusable_rotation_declined_witness:
  "\<not> rotation_acked (fst (handle_ca_rotation (sample_pki\<lparr>tls_capable := \<lambda>_. False\<rparr>) no_faults True
     sample_rotation (trio_file (\<lambda>_. ''old''))))"
  using unusable_rotation_declined [of "sample_pki\<lparr>tls_capable := \<lambda>_. False\<rparr>" sample_rotation]
  by (simp add: sample_rotation_def)

text \<open>An identity after one completed rotation: the trio before it is still in the backup.\<close>

definition rotated_once :: "pems \<Rightarrow> pems \<Rightarrow> mtls_fs" where
  "rotated_once older live f = (case f of Live s \<Rightarrow> Some (live s) | Prev s \<Rightarrow> Some (older s) | Next _ \<Rightarrow> None)"

text \<open>A completed rotation leaves its backup behind, and the backup is of the identity before
  it. A second rotation that stops right after its first staged file makes the next boot restore
  that older identity over a good live one; one that stops after the first backup copy makes it
  restore a certificate and a key that do not belong together.\<close>

theorem stale_backup_restored:
  "(\<forall>s. recover_from_backup K no_faults
        (crash_after 1 (rotation_ops new) (rotated_once older live)) (Live s) = Some (older s)) \<and>
   recover_from_backup K no_faults
        (crash_after 4 (rotation_ops new) (rotated_once older live)) (Live Cert) = Some (live Cert) \<and>
   recover_from_backup K no_faults
        (crash_after 4 (rotation_ops new) (rotated_once older live)) (Live Key) = Some (older Key)"
  by (simp add: crash_after_def rotation_ops_eq rotated_once_def recover_from_backup_def
      have_backup_def leftover_next_def restore_ops_def no_faults_def slot_all numeral_eq_Suc)

text \<open>A renewal writes the live files one after the other with no stage and no backup. When
  it stops after the certificate, the new certificate stays beside the old key, and the recovery at
  boot has nothing to restore.\<close>

theorem renewal_crash_torn:
  "let booted = recover_from_backup K no_faults (crash_after 1 (persist_ops new True) (trio_file old))
   in booted (Live Cert) = Some (written new Cert) \<and> booted (Live Key) = Some (old Key) \<and>
      booted (Live Ca) = Some (old Ca)"
  by (simp add: crash_after_def persist_ops_def trio_file_def recover_from_backup_def have_backup_def
      no_faults_def written_def)

lemma days_left_gt: "days_left t now > n \<longleftrightarrow> t - now \<ge> (n + 1) * 86400000"
proof -
  define q r where "q = days_left t now" and "r = (t - now) mod 86400000"
  have "q = (t - now) div 86400000"
    by (simp add: q_def days_left_def zdiv_zmult2_eq [symmetric])
  then have x: "t - now = 86400000 * q + r" "0 \<le> r" "r < 86400000"
    by (simp_all add: r_def)
  show ?thesis
  proof (fold q_def, rule iffI)
    assume "n < q"
    then have "(n + 1) * 86400000 \<le> q * 86400000" by (intro mult_right_mono) simp_all
    with x(1,2) show "(n + 1) * 86400000 \<le> t - now" by simp
  next
    assume "(n + 1) * 86400000 \<le> t - now"
    with x(1,3) have "(n + 1) * 86400000 < (q + 1) * 86400000" by simp
    then show "n < q" by simp
  qed
qed

lemma persist_complete:
  assumes "run_ops faults 0 (persist_ops new b) d = (True, d')"
  shows "d' (Live Cert) = Some (written new Cert) \<and> d' (Live Key) = Some (written new Key)"
  using run_ops_complete [OF assms]
  by (auto simp: persist_ops_def no_faults_def written_def split: if_splits)

text \<open>With a readable certificate, a renewal is requested exactly when less than 61 days are
  left; it is reported done only with the new certificate and key written, and every outcome but a
  failed write leaves the files as they were.\<close>

theorem renewal_when_due:
  assumes "check_cert_expiry faults True (Some t) now reply d = (r, d')" and "d (Live Cert) \<noteq> None"
  shows "(r = RenewNotDue \<longleftrightarrow> t - now \<ge> 61 * 86400000) \<and>
    (r = Renewed \<longrightarrow> (\<exists>new. reply = Some new \<and> d' (Live Cert) = Some (written new Cert) \<and>
       d' (Live Key) = Some (written new Key))) \<and>
    (r \<notin> {Renewed, RenewWriteFailed} \<longrightarrow> d' = d)"
proof (cases "days_left t now > cert_renewal_threshold_days")
  case True
  with assms days_left_gt [of 60 t now] show ?thesis
    by (simp add: check_cert_expiry_def cert_renewal_threshold_days_def)
next
  case False
  then have due: "\<not> t - now \<ge> 61 * 86400000"
    using days_left_gt [of 60 t now] by (simp add: cert_renewal_threshold_days_def)
  show ?thesis
  proof (cases reply)
    case None
    with False due assms show ?thesis by (simp add: check_cert_expiry_def)
  next
    case (Some new)
    obtain b e where run: "run_ops faults 0 (persist_ops new True) d = (b, e)" by fastforce
    show ?thesis
    proof (cases b)
      case True
      with run persist_complete [of faults new True d e] Some False due assms show ?thesis
        by (simp add: check_cert_expiry_def)
    next
      case b: False
      with run Some False due assms show ?thesis by (simp add: check_cert_expiry_def)
    qed
  qed
qed

lemma renewal_when_due_witness:
  "fst (check_cert_expiry no_faults True (Some (100 * 86400000)) 0 None (trio_file (\<lambda>_. ''old''))) = RenewNotDue"
  using renewal_when_due [of no_faults "100 * 86400000" 0 None "trio_file (\<lambda>_. ''old'')"
      "fst (check_cert_expiry no_faults True (Some (100 * 86400000)) 0 None (trio_file (\<lambda>_. ''old'')))"
      "snd (check_cert_expiry no_faults True (Some (100 * 86400000)) 0 None (trio_file (\<lambda>_. ''old'')))"]
  by (simp add: trio_file_def)

end
