(* ===== verification/Engine_Upload.thy ===== *)
theory Engine_Upload
  imports Engine_Views
begin

text \<open>
  The upload of one file (\<open>_uploadFile\<close>) and the pool that runs it. The retry loop and the circuit
  breaker are the framework's; their combined outcome is the environment's reply. The bytes that
  reach the server are an effect of the run, so that what the row claims can be compared with them.
\<close>

section \<open>Code\<close>

definition delete_on_server :: "env \<Rightarrow> string jsv \<Rightarrow> unit eng" where
  "delete_on_server E fid = bindm (reads e_http) (\<lambda>http.
     if \<not> http \<or> \<not> delete_ok E fid then throw (HttpExn False 0) else emit (EServerDelete fid))"

definition upload_begin :: "unit eng" where
  "upload_begin = do_all [
     modifies (\<lambda>s. s\<lparr>e_active_ops := e_active_ops s + 1\<rparr>),
     bindm (reads e_state) (\<lambda>st. whenm (st \<noteq> StCatchingUp) (set_state StUploading))]"

definition upload_end :: "unit eng" where
  "upload_end = do_all [
     modifies (\<lambda>s. s\<lparr>e_active_ops := e_active_ops s - 1\<rparr>),
     maybe_mark_synced]"

text \<open>
  \<open>this._http.uploadFile\<close> under retry and breaker: the stream reads the bytes at \<open>full\<close>; while it runs
  a local writer may change the file and \<open>stop()\<close> or \<open>resync()\<close> may land.
\<close>

definition sent_bytes :: "node option \<Rightarrow> content option" where
  "sent_bytes n = (case n of Some (RegFile c _) \<Rightarrow> Some c | _ \<Rightarrow> None)"

definition http_upload :: "env \<Rightarrow> string \<Rightarrow> path \<Rightarrow> upload_reply eng" where
  "http_upload E rel full = bindm (reads (\<lambda>s. (e_http s, node_at E s full))) (\<lambda>(http, n).
     let reply = (if http \<and> sent_bytes n \<noteq> None then upload_reply_of E full (sent_bytes n) else UploadFailed)
     in thenm
          (do_all [
             (case reply of UploadOk _ _ _ \<Rightarrow> emit (EUpload full (the (sent_bytes n))) | _ \<Rightarrow> ret ()),
             modifies (\<lambda>s. s\<lparr>e_disk := (e_disk s)(disk_key E full := disk_after_upload E full n)\<rparr>),
             apply_flip (upload_flip E rel)])
          (ret reply))"

text \<open>The row written after the server accepted the bytes; \<open>base\<close> is what the spread starts from.\<close>

definition uploaded_row ::
    "file_rec \<Rightarrow> string \<Rightarrow> string jsv \<Rightarrow> string jsv \<Rightarrow> int jsv \<Rightarrow> file_status \<Rightarrow> file_rec" where
  "uploaded_row base rel fid uploaded v st = base\<lparr>rel_path := Val rel, server_file_id := fid,
     local_checksum := uploaded, server_checksum := uploaded,
     server_seq := num_or v (Val 0), fstatus := Val st\<rparr>"

text \<open>The file vanished while it was sent.\<close>

definition upload_of_vanished ::
    "env \<Rightarrow> string \<Rightarrow> string jsv \<Rightarrow> string jsv \<Rightarrow> int jsv \<Rightarrow> unit eng" where
  "upload_of_vanished E rel fid uploaded v =
     try_catch (thenm (delete_on_server E fid) (db_remove E rel))
       (\<lambda>_. bindm (db_read E (\<lambda>d. get_file d rel)) (\<lambda>existing.
          db_upsert E (uploaded_row (spread existing rel) rel fid uploaded v PendingDelete)))"

text \<open>The file changed while it was sent.\<close>

definition row_or_null :: "(file_rec \<Rightarrow> 'a jsv) \<Rightarrow> file_rec option \<Rightarrow> 'a jsv" where
  "row_or_null f r = (case r of None \<Rightarrow> Null | Some x \<Rightarrow> f x)"

definition upload_of_changed ::
    "env \<Rightarrow> string \<Rightarrow> string jsv \<Rightarrow> string jsv \<Rightarrow> int jsv \<Rightarrow> node option \<Rightarrow> unit eng" where
  "upload_of_changed E rel fid uploaded v st =
     bindm (db_read E (\<lambda>d. get_file d rel)) (\<lambda>existing.
       thenm (db_upsert E ((uploaded_row (spread existing rel) rel fid uploaded v PendingUpload)\<lparr>
                local_mtime := (case st of Some n \<Rightarrow> Val (node_mtime n) | None \<Rightarrow> row_or_null local_mtime existing),
                fsize := (case st of Some n \<Rightarrow> Val (node_size n) | None \<Rightarrow> row_or_null fsize existing)\<rparr>))
         (emit ERescan))"

definition upload_accepted ::
    "env \<Rightarrow> string \<Rightarrow> path \<Rightarrow> string jsv \<Rightarrow> string jsv \<Rightarrow> int jsv \<Rightarrow> unit eng" where
  "upload_accepted E rel full fid uploaded v = do_all [
     clear_permanent rel,
     bindm (try_hash E full) (\<lambda>disk_now.
       bindm (stat_of E full) (\<lambda>st.
         if st = None \<and> \<not> str_truthy disk_now \<and> str_truthy fid
         then upload_of_vanished E rel fid uploaded v
         else if st = None \<or> \<not> str_truthy disk_now \<or> disk_now \<noteq> uploaded
         then upload_of_changed E rel fid uploaded v st
         else db_upsert E ((uploaded_row empty_rec rel fid uploaded v Synced)\<lparr>
                local_mtime := Val (node_mtime (the st)), fsize := Val (node_size (the st))\<rparr>)))]"

definition upload_attempt :: "env \<Rightarrow> string \<Rightarrow> path \<Rightarrow> string jsv \<Rightarrow> unit eng" where
  "upload_attempt E rel full uploaded_checksum =
     bindm (http_upload E rel full) (\<lambda>reply. case reply of
         UploadPermanent _ \<Rightarrow> thenm (db_update_status E rel ErrorSt) (mark_permanent rel)
       | UploadFailed \<Rightarrow> throw (HttpExn False 0)
       | UploadCircuitOpen \<Rightarrow> throw CircuitOpen
       | UploadOk fid checksum v \<Rightarrow>
           bindm (reads (\<lambda>s. e_resyncing s \<or> e_stopped s)) (\<lambda>off.
             if off then ret ()
             else upload_accepted E rel full fid (str_or checksum uploaded_checksum) v))"

definition upload_file :: "env \<Rightarrow> string \<Rightarrow> path \<Rightarrow> string jsv \<Rightarrow> unit eng" where
  "upload_file E rel full uploaded_checksum =
     bindm (reads (\<lambda>s. is_suppressed E s rel)) (\<lambda>busy.
       if busy then ret ()
       else thenm upload_begin
         (finallym
           (try_catch (upload_attempt E rel full uploaded_checksum)
              (\<lambda>_. db_update_status E rel ErrorSt))
           upload_end))"

text \<open>
  \<open>this._uploadPool.run\<close>: the pool counts a task as in flight until its promise settles, so the
  count includes the upload whose \<open>finally\<close> block is running.
\<close>

definition pool_run :: "unit eng \<Rightarrow> unit eng" where
  "pool_run task =
     thenm (modifies (\<lambda>s. s\<lparr>e_pool_inflight := e_pool_inflight s + 1\<rparr>))
       (finallym task (modifies (\<lambda>s. s\<lparr>e_pool_inflight := e_pool_inflight s - 1\<rparr>)))"

section \<open>Steps\<close>

lemma wp_delete_on_server [wp_rules]:
  "wp (delete_on_server E fid) Q R = (\<lambda>s. if \<not> e_http s \<or> \<not> delete_ok E fid then R (HttpExn False 0) s
     else Q () (s\<lparr>e_effects := e_effects s @ [EServerDelete fid]\<rparr>))"
  by (simp add: fun_eq_iff delete_on_server_def wp_rules)

lemma wp_http_upload [wp_rules]:
  "wp (http_upload E rel full) Q R = (\<lambda>s.
     let n = node_at E s full;
         reply = (if e_http s \<and> sent_bytes n \<noteq> None then upload_reply_of E full (sent_bytes n) else UploadFailed);
         s1 = (case reply of UploadOk _ _ _ \<Rightarrow>
                 s\<lparr>e_effects := e_effects s @ [EUpload full (the (sent_bytes n))]\<rparr> | _ \<Rightarrow> s);
         s2 = s1\<lparr>e_disk := (e_disk s)(disk_key E full := disk_after_upload E full n)\<rparr>
     in Q reply (case upload_flip E rel of
          NoFlip \<Rightarrow> s2 | FlipStop \<Rightarrow> s2\<lparr>e_stopped := True, e_state := StDisconnected\<rparr>
        | FlipResync \<Rightarrow> s2\<lparr>e_resyncing := True\<rparr>))"
  by (auto simp: fun_eq_iff http_upload_def wp_rules Let_def split: upload_reply.splits flip.splits)

lemmas upload_defs = upload_accepted_def upload_of_vanished_def upload_of_changed_def

text \<open>The parts of an upload that only write the row leave the transfer state alone.\<close>

lemma accepted_keeps_state:
  assumes "\<And>d f x p s. P (s\<lparr>e_db := d\<rparr>) = P s" "\<And>x s. P (s\<lparr>e_effects := x\<rparr>) = P s"
    and "\<And>x s. P (s\<lparr>e_permanent := x\<rparr>) = P s"
  shows "keeps P (upload_accepted E rel full fid uploaded v)"
  by (rule keepsI) (simp add: upload_defs wp_rules assms)

lemma upload_attempt_state:
  assumes "upload_flip E rel = NoFlip"
  shows "keeps (\<lambda>s. e_state s = st \<and> e_pool_inflight s = k) (upload_attempt E rel full c)"
proof (rule keepsI)
  fix s :: engine
  assume s: "e_state s = st \<and> e_pool_inflight s = k"
  have acc: "wp (upload_accepted E rel full fid up v) (\<lambda>_ s. e_state s = st \<and> e_pool_inflight s = k)
      (\<lambda>_ s. e_state s = st \<and> e_pool_inflight s = k) s1"
    if "e_state s1 = st \<and> e_pool_inflight s1 = k" for fid up v and s1 :: engine
    by (rule keepsD [where P = "\<lambda>s. e_state s = st \<and> e_pool_inflight s = k", OF accepted_keeps_state that])
      simp_all
  show "wp (upload_attempt E rel full c) (\<lambda>_ s. e_state s = st \<and> e_pool_inflight s = k)
      (\<lambda>_ s. e_state s = st \<and> e_pool_inflight s = k) s"
    using s assms
    by (auto simp: upload_attempt_def wp_bindm wp_http_upload wp_reads wp_if wp_ret Let_def wp_thenm
        wp_db_update_status wp_mark_permanent wp_throw acc split: upload_reply.split)
qed

section \<open>Properties\<close>

text \<open>An upload that runs through the pool never takes the engine back to SYNCED. The
  \<open>finally\<close> block asks whether the pool is idle while the pool still counts the upload it belongs to,
  so after the last upload of an idle, synced engine the state stays UPLOADING, whatever the upload's
  outcome, and nothing further is scheduled that would change it.\<close>

theorem pooled_upload_leaves_uploading:
  assumes "e_state s \<notin> {StDisconnected, StCatchingUp}" and "\<not> is_suppressed E s rel"
    and "upload_flip E rel = NoFlip"
  shows "e_state (final (pool_run (upload_file E rel full c)) s) = StUploading \<and>
    e_pool_inflight (final (pool_run (upload_file E rel full c)) s) = e_pool_inflight s"
proof -
  let ?P = "\<lambda>k (s :: engine). e_state s = StUploading \<and> e_pool_inflight s = k"
  have body: "wp (try_catch (upload_attempt E rel full c) (\<lambda>_. db_update_status E rel ErrorSt))
      (\<lambda>_. ?P (Suc k)) (\<lambda>_. ?P (Suc k)) s1" if "?P (Suc k) s1" for s1 and k :: nat
    unfolding wp_try_catch
    by (rule wp_conseq [OF keepsD [OF upload_attempt_state [OF assms(3)] that]])
      (simp_all add: wp_db_update_status)
  have entering: "wp upload_begin (\<lambda>_. ?P (Suc k)) (\<lambda>_. ?P (Suc k)) s1"
    if "e_state s1 \<noteq> StCatchingUp" "e_pool_inflight s1 = Suc k" for s1 :: engine and k
    using that by (simp add: upload_begin_def wp_rules)
  have ending: "wp upload_end (\<lambda>_. ?P (Suc k)) (\<lambda>_. ?P (Suc k)) s1" if "?P (Suc k) s1" for s1 and k :: nat
    using that by (simp add: upload_end_def maybe_mark_synced_def wp_rules)
  have run: "wp (thenm upload_begin (finallym (try_catch (upload_attempt E rel full c)
        (\<lambda>_. db_update_status E rel ErrorSt)) upload_end)) (\<lambda>_. ?P (Suc k)) (\<lambda>_. ?P (Suc k)) s1"
    if "e_state s1 \<noteq> StCatchingUp" "e_pool_inflight s1 = Suc k" for s1 :: engine and k
    unfolding wp_thenm wp_finallym
    by (rule wp_conseq [OF entering [OF that]]; (rule wp_conseq [OF body])?) (auto intro: ending)
  have "wp (upload_file E rel full c) (\<lambda>_. ?P (Suc k)) (\<lambda>_. ?P (Suc k)) s1"
    if "e_state s1 \<noteq> StCatchingUp" "e_pool_inflight s1 = Suc k" "\<not> is_suppressed E s1 rel" for s1 k
    unfolding upload_file_def using that run [OF that(1,2)] by (simp add: wp_bindm wp_reads wp_if)
  from this [of "s\<lparr>e_pool_inflight := Suc (e_pool_inflight s)\<rparr>"] assms(1,2)
  have "wp (upload_file E rel full c) (\<lambda>_. ?P (Suc (e_pool_inflight s)))
      (\<lambda>_. ?P (Suc (e_pool_inflight s))) (s\<lparr>e_pool_inflight := Suc (e_pool_inflight s)\<rparr>)"
    by (simp add: is_suppressed_def supp_key_def)
  then have "wp (pool_run (upload_file E rel full c)) (\<lambda>_. ?P (e_pool_inflight s))
      (\<lambda>_. ?P (e_pool_inflight s)) s"
    unfolding pool_run_def wp_thenm wp_finallym wp_modifies by (simp, elim wp_conseq) simp_all
  from wp_final [OF this] show ?thesis .
qed

lemma pooled_upload_leaves_uploading_witness:
  "e_state (final (pool_run (upload_file plain_env ''a'' ''/d/a'' (Val ''x''))) idle_engine) = StUploading"
  using pooled_upload_leaves_uploading [of idle_engine plain_env "''a''" "''/d/a''" "Val ''x''"]
  by (simp add: idle_engine_def plain_env_def is_suppressed_def)

text \<open>The server reports the digest of the bytes it received, or nothing.\<close>

definition honest_uploads :: "env \<Rightarrow> path \<Rightarrow> bool" where
  "honest_uploads E full \<longleftrightarrow> (\<forall>c fid chk v. upload_reply_of E full (Some c) = UploadOk fid chk v \<longrightarrow>
     chk = Val (digest_of E c))"

definition synced_with :: "env \<Rightarrow> string \<Rightarrow> path \<Rightarrow> engine \<Rightarrow> bool" where
  "synced_with E rel full s \<longleftrightarrow> (\<forall>r. get_file (e_db s) rel = Some r \<and> fstatus r = Val Synced \<longrightarrow>
     (\<exists>c t sent. node_at E s full = Some (RegFile c t) \<and> EUpload full sent \<in> set (e_effects s) \<and>
        digest_of E sent = digest_of E c \<and> local_checksum r = Val (digest_of E c) \<and>
        server_checksum r = Val (digest_of E c) \<and> fsize r = Val (int (length c))))"

definition not_synced :: "string \<Rightarrow> engine \<Rightarrow> bool" where
  "not_synced rel s \<longleftrightarrow> (\<forall>r. get_file (e_db s) rel = Some r \<longrightarrow> fstatus r \<noteq> Val Synced)"

lemma not_synced_weaken: "not_synced rel s \<Longrightarrow> synced_with E rel full s"
  by (auto simp: not_synced_def synced_with_def)

lemma row_key_uploaded [simp]: "row_key (uploaded_row b rel f u w st) = rel"
  by (simp add: uploaded_row_def row_key.simps)

lemma vanished_not_synced:
  "not_synced rel s \<Longrightarrow> wp (upload_of_vanished E rel fid u v) (\<lambda>_. not_synced rel) (\<lambda>_. not_synced rel) s"
  by (simp add: upload_of_vanished_def wp_rules not_synced_def get_file_remove_file get_file_put_file)
    (simp add: uploaded_row_def bind_row_def)

lemma changed_not_synced:
  "not_synced rel s \<Longrightarrow> wp (upload_of_changed E rel fid u v st) (\<lambda>_. not_synced rel) (\<lambda>_. not_synced rel) s"
  by (simp add: upload_of_changed_def wp_rules not_synced_def get_file_put_file)
    (simp add: uploaded_row_def bind_row_def)

lemma not_synced_frame [simp]:
  "not_synced rel (s\<lparr>e_permanent := x\<rparr>) = not_synced rel s"
  "not_synced rel (s\<lparr>e_disk := d\<rparr>) = not_synced rel s"
  "not_synced rel (s\<lparr>e_effects := fx\<rparr>) = not_synced rel s"
  "not_synced rel (s\<lparr>e_active_ops := n\<rparr>) = not_synced rel s"
  "not_synced rel (s\<lparr>e_state := st\<rparr>) = not_synced rel s"
  "not_synced rel (s\<lparr>e_stopped := b\<rparr>) = not_synced rel s"
  "not_synced rel (s\<lparr>e_resyncing := b\<rparr>) = not_synced rel s"
  by (simp_all add: not_synced_def)

lemma not_synced_status: "not_synced rel s \<Longrightarrow>
    wp (db_update_status E rel ErrorSt) (\<lambda>_. not_synced rel) (\<lambda>_. not_synced rel) s"
  by (auto simp: wp_rules not_synced_def get_file_update_status)

lemma synced_if_not:
  "wp m (\<lambda>_. not_synced rel) (\<lambda>_. not_synced rel) s \<Longrightarrow> wp m (\<lambda>_. synced_with E rel full) (\<lambda>_. not_synced rel) s"
  by (erule wp_conseq) (simp_all add: not_synced_weaken)

lemma synced_row:
  assumes "EUpload full c \<in> set (e_effects s)"
    and "node_at E s full = Some (RegFile c' t)" "digest_of E c' = digest_of E c" "digest_of E c' \<noteq> []"
  shows "synced_with E rel full (s\<lparr>e_permanent := x, e_db := put_file ((uploaded_row empty_rec rel fid
      (Val (digest_of E c)) v Synced)\<lparr>local_mtime := m, fsize := Val (int (length c'))\<rparr>) (e_db s)\<rparr>)"
  using assms
  by (auto simp: synced_with_def get_file_put_file node_at_def)
    (auto simp: uploaded_row_def bind_row_def str_or_def)

lemma accepted_synced:
  assumes "not_synced rel s" and "EUpload full c \<in> set (e_effects s)" and "uploaded = Val (digest_of E c)"
  shows "wp (upload_accepted E rel full fid uploaded v) (\<lambda>_. synced_with E rel full)
     (\<lambda>_. not_synced rel) s"
proof -
  let ?s = "s\<lparr>e_permanent := e_permanent s - {rel}\<rparr>"
  have store: "wp (db_upsert E ((uploaded_row empty_rec rel fid uploaded v Synced)\<lparr>
        local_mtime := m, fsize := Val (int (length c'))\<rparr>)) (\<lambda>_. synced_with E rel full) (\<lambda>_. not_synced rel) ?s"
    if "node_at E s full = Some (RegFile c' t)" "Val (digest_of E c') = uploaded" "digest_of E c' \<noteq> []" for m c' t
    using synced_row [OF assms(2) that(1)] that(2,3) assms(1,3) by (simp add: wp_db_upsert row_key.simps)
  have other: "wp (upload_of_vanished E rel fid uploaded v) (\<lambda>_. synced_with E rel full) (\<lambda>_. not_synced rel) ?s"
    "wp (upload_of_changed E rel fid uploaded v st) (\<lambda>_. synced_with E rel full) (\<lambda>_. not_synced rel) ?s" for st
    using assms(1) by (auto intro!: synced_if_not vanished_not_synced changed_not_synced)
  show ?thesis
  proof (cases "node_at E s full")
    case None
    with other show ?thesis
      by (simp add: upload_accepted_def wp_bindm wp_do_all_Cons wp_do_all_Nil wp_clear_permanent wp_try_hash
          wp_stat_of wp_if wp_thenm node_at_def)
  next
    case (Some n)
    then show ?thesis
    proof (cases n)
      case Directory
      with Some other show ?thesis
        by (simp add: upload_accepted_def wp_bindm wp_do_all_Cons wp_do_all_Nil wp_clear_permanent wp_try_hash
            wp_stat_of wp_if wp_thenm node_at_def)
    next
      case (RegFile c' t)
      with Some other store show ?thesis
        by (simp add: upload_accepted_def wp_bindm wp_do_all_Cons wp_do_all_Nil wp_clear_permanent wp_try_hash
            wp_stat_of wp_if wp_thenm node_at_def)
    qed
  qed
qed

lemma upload_file_synced:
  assumes "not_synced rel s" and "honest_uploads E full" and "\<And>c. digest_of E c \<noteq> []"
  shows "wp (upload_file E rel full checksum) (\<lambda>_. synced_with E rel full) (\<lambda>_. synced_with E rel full) s"
proof -
  let ?S = "synced_with E rel full" and ?N = "not_synced rel"
  have entering: "wp upload_begin (\<lambda>_. ?N) (\<lambda>_. ?N) s" using assms(1)
    by (simp add: upload_begin_def wp_rules not_synced_def)
  have ending: "wp upload_end (\<lambda>_. ?S) (\<lambda>_. ?S) s1" if "?S s1" for s1
    using that by (simp add: upload_end_def maybe_mark_synced_def wp_rules synced_with_def node_at_def)
  have attempt: "wp (upload_attempt E rel full checksum) (\<lambda>_. ?S) (\<lambda>_. ?N) s1" if n: "?N s1" for s1
  proof -
    define sent where "sent = sent_bytes (node_at E s1 full)"
    have acc: "wp (upload_accepted E rel full fid (str_or chk checksum) v) (\<lambda>_. ?S) (\<lambda>_. ?N) s2"
      if "upload_reply_of E full (Some c) = UploadOk fid chk v" "?N s2" "EUpload full c \<in> set (e_effects s2)"
      for c fid chk v s2
    proof -
      from assms(2) that(1) have "chk = Val (digest_of E c)" by (auto simp: honest_uploads_def)
      with assms(3) have "str_or chk checksum = Val (digest_of E c)" by (simp add: str_or_def)
      with accepted_synced [OF that(2,3)] show ?thesis by simp
    qed
    show ?thesis
    proof (cases "e_http s1 \<and> sent \<noteq> None")
      case False
      with n show ?thesis
        by (auto simp: upload_attempt_def wp_bindm wp_http_upload wp_throw Let_def sent_def split: flip.split)
    next
      case True
      then obtain c where c: "sent = Some c" by blast
      show ?thesis
      proof (cases "upload_reply_of E full (Some c)")
        case (UploadOk fid chk v)
        with True c n acc show ?thesis
          by (auto simp: upload_attempt_def wp_bindm wp_http_upload wp_reads wp_if wp_ret Let_def sent_def
              not_synced_weaken split: flip.split)
      next
        case (UploadPermanent code)
        with True c n show ?thesis
          by (auto simp: upload_attempt_def wp_bindm wp_http_upload wp_thenm wp_mark_permanent Let_def sent_def
              not_synced_weaken split: flip.split intro!: wp_conseq [OF not_synced_status])
      qed (use True c n in \<open>auto simp: upload_attempt_def wp_bindm wp_http_upload wp_throw Let_def
            sent_def split: flip.split\<close>)
    qed
  qed
  have body: "wp (try_catch (upload_attempt E rel full checksum) (\<lambda>_. db_update_status E rel ErrorSt))
      (\<lambda>_. ?S) (\<lambda>_. ?S) s1" if "?N s1" for s1
    unfolding wp_try_catch
    by (rule wp_conseq [OF attempt [OF that]], assumption, rule wp_conseq [OF not_synced_status])
      (simp_all add: not_synced_weaken)
  have "wp (thenm upload_begin (finallym (try_catch (upload_attempt E rel full checksum)
        (\<lambda>_. db_update_status E rel ErrorSt)) upload_end)) (\<lambda>_. ?S) (\<lambda>_. ?S) s"
    unfolding wp_thenm wp_finallym
    by (rule wp_conseq [OF entering]; (rule wp_conseq [OF body])?) (auto intro: ending not_synced_weaken)
  then show ?thesis
    using assms(1) by (simp add: upload_file_def wp_bindm wp_reads wp_if wp_ret not_synced_weaken)
qed



end
