(* ===== verification/Local_Changes.thy ===== *)
theory Local_Changes
  imports Engine_Upload "HOL-Library.AList"
begin

text \<open>
  Changes the watcher reports: \<open>_onLocalChange\<close>, \<open>_handleLocalModify\<close> with the rename detection over
  buffered deletes, \<open>_handleLocalDelete\<close>, the timer that fires a buffered delete, \<open>_executeDelete\<close> and
  \<open>_handleLocalRename\<close> with its fallback. The buffer is the insertion-ordered map the code keeps:
  an update keeps an entry's place. The await of the hash is where a teardown can land.
\<close>

section \<open>Code\<close>

datatype change_kind = ChAdd | ChModify | ChDelete

record local_event =
  ev_kind :: change_kind
  ev_path :: string
  ev_full :: path
  ev_size :: "int jsv"
  ev_mtime :: "int jsv"

datatype delete_outcome = Deleted | Skipped | FailedDelete

definition sync_root_readable :: "env \<Rightarrow> bool" where
  "sync_root_readable E \<longleftrightarrow> sync_folder E = [] \<or> root_readable E"

subsection \<open>Deletes\<close>

definition handle_local_delete :: "env \<Rightarrow> string \<Rightarrow> unit eng" where
  "handle_local_delete E p = (let rel = canon_rel E p in
     if \<not> sync_root_readable E then ret ()
     else bindm (lookup_tracked E rel) (\<lambda>row. case row of
         None \<Rightarrow> db_remove E rel
       | Some x \<Rightarrow>
           if \<not> str_truthy (server_file_id x) then db_remove E (row_key x)
           else modifies (\<lambda>s. s\<lparr>e_pending_deletes := AList.update rel
                  \<lparr>pd_checksum = str_or (local_checksum x) (server_checksum x), pd_size = fsize x,
                   pd_file_id = server_file_id x, pd_existing = x\<rparr> (e_pending_deletes s)\<rparr>)))"

definition reappeared :: "env \<Rightarrow> engine \<Rightarrow> string \<Rightarrow> bool" where
  "reappeared E s rel = (case safe_local_path E rel of None \<Rightarrow> False | Some p \<Rightarrow> exists_on_disk E s p)"

definition delete_key :: "file_rec \<Rightarrow> string \<Rightarrow> string" where
  "delete_key row rel = jsstr (str_or (rel_path row) (Val rel))"

definition confirmed_delete :: "env \<Rightarrow> string jsv \<Rightarrow> string \<Rightarrow> delete_outcome eng" where
  "confirmed_delete E fid del_key =
     try_catch
       (thenm (delete_on_server E fid) (thenm (db_remove E del_key) (ret Deleted)))
       (\<lambda>_. thenm (db_update_status E del_key PendingDelete) (ret FailedDelete))"

definition execute_delete_locked ::
    "env \<Rightarrow> string \<Rightarrow> file_rec \<Rightarrow> bool \<Rightarrow> delete_outcome eng" where
  "execute_delete_locked E rel snapshot rename_fallback = bindm (reads id) (\<lambda>s.
     if e_state s = StDisconnected \<or> e_resyncing s \<or> \<not> e_http s then ret Skipped
     else if is_suppressed E s rel then ret Skipped
     else if \<not> sync_root_readable E then ret Skipped
     else bindm (lookup_tracked E rel) (\<lambda>row.
       let target = (case row of Some x \<Rightarrow> x | None \<Rightarrow> snapshot) in
       if \<not> str_truthy (server_file_id target) then ret Skipped
       else if \<not> rename_fallback \<and> reappeared E s rel then ret Skipped
       else if \<not> str_truthy (local_checksum target) then ret Skipped
       else confirmed_delete E (server_file_id target) (delete_key target rel)))"

definition execute_delete :: "env \<Rightarrow> string \<Rightarrow> file_rec \<Rightarrow> bool \<Rightarrow> delete_outcome eng" where
  "execute_delete E rel snapshot rename_fallback = bindm (reads (\<lambda>s. is_suppressed E s rel)) (\<lambda>busy.
     if busy then ret Skipped else execute_delete_locked E rel snapshot rename_fallback)"

definition drop_pending :: "string \<Rightarrow> unit eng" where
  "drop_pending rel = modifies (\<lambda>s. s\<lparr>e_pending_deletes := AList.delete rel (e_pending_deletes s)\<rparr>)"

text \<open>The timer of a buffered delete. A rejection of the delete is only logged by the process.\<close>

definition fire_pending_delete :: "env \<Rightarrow> string \<Rightarrow> unit eng" where
  "fire_pending_delete E rel = bindm (reads (\<lambda>s. map_of (e_pending_deletes s) rel)) (\<lambda>p. case p of
       None \<Rightarrow> ret ()
     | Some pd \<Rightarrow> thenm (drop_pending rel)
         (try_catch (thenm (execute_delete E rel (pd_existing pd) False) (ret ())) (\<lambda>_. ret ())))"

subsection \<open>Renames\<close>

text \<open>The buffered deletes a new file can be the other half of.\<close>

definition rename_matches ::
    "string \<Rightarrow> string \<Rightarrow> int jsv \<Rightarrow> (string \<times> pending_delete) list \<Rightarrow> (string \<times> pending_delete) list" where
  "rename_matches rel chk sz pds = filter (\<lambda>(old, pd).
     pd_checksum pd = Val chk \<and> pd_size pd = sz \<and>
     (basename old = basename rel \<or> dirname old = dirname rel)) pds"

definition content_on_server :: "pending_delete \<Rightarrow> string \<Rightarrow> bool" where
  "content_on_server pd chk \<longleftrightarrow>
     str_truthy (server_checksum (pd_existing pd)) \<and> server_checksum (pd_existing pd) = Val chk"

definition moved_row ::
    "string \<Rightarrow> pending_delete \<Rightarrow> string \<Rightarrow> int jsv \<Rightarrow> int jsv \<Rightarrow> int jsv \<Rightarrow> file_rec" where
  "moved_row rel pd chk sz mtime v = empty_rec\<lparr>rel_path := Val rel, server_file_id := pd_file_id pd,
     local_checksum := Val chk,
     server_checksum := (if content_on_server pd chk then Val chk
                         else str_or (server_checksum (pd_existing pd)) Null),
     local_mtime := mtime, fsize := sz, server_seq := num_or v (Val 0),
     fstatus := Val (if content_on_server pd chk then Synced else PendingUpload)\<rparr>"

definition unsent_row :: "string \<Rightarrow> string \<Rightarrow> int jsv \<Rightarrow> int jsv \<Rightarrow> file_rec" where
  "unsent_row rel chk sz mtime = empty_rec\<lparr>rel_path := Val rel, server_file_id := Null,
     local_checksum := Val chk, server_checksum := Null, local_mtime := mtime, fsize := sz,
     server_seq := Val 0, fstatus := Val PendingUpload\<rparr>"

text \<open>\<open>this._http.renameFile\<close>; the reply is the event number.\<close>

definition rename_on_server :: "env \<Rightarrow> string \<Rightarrow> string \<Rightarrow> int jsv eng" where
  "rename_on_server E old new = bindm (reads e_http) (\<lambda>http.
     case (if http then rename_reply E old new else None) of
       None \<Rightarrow> throw (HttpExn False 0)
     | Some v \<Rightarrow> thenm (emit (EServerRename old new)) (ret v))"

definition going_down :: "engine \<Rightarrow> bool" where
  "going_down s \<longleftrightarrow> e_stopped s \<or> e_state s = StDisconnected \<or> e_resyncing s \<or> \<not> e_http s"

text \<open>
  The \<open>catch\<close> block: delete at the old path, then \<open>again\<close>, the locked upload body, at the new one.
\<close>

definition rename_fallback ::
    "(path \<Rightarrow> unit eng) \<Rightarrow> env \<Rightarrow> string \<Rightarrow> string \<Rightarrow> pending_delete \<Rightarrow> string \<Rightarrow> int jsv \<Rightarrow> int jsv \<Rightarrow> unit eng" where
  "rename_fallback again E old new pd chk sz mtime = bindm (reads id) (\<lambda>s.
     if going_down s then db_update_status E old ErrorSt
     else bindm (if supp_key E s old = supp_key E s new
                 then execute_delete_locked E old (pd_existing pd) True
                 else execute_delete E old (pd_existing pd) True) (\<lambda>outcome.
       case safe_local_path E new of
         None \<Rightarrow> ret ()
       | Some full \<Rightarrow>
           if outcome = FailedDelete then db_upsert E (unsent_row new chk sz mtime) else again full))"

definition handle_local_rename ::
    "(path \<Rightarrow> unit eng) \<Rightarrow> env \<Rightarrow> string \<Rightarrow> string \<Rightarrow> pending_delete \<Rightarrow> string \<Rightarrow> int jsv \<Rightarrow> int jsv \<Rightarrow> unit eng" where
  "handle_local_rename again E old new pd chk sz mtime = thenm upload_begin
     (finallym
       (try_catch
         (bindm (rename_on_server E old new) (\<lambda>v.
            db_rename E (delete_key (pd_existing pd) old) (moved_row new pd chk sz mtime v)))
         (\<lambda>_. rename_fallback again E old new pd chk sz mtime))
       upload_end)"

subsection \<open>Additions and modifications\<close>

definition hash_changed :: "env \<Rightarrow> string \<Rightarrow> path \<Rightarrow> string option eng" where
  "hash_changed E rel full = bindm
     (try_catch (bindm (hash_file E full) (\<lambda>h. ret (Some h))) (\<lambda>_. ret None))
     (\<lambda>h. thenm (apply_flip (hash_flip E rel)) (ret h))"

definition event_size :: "int jsv \<Rightarrow> node option \<Rightarrow> int jsv" where
  "event_size sz st = (case sz of
       Val n \<Rightarrow> Val n
     | _ \<Rightarrow> (case st of None \<Rightarrow> sz | Some n \<Rightarrow> Val (node_size n)))"

definition changed_row ::
    "file_rec option \<Rightarrow> string \<Rightarrow> string \<Rightarrow> int jsv \<Rightarrow> int jsv \<Rightarrow> file_rec" where
  "changed_row row rel chk sz mtime = empty_rec\<lparr>rel_path := Val rel,
     server_file_id := str_or (row_or_null server_file_id row) Null,
     local_checksum := Val chk,
     server_checksum := str_or (row_or_null server_checksum row) Null,
     local_mtime := mtime, fsize := sz,
     server_seq := num_or (row_or_null server_seq row) (Val 0), fstatus := Val PendingUpload\<rparr>"

definition queue_upload ::
    "env \<Rightarrow> file_rec option \<Rightarrow> string \<Rightarrow> path \<Rightarrow> string \<Rightarrow> int jsv \<Rightarrow> int jsv \<Rightarrow> unit eng" where
  "queue_upload E row rel full chk sz mtime = thenm (db_upsert E (changed_row row rel chk sz mtime))
     (pool_run (upload_file E rel full (Val chk)))"

text \<open>
  \<open>_handleLocalModifyLocked\<close>. A rename whose server call fails runs the body again for the same file,
  which is \<open>again\<close>.
\<close>

definition rename_or_upload ::
    "(path \<Rightarrow> int jsv \<Rightarrow> unit eng) \<Rightarrow> env \<Rightarrow> file_rec option \<Rightarrow> string \<Rightarrow> path \<Rightarrow> string \<Rightarrow> int jsv \<Rightarrow> int jsv \<Rightarrow> unit eng" where
  "rename_or_upload again E row rel full chk sz mtime =
     bindm (reads (\<lambda>s. rename_matches rel chk sz (e_pending_deletes s))) (\<lambda>ms.
       case (if js_gt sz 0 then ms else []) of
         [m] \<Rightarrow> thenm (drop_pending (fst m))
            (handle_local_rename (\<lambda>full'. again full' sz) E (fst m) rel (snd m) chk sz mtime)
       | _ \<Rightarrow> queue_upload E row rel full chk sz mtime)"

definition modify_hashed ::
    "(path \<Rightarrow> int jsv \<Rightarrow> unit eng) \<Rightarrow> env \<Rightarrow> string \<Rightarrow> path \<Rightarrow> int jsv \<Rightarrow> int jsv \<Rightarrow> string \<Rightarrow> unit eng" where
  "modify_hashed again E rel full ev_sz mtime chk = bindm (reads id) (\<lambda>s.
     if e_stopped s \<or> e_resyncing s \<or> \<not> e_http s then ret ()
     else if is_suppressed E s rel then ret ()
     else thenm (drop_pending rel)
       (bindm (lookup_tracked E rel) (\<lambda>row.
          if map_option local_checksum row = Some (Val chk) then ret ()
          else rename_or_upload again E row rel full chk (event_size ev_sz (node_at E s full)) mtime)))"

definition modify_step ::
    "(path \<Rightarrow> int jsv \<Rightarrow> unit eng) \<Rightarrow> env \<Rightarrow> string \<Rightarrow> path \<Rightarrow> int jsv \<Rightarrow> int jsv \<Rightarrow> unit eng" where
  "modify_step again E rel full ev_sz mtime = bindm (hash_changed E rel full) (\<lambda>hashed. case hashed of
       None \<Rightarrow> ret ()
     | Some chk \<Rightarrow> modify_hashed again E rel full ev_sz mtime chk)"

text \<open>Every round starts with one buffered delete fewer; the first argument bounds the rounds.\<close>

fun modify_locked :: "nat \<Rightarrow> env \<Rightarrow> string \<Rightarrow> path \<Rightarrow> int jsv \<Rightarrow> int jsv \<Rightarrow> unit eng" where
  "modify_locked 0 E rel full sz mtime = throw OutOfFuel"
| "modify_locked (Suc fuel) E rel full sz mtime =
     modify_step (\<lambda>full' sz'. modify_locked fuel E rel full' sz' mtime) E rel full sz mtime"

definition handle_local_modify :: "env \<Rightarrow> string \<Rightarrow> path \<Rightarrow> int jsv \<Rightarrow> int jsv \<Rightarrow> unit eng" where
  "handle_local_modify E p full sz mtime = bindm (reads id) (\<lambda>s.
     if going_down s then ret ()
     else modify_locked (Suc (length (e_pending_deletes s))) E (canon_rel E p) full sz mtime)"

definition on_local_change :: "env \<Rightarrow> local_event \<Rightarrow> unit eng" where
  "on_local_change E ev = try_catch (bindm (reads id) (\<lambda>s.
     if e_state s = StDisconnected \<or> e_state s = StError then ret ()
     else if is_suppressed E s (ev_path ev) then ret ()
     else if ev_kind ev = ChDelete then handle_local_delete E (ev_path ev)
     else handle_local_modify E (ev_path ev) (ev_full ev) (ev_size ev) (ev_mtime ev)))
     (\<lambda>_. ret ())"

end
