(* ===== verification/Local_Termination.thy ===== *)
theory Local_Termination
  imports Local_Safety
begin

text \<open>
  The rename recursion of \<open>_handleLocalModifyLocked\<close> ends: every round takes one delete out of the
  buffer, so one round more than there are buffered deletes is enough, and a larger bound gives the
  same run.
\<close>

section \<open>Runs that do not depend on the bound\<close>

definition settled :: "(engine \<Rightarrow> bool) \<Rightarrow> 'a eng \<Rightarrow> 'a eng \<Rightarrow> bool" where
  "settled P m m' \<longleftrightarrow> (\<forall>s. P s \<longrightarrow> m s = m' s \<and> fst (m s) \<noteq> Inl OutOfFuel \<and> P (snd (m s)))"

named_theorems settled_rules \<open>independence of the bound through the program constructors\<close>

lemma settledI:
  "(\<And>s. P s \<Longrightarrow> m s = m' s \<and> fst (m s) \<noteq> Inl OutOfFuel \<and> P (snd (m s))) \<Longrightarrow> settled P m m'"
  unfolding settled_def by blast

lemma settledD:
  "settled P m m' \<Longrightarrow> P s \<Longrightarrow> m' s = m s \<and> fst (m s) \<noteq> Inl OutOfFuel \<and> P (snd (m s))"
  unfolding settled_def by metis

lemma settled_base [settled_rules]:
  "settled P (ret x) (ret x)" "settled P (reads f) (reads f)"
  "e \<noteq> OutOfFuel \<Longrightarrow> settled P (throw e) (throw e)"
  "(\<And>s. P s \<Longrightarrow> P (k s)) \<Longrightarrow> settled P (modifies k) (modifies k)"
  by (simp_all add: settled_def ret_def reads_def throw_def modifies_def)

lemma settled_bindm [settled_rules]:
  assumes "settled P m m'" and "\<And>x. settled P (g x) (g' x)"
  shows "settled P (bindm m g) (bindm m' g')"
proof (rule settledI)
  fix s assume "P s"
  note m = settledD [OF assms(1) this]
  obtain r t where r: "m s = (r, t)" by fastforce
  with m have "P t" by simp
  with m r settledD [OF assms(2) \<open>P t\<close>] show "bindm m g s = bindm m' g' s \<and>
      fst (bindm m g s) \<noteq> Inl OutOfFuel \<and> P (snd (bindm m g s))"
    by (cases r) (simp_all add: bindm_def)
qed

lemma settled_thenm [settled_rules]:
  "settled P m m' \<Longrightarrow> settled P k k' \<Longrightarrow> settled P (thenm m k) (thenm m' k')"
  by (simp add: thenm_def settled_bindm)

lemma settled_try_catch [settled_rules]:
  assumes "settled P m m'" and "\<And>e. settled P (h e) (h' e)"
  shows "settled P (try_catch m h) (try_catch m' h')"
proof (rule settledI)
  fix s assume "P s"
  note m = settledD [OF assms(1) this]
  obtain r t where r: "m s = (r, t)" by fastforce
  with m have "P t" by simp
  with m r settledD [OF assms(2) \<open>P t\<close>] show "try_catch m h s = try_catch m' h' s \<and>
      fst (try_catch m h s) \<noteq> Inl OutOfFuel \<and> P (snd (try_catch m h s))"
    by (cases r) (simp_all add: try_catch_def)
qed

lemma settled_finallym [settled_rules]:
  assumes "settled P m m'" and "settled P f f'"
  shows "settled P (finallym m f) (finallym m' f')"
proof (rule settledI)
  fix s assume "P s"
  note m = settledD [OF assms(1) this]
  obtain r t where r: "m s = (r, t)" by fastforce
  with m have "P t" by simp
  obtain r' t' where "f t = (r', t')" by fastforce
  with m r settledD [OF assms(2) \<open>P t\<close>] show "finallym m f s = finallym m' f' s \<and>
      fst (finallym m f s) \<noteq> Inl OutOfFuel \<and> P (snd (finallym m f s))"
    by (cases r') (simp_all add: finallym_def)
qed

lemma settled_cases [settled_rules]:
  "(b \<Longrightarrow> settled P m m') \<Longrightarrow> (\<not> b \<Longrightarrow> settled P n n') \<Longrightarrow> settled P (if b then m else n) (if b then m' else n')"
  "settled P m m' \<Longrightarrow> (\<And>x. settled P (f x) (f' x)) \<Longrightarrow>
     settled P (case v of None \<Rightarrow> m | Some x \<Rightarrow> f x) (case v of None \<Rightarrow> m' | Some x \<Rightarrow> f' x)"
  by (auto split: option.split)

text \<open>A program that never raises the bound's exception is settled against itself.\<close>

definition calm :: "'a eng \<Rightarrow> bool" where
  "calm m \<longleftrightarrow> (\<forall>s. fst (m s) \<noteq> Inl OutOfFuel)"

lemma calm_wp: "(\<And>s. wp m (\<lambda>_ _. True) (\<lambda>e _. e \<noteq> OutOfFuel) s) \<Longrightarrow> calm m"
proof -
  assume *: "\<And>s. wp m (\<lambda>_ _. True) (\<lambda>e _. e \<noteq> OutOfFuel) s"
  have "fst (m s) \<noteq> Inl OutOfFuel" for s using * [of s] by (auto simp: wp_def split: prod.splits)
  then show ?thesis by (simp add: calm_def)
qed

lemma settled_calm: "keeps P m \<Longrightarrow> calm m \<Longrightarrow> settled P m m"
  by (auto simp: settled_def calm_def dest: keepsD [THEN wp_final] simp: final_def)

lemma calm_db:
  "calm (db_upsert E r)" "calm (db_update_status E p st)" "calm (db_rename E p r)"
  "calm (lookup_tracked E p)" "calm (hash_changed E p f)" "calm (rename_on_server E old new)"
  "calm (execute_delete E p r fb)" "calm (execute_delete_locked E p r fb)" "calm upload_begin" "calm upload_end"
  by (rule calm_wp, auto simp: wp_rules execute_delete_def execute_delete_locked_def confirmed_delete_def
      upload_begin_def upload_end_def maybe_mark_synced_def Let_def split: option.split flip.split)+

lemma calm_constructors:
  "calm (ret x)" "calm (modifies f)" "calm (reads g)"
  "calm m \<Longrightarrow> (\<And>y. calm (k y)) \<Longrightarrow> calm (bindm m k)"
  by (auto simp: calm_def ret_def modifies_def reads_def bindm_def split: prod.split sum.split)
    (metis fst_conv)+

lemma calm_thenm: "calm m \<Longrightarrow> calm k \<Longrightarrow> calm (thenm m k)"
  by (simp add: thenm_def calm_constructors)

lemma calm_try_catch: "(\<And>e. calm (h e)) \<Longrightarrow> calm (try_catch m h)"
  by (auto simp: calm_def try_catch_def split: prod.split sum.split)

lemma calm_finallym: "calm m \<Longrightarrow> calm f \<Longrightarrow> calm (finallym m f)"
  by (auto simp: calm_def finallym_def split: prod.split sum.split) (metis fst_conv)+

lemma calm_if: "calm m \<Longrightarrow> calm n \<Longrightarrow> calm (if b then m else n)"
  by simp

lemma calm_queue: "calm (queue_upload E row rel full chk sz mtime)"
  unfolding queue_upload_def pool_run_def upload_file_def
  by (intro calm_thenm calm_finallym calm_try_catch calm_if calm_constructors calm_db)

section \<open>The recursion\<close>

abbreviation buffered :: "nat \<Rightarrow> engine \<Rightarrow> bool" where
  "buffered k \<equiv> \<lambda>s. length (e_pending_deletes s) \<le> k"

lemma settled_stable: "stable e_pending_deletes m \<Longrightarrow> calm m \<Longrightarrow> settled (buffered k) m m"
  by (rule settled_calm) (rule keeps_stable)

lemma settled_parts:
  "settled (buffered k) upload_begin upload_begin" "settled (buffered k) upload_end upload_end"
  "settled (buffered k) (rename_on_server E old new) (rename_on_server E old new)"
  "settled (buffered k) (db_rename E old r) (db_rename E old r)"
  "settled (buffered k) (db_upsert E r) (db_upsert E r)"
  "settled (buffered k) (db_update_status E old st) (db_update_status E old st)"
  "settled (buffered k) (execute_delete E old r b) (execute_delete E old r b)"
  "settled (buffered k) (execute_delete_locked E old r b) (execute_delete_locked E old r b)"
  by (rule settled_stable; intro stable_intros pending.stable_bookkeeping calm_db)+

lemma settled_rename:
  assumes "\<And>full'. settled (buffered k) (again full') (again' full')"
  shows "settled (buffered k) (handle_local_rename again E old new pd chk sz mtime)
     (handle_local_rename again' E old new pd chk sz mtime)"
  unfolding handle_local_rename_def rename_fallback_def
  by (intro settled_thenm settled_finallym settled_try_catch settled_bindm settled_cases settled_base
      assms settled_parts)

lemma settled_weaken: "settled (buffered k) m m' \<Longrightarrow> k \<le> k' \<Longrightarrow> buffered k s \<Longrightarrow>
    m s = m' s \<and> fst (m s) \<noteq> Inl OutOfFuel \<and> buffered k' (snd (m s))"
  by (force simp: settled_def)

lemma length_delete_mem: "x \<in> set xs \<Longrightarrow> length (AList.delete (fst x) xs) < length xs"
  by (induction xs) (auto simp: AList.delete_eq less_Suc_eq_le intro: le_trans [OF length_filter_le])

lemma settled_rename_or_upload:
  assumes "\<And>full' z. k > 0 \<Longrightarrow> settled (buffered (k - 1)) (again full' z) (again' full' z)"
  shows "settled (buffered k) (rename_or_upload again E row rel full chk sz mtime)
     (rename_or_upload again' E row rel full chk sz mtime)"
proof -
  let ?route = "\<lambda>again ms. case (if js_gt sz 0 then ms else []) of
       [m] \<Rightarrow> thenm (drop_pending (fst m))
            (handle_local_rename (\<lambda>full'. again full' sz) E (fst m) rel (snd m) chk sz mtime)
     | _ \<Rightarrow> queue_upload E row rel full chk sz mtime"
  have queue: "settled (buffered k) (queue_upload E row rel full chk sz mtime) (queue_upload E row rel full chk sz mtime)"
    by (intro settled_stable calm_queue) (auto simp: queue_upload_def intro!: stable_intros pending.stable_bookkeeping)
  have bind_reads: "bindm (reads f) g s = g (f s) s" for f :: "engine \<Rightarrow> 'b" and g :: "'b \<Rightarrow> unit eng" and s
    by (simp add: bindm_def reads_def)
  have both: "?route again ms s = ?route again' ms s \<and> fst (?route again ms s) \<noteq> Inl OutOfFuel \<and> buffered k (snd (?route again ms s))"
    if s: "buffered k s" and ms: "ms = rename_matches rel chk sz (e_pending_deletes s)" for ms s
  proof (cases "\<exists>m. (if js_gt sz 0 then ms else []) = [m]")
    case True
    then obtain m where m: "(if js_gt sz 0 then ms else []) = [m]" by blast
    then have "m \<in> set ms" by (cases "js_gt sz 0") auto
    with ms have "m \<in> set (e_pending_deletes s)" by (simp add: rename_matches_def)
    with s have fewer: "length (AList.delete (fst m) (e_pending_deletes s)) \<le> k - 1" "k > 0"
      using length_delete_mem [of m "e_pending_deletes s"] by auto
    have step: "thenm (drop_pending (fst m)) n s = n (s\<lparr>e_pending_deletes := AList.delete (fst m) (e_pending_deletes s)\<rparr>)"
      for n :: "unit eng" by (simp add: thenm_def bindm_def drop_pending_def modifies_def)
    show ?thesis unfolding m step list.case
      using fewer assms by (intro settled_weaken [where k = "k - 1"] settled_rename) simp_all
  next
    case False
    with queue s show ?thesis
      by (auto simp: settled_def split: list.split)
  qed
  show ?thesis
    unfolding rename_or_upload_def by (rule settledI) (unfold bind_reads, rule both, assumption, rule refl)
qed

lemma settled_modify_locked:
  "k < n \<Longrightarrow> k < n' \<Longrightarrow>
   settled (buffered k) (modify_locked n E rel full sz mtime) (modify_locked n' E rel full sz mtime)"
proof (induction n arbitrary: n' k full sz)
  case 0
  then show ?case by simp
next
  case (Suc n)
  then obtain m where n': "n' = Suc m" by (cases n') auto
  have route: "settled (buffered k)
      (rename_or_upload (\<lambda>full' sz'. modify_locked n E rel full' sz' mtime) E row rel full chk z mtime)
      (rename_or_upload (\<lambda>full' sz'. modify_locked m E rel full' sz' mtime) E row rel full chk z mtime)"
    for row chk z
    using Suc n' by (intro settled_rename_or_upload Suc.IH) auto
  have drop: "settled (buffered k) (drop_pending rel) (drop_pending rel)"
    unfolding drop_pending_def
    by (rule settled_base(4)) (simp add: AList.delete_eq le_trans [OF length_filter_le])
  then show ?case
    unfolding n' modify_locked.simps modify_step_def modify_hashed_def
    by (intro settled_bindm settled_thenm settled_cases settled_base drop route settled_stable
        stable_hash_changed stable_db_reads calm_db)
qed

text \<open>Property C35: handling an added or changed file ends. The bound the handler starts with is never
  exhausted, and any larger one gives the same outcome and the same state.\<close>

theorem modify_bound_enough:
  assumes "length (e_pending_deletes s) < n"
  shows "modify_locked n E rel full sz mtime s =
      modify_locked (Suc (length (e_pending_deletes s))) E rel full sz mtime s \<and>
    fst (modify_locked n E rel full sz mtime s) \<noteq> Inl OutOfFuel"
  using settledD [OF settled_modify_locked [of "length (e_pending_deletes s)" n
      "Suc (length (e_pending_deletes s))" E rel full sz mtime], of s] assms
  by (simp del: modify_locked.simps)

lemma modify_bound_enough_witness:
  "modify_locked 7 plain_env ''a'' ''/d/a'' Undef Undef idle_engine =
   modify_locked 1 plain_env ''a'' ''/d/a'' Undef Undef idle_engine"
  using modify_bound_enough [of idle_engine 7] by (simp add: idle_engine_def del: modify_locked.simps)

end
