(* ===== verification/Local_Rows.thy ===== *)
theory Local_Rows
  imports Local_Termination
begin

text \<open>
  What one local change leaves behind. The locale \<open>change_contract\<close> is the interface between the
  handler and a claim about it: a condition \<open>P\<close> the steps before the transfer keep, and a condition
  \<open>S\<close> the transfer, the rename and every early exit establish. Its lemma runs the handler once; the
  two interpretations are the honesty of the row and the justification of a server-side rename.
\<close>

section \<open>Running the handler once\<close>

lemma wp_upload_begin [wp_rules]:
  "wp upload_begin Q R = (\<lambda>s. Q () (s\<lparr>e_active_ops := e_active_ops s + 1,
     e_state := (if e_state s = StCatchingUp then StCatchingUp else StUploading)\<rparr>))"
  by (auto simp: fun_eq_iff upload_begin_def wp_rules intro!: arg_cong [where f = "Q ()"])

text \<open>The state in which the server is asked to rename: the entry is out of the buffer.\<close>

definition renaming :: "string \<Rightarrow> engine \<Rightarrow> engine" where
  "renaming old s = s\<lparr>e_pending_deletes := AList.delete old (e_pending_deletes s),
     e_active_ops := e_active_ops s + 1,
     e_state := (if e_state s = StCatchingUp then StCatchingUp else StUploading)\<rparr>"

locale change_contract =
  fixes E :: env and rel :: string and names :: "path set"
    and P :: "engine \<Rightarrow> bool" and S :: "engine \<Rightarrow> bool"
  assumes named: "safe_local_path E rel = Some p \<Longrightarrow> p \<in> names"
    and enough: "P s \<Longrightarrow> S s"
    and flipped: "P s \<Longrightarrow> P (s\<lparr>e_stopped := True, e_state := StDisconnected\<rparr>)"
      "P s \<Longrightarrow> P (s\<lparr>e_resyncing := True\<rparr>)"
    and dropped: "P s \<Longrightarrow> P (s\<lparr>e_pending_deletes := AList.delete k (e_pending_deletes s)\<rparr>)"
    and deleted: "P s \<Longrightarrow> wp (execute_delete E old r True) (\<lambda>_. P) (\<lambda>_. P) s"
      "P s \<Longrightarrow> wp (execute_delete_locked E old r True) (\<lambda>_. P) (\<lambda>_. P) s"
    and marked: "P s \<Longrightarrow> wp (db_update_status E old ErrorSt) (\<lambda>_. S) (\<lambda>_. S) s"
    and unsent: "P s \<Longrightarrow> wp (db_upsert E (unsent_row rel chk z m)) (\<lambda>_. S) (\<lambda>_. S) s"
    and finished: "S s \<Longrightarrow> wp upload_end (\<lambda>_. S) (\<lambda>_. S) s"
    and queued: "P s \<Longrightarrow> p \<in> names \<Longrightarrow> node_at E s p = Some (RegFile c t) \<Longrightarrow>
      wp (queue_upload E row rel p (digest_of E c) z m) (\<lambda>_. S) (\<lambda>_. S) s"
    and renamed: "P s \<Longrightarrow> p \<in> names \<Longrightarrow> node_at E s p = Some (RegFile c t) \<Longrightarrow> js_gt z 0 \<Longrightarrow>
      x \<in> set (rename_matches rel (digest_of E c) z (e_pending_deletes s)) \<Longrightarrow>
      wp (bindm (rename_on_server E (fst x) rel) (\<lambda>v. db_rename E (delete_key (pd_existing (snd x)) (fst x))
            (moved_row rel (snd x) (digest_of E c) z m v)))
        (\<lambda>_. S) (\<lambda>_. P) (renaming (fst x) s)"
begin

lemma fallback_ok:
  assumes "P s" and "\<And>p s. P s \<Longrightarrow> p \<in> names \<Longrightarrow> wp (again p) (\<lambda>_. S) (\<lambda>_. S) s"
  shows "wp (rename_fallback again E old rel pd chk z m) (\<lambda>_. S) (\<lambda>_. S) s"
proof -
  have after: "wp (case safe_local_path E rel of None \<Rightarrow> ret () | Some full \<Rightarrow>
      if outcome = FailedDelete then db_upsert E (unsent_row rel chk z m) else again full) (\<lambda>_. S) (\<lambda>_. S) s1"
    if "P s1" for outcome s1
    using that named by (cases "safe_local_path E rel") (auto simp: wp_ret enough unsent assms(2))
  show ?thesis
    unfolding rename_fallback_def
    using assms(1) by (auto simp: wp_bindm wp_reads wp_if marked enough
        intro!: wp_conseq [OF deleted(1)] wp_conseq [OF deleted(2)] after)
qed

lemma rename_ok:
  assumes "P s" and "p \<in> names" and "node_at E s p = Some (RegFile c t)" and "js_gt z 0"
    and "x \<in> set (rename_matches rel (digest_of E c) z (e_pending_deletes s))"
    and "\<And>p s. P s \<Longrightarrow> p \<in> names \<Longrightarrow> wp (again p) (\<lambda>_. S) (\<lambda>_. S) s"
  shows "wp (thenm (drop_pending (fst x)) (handle_local_rename again E (fst x) rel (snd x) (digest_of E c) z m))
     (\<lambda>_. S) (\<lambda>_. S) s"
proof -
  have fallback: "wp (rename_fallback again E (fst x) rel (snd x) (digest_of E c) z m)
      (\<lambda>_. wp upload_end (\<lambda>_. S) (\<lambda>_. S)) (\<lambda>_. wp upload_end (\<lambda>_. S) (\<lambda>_. S)) s1" if "P s1" for s1
    by (rule wp_conseq [OF fallback_ok [OF that assms(6)]]) (simp_all add: finished)
  have "wp (bindm (rename_on_server E (fst x) rel) (\<lambda>v. db_rename E (delete_key (pd_existing (snd x)) (fst x))
        (moved_row rel (snd x) (digest_of E c) z m v)))
      (\<lambda>_. wp upload_end (\<lambda>_. S) (\<lambda>_. S))
      (\<lambda>_. wp (rename_fallback again E (fst x) rel (snd x) (digest_of E c) z m)
         (\<lambda>_. wp upload_end (\<lambda>_. S) (\<lambda>_. S)) (\<lambda>_. wp upload_end (\<lambda>_. S) (\<lambda>_. S)))
      (renaming (fst x) s)"
    by (rule wp_conseq [OF renamed [OF assms(1-5)]]) (simp_all add: finished fallback)
  then show ?thesis
    unfolding handle_local_rename_def wp_thenm wp_drop_pending wp_upload_begin wp_finallym wp_try_catch
    by (simp add: renaming_def split del: if_split)
qed

lemma modify_ok: "P s \<Longrightarrow> p \<in> names \<Longrightarrow> wp (modify_locked n E rel p z m) (\<lambda>_. S) (\<lambda>_. S) s"
proof (induction n arbitrary: s p z)
  case 0
  then show ?case by (simp add: wp_throw enough)
next
  case (Suc n)
  let ?again = "\<lambda>p z. modify_locked n E rel p z m"
  have route: "wp (rename_or_upload ?again E row rel p (digest_of E c) z' m) (\<lambda>_. S) (\<lambda>_. S) s1"
    if s1: "P s1" "node_at E s1 p = Some (RegFile c t)" for s1 row c t z'
  proof -
    let ?ms = "rename_matches rel (digest_of E c) z' (e_pending_deletes s1)"
    have one: "wp (thenm (drop_pending (fst x)) (handle_local_rename (\<lambda>full'. ?again full' z') E (fst x) rel (snd x)
        (digest_of E c) z' m)) (\<lambda>_. S) (\<lambda>_. S) s1" if "(if js_gt z' 0 then ?ms else []) = [x]" for x
    proof (rule rename_ok [OF s1(1) Suc.prems(2) s1(2)])
      show "js_gt z' 0" using that by (cases "js_gt z' 0") auto
      then have "?ms = [x]" using that by simp
      then show "x \<in> set ?ms" by simp
    qed (rule Suc.IH)
    show ?thesis
    proof (cases "\<exists>x. (if js_gt z' 0 then ?ms else []) = [x]")
      case True
      then obtain x where x: "(if js_gt z' 0 then ?ms else []) = [x]" by blast
      show ?thesis
        unfolding rename_or_upload_def wp_bindm wp_reads x list.case by (rule one) (rule x)
    next
      case False
      then show ?thesis
        unfolding rename_or_upload_def wp_bindm wp_reads
        by (auto split: list.split intro: queued [OF s1(1) Suc.prems(2) s1(2)])
    qed
  qed
  have "wp (modify_hashed ?again E rel p z m (digest_of E c)) (\<lambda>_. S) (\<lambda>_. S) s1"
    if "P s1" "node_at E s1 p = Some (RegFile c t)" for s1 c t
    unfolding modify_hashed_def using that
    by (auto simp: wp_bindm wp_reads wp_if wp_ret wp_thenm wp_drop_pending wp_lookup_tracked node_at_def
        intro: enough dropped intro!: route)
  with Suc.prems flipped enough show ?case
    by (auto simp: modify_step_def wp_bindm wp_hash_changed wp_apply_flip wp_ret node_at_def
        split: option.split node.split flip.split)
qed

end

section \<open>The row is honest\<close>

text \<open>The names the file is hashed under: the watcher's, and the one a failed rename derives.\<close>

definition names_of :: "env \<Rightarrow> string \<Rightarrow> path \<Rightarrow> path set" where
  "names_of E rel full = insert full (set_option (safe_local_path E rel))"

definition row_honest :: "env \<Rightarrow> string \<Rightarrow> path set \<Rightarrow> engine \<Rightarrow> bool" where
  "row_honest E rel names s \<longleftrightarrow> (\<forall>r. get_file (e_db s) rel = Some r \<and> fstatus r = Val Synced \<longrightarrow>
     (\<exists>p \<in> names. \<exists>c t. node_at E s p = Some (RegFile c t) \<and>
        local_checksum r = Val (digest_of E c) \<and> server_checksum r = Val (digest_of E c)))"

definition sound_uploads :: "env \<Rightarrow> path set \<Rightarrow> bool" where
  "sound_uploads E names \<longleftrightarrow> (\<forall>p \<in> names. honest_uploads E p) \<and> (\<forall>c. digest_of E c \<noteq> [])"

definition honest_if :: "env \<Rightarrow> string \<Rightarrow> path set \<Rightarrow> engine \<Rightarrow> bool" where
  "honest_if E rel names s \<longleftrightarrow> (sound_uploads E names \<longrightarrow> row_honest E rel names s)"

lemma not_synced_pending [simp]: "not_synced rel (s\<lparr>e_pending_deletes := x\<rparr>) = not_synced rel s"
  "not_synced rel (s\<lparr>e_pool_inflight := n\<rparr>) = not_synced rel s"
  by (simp_all add: not_synced_def)

lemma row_honest_frame [simp]:
  "row_honest E rel names (s\<lparr>e_active_ops := n\<rparr>) = row_honest E rel names s"
  "row_honest E rel names (s\<lparr>e_state := st\<rparr>) = row_honest E rel names s"
  "row_honest E rel names (s\<lparr>e_pool_inflight := n\<rparr>) = row_honest E rel names s"
  by (simp_all add: row_honest_def node_at_def)

lemma not_synced_honest: "not_synced rel s \<Longrightarrow> row_honest E rel names s"
  by (auto simp: not_synced_def row_honest_def)

lemma synced_with_honest: "synced_with E rel p s \<Longrightarrow> p \<in> names \<Longrightarrow> row_honest E rel names s"
  by (fastforce simp: synced_with_def row_honest_def)

lemma changed_row_not_synced [simp]: "row_key (changed_row row rel chk z m) = rel"
  "fstatus (bind_row (changed_row row rel chk z m)) = Val PendingUpload"
  "row_key (unsent_row rel chk z m) = rel" "fstatus (bind_row (unsent_row rel chk z m)) = Val PendingUpload"
  by (simp_all add: changed_row_def unsent_row_def row_key.simps bind_row_def)

lemma queue_upload_honest:
  assumes "not_synced rel s" and "p \<in> names" and "sound_uploads E names"
  shows "wp (queue_upload E row rel p chk z m) (\<lambda>_. row_honest E rel names) (\<lambda>_. row_honest E rel names) s"
proof -
  have up: "wp (upload_file E rel p (Val chk)) (\<lambda>_. row_honest E rel names) (\<lambda>_. row_honest E rel names) s1"
    if "not_synced rel s1" for s1
    by (rule wp_conseq [OF upload_file_synced [OF that]])
      (use assms(2,3) in \<open>auto simp: sound_uploads_def intro: synced_with_honest\<close>)
  have "wp (pool_run (upload_file E rel p (Val chk))) (\<lambda>_. row_honest E rel names) (\<lambda>_. row_honest E rel names) s1"
    if "not_synced rel s1" for s1
    unfolding pool_run_def wp_thenm wp_finallym wp_modifies using that by (simp add: up)
  then show ?thesis
    using assms(1) by (auto simp: queue_upload_def wp_thenm wp_db_upsert not_synced_honest
        not_synced_def get_file_put_file)
qed

lemma execute_delete_not_synced:
  assumes "not_synced rel s"
  shows "wp (execute_delete E old r fb) (\<lambda>_. not_synced rel) (\<lambda>_. not_synced rel) s"
    and "wp (execute_delete_locked E old r fb) (\<lambda>_. not_synced rel) (\<lambda>_. not_synced rel) s"
  using assms
  by (auto simp: execute_delete_def execute_delete_locked_def confirmed_delete_def wp_rules Let_def
      not_synced_def get_file_remove_file get_file_update_status)

lemma moved_row_honest:
  assumes "not_synced rel s" and "p \<in> names" and "node_at E s p = Some (RegFile c t)"
  shows "wp (bindm (rename_on_server E old rel) (\<lambda>v. db_rename E k (moved_row rel pd (digest_of E c) z m v)))
     (\<lambda>_. row_honest E rel names) (\<lambda>_. not_synced rel) (renaming old s)"
proof -
  have row: "row_key (moved_row rel pd (digest_of E c) z m v) = rel"
    "fstatus (bind_row (moved_row rel pd (digest_of E c) z m v)) = Val Synced \<Longrightarrow>
      local_checksum (bind_row (moved_row rel pd (digest_of E c) z m v)) = Val (digest_of E c) \<and>
      server_checksum (bind_row (moved_row rel pd (digest_of E c) z m v)) = Val (digest_of E c)" for v
    by (auto simp: moved_row_def row_key.simps bind_row_def content_on_server_def str_or_def split: if_splits)
  show ?thesis
    using assms by (auto simp: wp_rules renaming_def row_honest_def row get_file_put_file node_at_def
        not_synced_def split: option.split dest: row(2))
qed

interpretation rows: change_contract E rel "names_of E rel full" "not_synced rel"
    "honest_if E rel (names_of E rel full)" for E rel full
proof
  show "wp (execute_delete E old r True) (\<lambda>_. not_synced rel) (\<lambda>_. not_synced rel) s"
    "wp (execute_delete_locked E old r True) (\<lambda>_. not_synced rel) (\<lambda>_. not_synced rel) s"
    if "not_synced rel s" for old r s
    using that by (rule execute_delete_not_synced)+
next
  fix s p c t row z m
  assume n: "not_synced rel s" and p: "p \<in> names_of E rel full"
  show "wp (queue_upload E row rel p (digest_of E c) z m) (\<lambda>_. honest_if E rel (names_of E rel full))
      (\<lambda>_. honest_if E rel (names_of E rel full)) s"
  proof (cases "sound_uploads E (names_of E rel full)")
    case True
    show ?thesis
      by (rule wp_conseq [OF queue_upload_honest [OF n p True]]) (simp_all add: honest_if_def)
  next
    case False
    then show ?thesis by (intro wp_conseq [OF wp_True]) (simp_all add: honest_if_def)
  qed
next
  fix s p c t z x m
  assume "not_synced rel s" "p \<in> names_of E rel full" "node_at E s p = Some (RegFile c t)"
  from moved_row_honest [OF this]
  show "wp (bindm (rename_on_server E (fst x) rel) (\<lambda>v. db_rename E (delete_key (pd_existing (snd x)) (fst x))
            (moved_row rel (snd x) (digest_of E c) z m v)))
        (\<lambda>_. honest_if E rel (names_of E rel full)) (\<lambda>_. not_synced rel) (renaming (fst x) s)"
    by (rule wp_conseq) (auto simp: honest_if_def)
next
  fix s old chk z m
  assume n: "not_synced rel s"
  then have "not_synced rel (s\<lparr>e_db := update_file_status old ErrorSt (e_db s)\<rparr>)"
    by (auto simp: not_synced_def get_file_update_status)
  with n show "wp (db_update_status E old ErrorSt) (\<lambda>_. honest_if E rel (names_of E rel full))
      (\<lambda>_. honest_if E rel (names_of E rel full)) s"
    by (simp add: wp_rules honest_if_def not_synced_honest)
  from n have "not_synced rel (s\<lparr>e_db := put_file (unsent_row rel chk z m) (e_db s)\<rparr>)"
    by (simp add: not_synced_def get_file_put_file)
  with n show "wp (db_upsert E (unsent_row rel chk z m)) (\<lambda>_. honest_if E rel (names_of E rel full))
      (\<lambda>_. honest_if E rel (names_of E rel full)) s"
    by (simp add: wp_rules honest_if_def not_synced_honest)
qed (auto simp: names_of_def honest_if_def not_synced_honest wp_rules upload_end_def maybe_mark_synced_def)


definition tagged_env :: env where
  "tagged_env = plain_env\<lparr>digest_of := (\<lambda>c. ''h'' @ c)\<rparr>"


section \<open>A rename is justified\<close>

text \<open>Why the server may be asked to rename \<open>old\<close>: a buffered delete of it and the new file agree.\<close>

definition rename_evidence :: "env \<Rightarrow> string \<Rightarrow> path set \<Rightarrow> string \<Rightarrow> engine \<Rightarrow> bool" where
  "rename_evidence E rel names old s \<longleftrightarrow> (\<exists>pd. (old, pd) \<in> set (e_pending_deletes s) \<and>
     (\<exists>p \<in> names. \<exists>c t. node_at E s p = Some (RegFile c t) \<and> pd_checksum pd = Val (digest_of E c)) \<and>
     js_gt (pd_size pd) 0 \<and> (basename old = basename rel \<or> dirname old = dirname rel))"

definition justified_effects :: "env \<Rightarrow> string \<Rightarrow> path set \<Rightarrow> engine \<Rightarrow> effect list \<Rightarrow> bool" where
  "justified_effects E rel names s0 fx \<longleftrightarrow> (\<forall>old new. EServerRename old new \<in> set fx \<longrightarrow>
     EServerRename old new \<in> set (e_effects s0) \<or> new = rel \<and> rename_evidence E rel names old s0)"

abbreviation renames_justified :: "env \<Rightarrow> string \<Rightarrow> path set \<Rightarrow> engine \<Rightarrow> engine \<Rightarrow> bool" where
  "renames_justified E rel names s0 \<equiv> \<lambda>s. justified_effects E rel names s0 (e_effects s)"

definition before_rename :: "env \<Rightarrow> string \<Rightarrow> path set \<Rightarrow> engine \<Rightarrow> engine \<Rightarrow> bool" where
  "before_rename E rel names s0 s \<longleftrightarrow> renames_justified E rel names s0 s \<and> e_disk s = e_disk s0 \<and>
     set (e_pending_deletes s) \<subseteq> set (e_pending_deletes s0)"

lemma justified_effects_emit [simp]:
  "justified_effects E rel names s0 (fx @ [x]) \<longleftrightarrow> justified_effects E rel names s0 fx \<and>
     (\<forall>old new. x = EServerRename old new \<longrightarrow>
        x \<in> set (e_effects s0) \<or> new = rel \<and> rename_evidence E rel names old s0)"
  by (auto simp: justified_effects_def)

lemma upload_keeps_renames:
  "keeps (renames_justified E rel names s0) (queue_upload E row r full chk z m)"
proof -
  let ?J = "renames_justified E rel names s0"
  have "keeps ?J (upload_accepted E r full fid u v)" for fid u v
    unfolding upload_defs by (rule keepsI) (simp add: wp_rules)
  moreover have "keeps ?J (http_upload E r full)"
    by (rule keepsI) (auto simp: wp_rules Let_def split: upload_reply.split flip.split)
  moreover have "keeps ?J (db_update_status E r st)" "keeps ?J (mark_permanent r)" "keeps ?J (db_upsert E x)"
    "keeps ?J upload_begin" "keeps ?J upload_end" for st x
    by (rule keepsI, simp add: wp_rules upload_end_def maybe_mark_synced_def)+
  moreover have "keeps ?J (modifies (\<lambda>s. s\<lparr>e_pool_inflight := f s\<rparr>))" for f
    by (rule keeps_modifies) simp
  ultimately show ?thesis
    unfolding queue_upload_def pool_run_def upload_file_def upload_attempt_def
    by (auto intro!: keeps_rules split: upload_reply.split)
qed

interpretation renames: change_contract E rel "names_of E rel full"
    "before_rename E rel (names_of E rel full) s0" "renames_justified E rel (names_of E rel full) s0"
  for E rel full s0
proof
  fix s p c t row z m
  assume "before_rename E rel (names_of E rel full) s0 s"
  then show "wp (queue_upload E row rel p (digest_of E c) z m) (\<lambda>_. renames_justified E rel (names_of E rel full) s0)
      (\<lambda>_. renames_justified E rel (names_of E rel full) s0) s"
    by (intro keepsD [OF upload_keeps_renames]) (simp add: before_rename_def)
next
  fix s p c t z x m
  assume b: "before_rename E rel (names_of E rel full) s0 s" and p: "p \<in> names_of E rel full"
    and n: "node_at E s p = Some (RegFile c t)" and z: "js_gt z 0"
    and x: "x \<in> set (rename_matches rel (digest_of E c) z (e_pending_deletes s))"
  then have "rename_evidence E rel (names_of E rel full) (fst x) s0"
    by (cases x) (fastforce simp: rename_evidence_def before_rename_def rename_matches_def node_at_def)
  with b show "wp (bindm (rename_on_server E (fst x) rel) (\<lambda>v. db_rename E (delete_key (pd_existing (snd x)) (fst x))
            (moved_row rel (snd x) (digest_of E c) z m v)))
        (\<lambda>_. renames_justified E rel (names_of E rel full) s0)
        (\<lambda>_. before_rename E rel (names_of E rel full) s0) (renaming (fst x) s)"
    by (auto simp: wp_rules renaming_def before_rename_def AList.delete_eq split: option.split)
qed (auto simp: names_of_def wp_rules upload_end_def maybe_mark_synced_def before_rename_def AList.delete_eq
    execute_delete_def execute_delete_locked_def confirmed_delete_def Let_def)

text \<open>Property C14: a local change asks the server for a rename only on evidence: a buffered delete of
  the old path with the digest of the new file's bytes, a size above zero, and the same base name or
  the same directory. Any rename the handler sends is to the changed path.\<close>

theorem local_rename_justified:
  assumes "EServerRename old new \<in> set (e_effects (final (on_local_change E ev) s))"
    and "EServerRename old new \<notin> set (e_effects s)"
  shows "new = canon_rel E (ev_path ev) \<and> ev_kind ev \<noteq> ChDelete \<and>
    rename_evidence E new (names_of E new (ev_full ev)) old s"
proof -
  let ?rel = "canon_rel E (ev_path ev)"
  let ?J = "\<lambda>s'. EServerRename old new \<in> set (e_effects s') \<longrightarrow> EServerRename old new \<in> set (e_effects s) \<or>
      new = ?rel \<and> ev_kind ev \<noteq> ChDelete \<and> rename_evidence E ?rel (names_of E ?rel (ev_full ev)) old s"
  have start: "before_rename E ?rel (names_of E ?rel (ev_full ev)) s s"
    by (simp add: before_rename_def justified_effects_def)
  have "wp (modify_locked n E ?rel (ev_full ev) z m) (\<lambda>_. ?J) (\<lambda>_. ?J) s" if "ev_kind ev \<noteq> ChDelete" for n z m
    by (rule wp_conseq [OF renames.modify_ok [OF start]])
      (use that in \<open>auto simp: names_of_def justified_effects_def\<close>)
  moreover have "wp (handle_local_delete E p) (\<lambda>_. ?J) (\<lambda>_. ?J) s" for p
    by (simp add: handle_local_delete_def wp_rules Let_def split: option.split)
  ultimately have "wp (on_local_change E ev) (\<lambda>_. ?J) (\<lambda>_. ?J) s"
    by (cases "ev_kind ev = ChDelete") (simp_all add: on_local_change_def handle_local_modify_def wp_bindm
        wp_reads wp_if wp_ret wp_try_catch del: modify_locked.simps)
  from wp_final [OF this] assms show ?thesis by blast
qed

definition moved_engine :: engine where
  "moved_engine = idle_engine\<lparr>e_disk := [''/d/b'' \<mapsto> RegFile ''x'' 1],
     e_pending_deletes := [(''a'', \<lparr>pd_checksum = Val ''x'', pd_size = Val 1, pd_file_id = Val ''7'',
        pd_existing = empty_rec\<lparr>rel_path := Val ''a'', server_file_id := Val ''7'', local_checksum := Val ''x'',
          server_checksum := Val ''x'', fsize := Val 1\<rparr>\<rparr>)]\<rparr>"

definition move_event :: local_event where
  "move_event = \<lparr>ev_kind = ChAdd, ev_path = ''b'', ev_full = ''/d/b'', ev_size = Val 1, ev_mtime = Val 1\<rparr>"

lemma move_is_sent: "EServerRename ''a'' ''b'' \<in> set (e_effects (final (on_local_change plain_env move_event) moved_engine))"
proof -
  have names: "dirname ''a'' = ''.''" "dirname ''b'' = ''.''" by code_simp+
  let ?P = "\<lambda>s. EServerRename ''a'' ''b'' \<in> set (e_effects s)"
  have "wp (on_local_change plain_env move_event) (\<lambda>_. ?P) (\<lambda>_. ?P) moved_engine"
    by (simp add: on_local_change_def handle_local_modify_def modify_step_def modify_hashed_def
        rename_or_upload_def handle_local_rename_def upload_end_def maybe_mark_synced_def rename_matches_def
        event_size_def wp_rules moved_engine_def move_event_def idle_engine_def plain_env_def going_down_def
        is_suppressed_def supp_key_def canon_rel_def ascii_ops_def node_at_def get_file_folded_def get_file_def
        names moved_row_def row_key.simps)
  then show ?thesis by (rule wp_final)
qed

lemma local_rename_justified_witness:
  "rename_evidence plain_env ''b'' (names_of plain_env ''b'' ''/d/b'') ''a'' moved_engine"
  using local_rename_justified [OF move_is_sent]
  by (simp add: moved_engine_def move_event_def idle_engine_def)

end
