(* ===== verification/Recovery.thy ===== *)
theory Recovery
  imports Local_Changes
begin

text \<open>
  The reconcile sweep: \<open>_recoverPending\<close> with its downloads, the stranded uploads and deletes it
  re-drives first, and the redial that gets a wedged catch-up moving (\<open>_maybeRecoverCatchUpWedge\<close>).
  The sweep runs on the engine's apply chain, so no server event interleaves with it.
\<close>

section \<open>Uploads\<close>

definition pool_busy :: "engine \<Rightarrow> bool" where
  "pool_busy s \<longleftrightarrow> e_pool_inflight s > 0 \<or> e_pool_queued s > 0"

definition sweep_off :: "engine \<Rightarrow> bool" where
  "sweep_off s \<longleftrightarrow> e_stopped s \<or> e_resyncing s \<or> \<not> e_http s"

definition loop_off :: "engine \<Rightarrow> bool" where
  "loop_off s \<longleftrightarrow> e_stopped s \<or> e_resyncing s"

definition redriven_row :: "file_rec \<Rightarrow> string \<Rightarrow> node \<Rightarrow> file_rec" where
  "redriven_row row chk st = row\<lparr>local_checksum := Val chk, fsize := Val (node_size st),
     local_mtime := Val (node_mtime st), fstatus := Val PendingUpload\<rparr>"

text \<open>Hash the file again and push it through the pool.\<close>

definition redrive_upload :: "env \<Rightarrow> file_rec \<Rightarrow> path \<Rightarrow> node \<Rightarrow> unit eng" where
  "redrive_upload E row full st = bindm (try_hash E full) (\<lambda>h. case h of
       Val chk \<Rightarrow> thenm (db_upsert E (redriven_row row chk st))
         (pool_run (upload_file E (row_key row) full (Val chk)))
     | _ \<Rightarrow> ret ())"

text \<open>The bytes on disk are what the server already has; an error falls through to the upload.\<close>

definition converge_uploaded :: "env \<Rightarrow> file_rec \<Rightarrow> path \<Rightarrow> bool eng" where
  "converge_uploaded E row full =
     (if \<not> str_truthy (server_checksum row) then ret False
      else try_catch
        (bindm (hash_file E full) (\<lambda>chk.
           if Val chk = server_checksum row
           then thenm (db_upsert E (row\<lparr>local_checksum := Val chk, fstatus := Val Synced\<rparr>)) (ret True)
           else ret False))
        (\<lambda>_. ret False))"

text \<open>A regular file at the path of a row no live operation owns.\<close>

definition with_row_file :: "env \<Rightarrow> file_rec \<Rightarrow> (path \<Rightarrow> node \<Rightarrow> unit eng) \<Rightarrow> unit eng" where
  "with_row_file E row body = (case safe_local_path E (row_key row) of
       None \<Rightarrow> ret ()
     | Some full \<Rightarrow> bindm (reads (\<lambda>s. is_suppressed E s (row_key row))) (\<lambda>busy.
         if busy then ret ()
         else bindm (stat_of E full) (\<lambda>st. case st of
             Some (RegFile c t) \<Rightarrow> body full (RegFile c t)
           | _ \<Rightarrow> ret ())))"

definition recover_upload :: "env \<Rightarrow> file_rec \<Rightarrow> unit eng" where
  "recover_upload E row = with_row_file E row (\<lambda>full st.
     bindm (converge_uploaded E row full) (\<lambda>converged.
       if converged then ret ()
       else bindm (reads (\<lambda>s. row_key row \<in> e_permanent s)) (\<lambda>permanent.
         if permanent then ret () else redrive_upload E row full st)))"

definition recover_stranded_new :: "env \<Rightarrow> file_rec \<Rightarrow> unit eng" where
  "recover_stranded_new E row = bindm (reads (\<lambda>s. row_key row \<in> e_permanent s)) (\<lambda>permanent.
     if permanent then ret () else with_row_file E row (redrive_upload E row))"

definition never_uploaded :: "file_rec \<Rightarrow> bool" where
  "never_uploaded r \<longleftrightarrow> \<not> str_truthy (server_file_id r) \<and> \<not> str_truthy (server_checksum r) \<and>
     str_truthy (local_checksum r)"

definition try_enumerate :: "env \<Rightarrow> (state_db \<Rightarrow> 'a) \<Rightarrow> 'a option eng" where
  "try_enumerate E f = try_catch (bindm (db_read E f) (\<lambda>x. ret (Some x))) (\<lambda>_. ret None)"

definition recover_pending_uploads :: "env \<Rightarrow> unit eng" where
  "recover_pending_uploads E = bindm (reads (\<lambda>s. sweep_off s \<or> pool_busy s)) (\<lambda>off.
     if off then ret ()
     else bindm (try_enumerate E (\<lambda>d. (get_files_by_status d PendingUpload,
            filter never_uploaded (get_files_by_status d ErrorSt)))) (\<lambda>rows. case rows of
         None \<Rightarrow> ret ()
       | Some (pending, stranded) \<Rightarrow>
           thenm (for_each loop_off pending (recover_upload E))
             (for_each loop_off stranded (recover_stranded_new E))))"

section \<open>Deletes\<close>

definition recover_delete :: "env \<Rightarrow> file_rec \<Rightarrow> unit eng" where
  "recover_delete E row = (let rel = row_key row in
     bindm (reads (\<lambda>s. is_suppressed E s rel)) (\<lambda>busy.
       if busy then ret ()
       else (case safe_local_path E rel of
           None \<Rightarrow> ret ()
         | Some full \<Rightarrow> bindm (stat_of E full) (\<lambda>st.
             if st \<noteq> None then ret ()
             else bindm (try_enumerate E (\<lambda>d. get_file d rel)) (\<lambda>cur. case cur of
                 Some (Some r) \<Rightarrow>
                   if fstatus r \<noteq> Val PendingDelete then ret ()
                   else thenm (execute_delete E rel r False) (ret ())
               | _ \<Rightarrow> ret ())))))"

definition recover_pending_deletes :: "env \<Rightarrow> unit eng" where
  "recover_pending_deletes E = bindm (reads sweep_off) (\<lambda>off.
     if off then ret ()
     else bindm (try_enumerate E (\<lambda>d. get_files_by_status d PendingDelete)) (\<lambda>rows. case rows of
         None \<Rightarrow> ret ()
       | Some rs \<Rightarrow> for_each loop_off rs (recover_delete E)))"

section \<open>Downloads\<close>

text \<open>The bytes already match: the row is brought up to date; an error falls through.\<close>

definition converge_downloaded :: "env \<Rightarrow> file_rec \<Rightarrow> path \<Rightarrow> bool eng" where
  "converge_downloaded E row full = (let rel = row_key row in
     try_catch
       (bindm (reads (\<lambda>s. exists_on_disk E s full)) (\<lambda>there.
          if \<not> there then ret False
          else bindm (hash_file E full) (\<lambda>chk.
            if Val chk = server_checksum row
            then bindm (db_read E (\<lambda>d. get_file d rel)) (\<lambda>existing.
                   thenm (db_upsert E ((spread existing rel)\<lparr>local_checksum := Val chk,
                            server_checksum := server_checksum row, server_file_id := server_file_id row,
                            fstatus := Val Synced, needs_bytes := Val 0\<rparr>)) (ret True))
            else ret False)))
       (\<lambda>_. ret False))"

definition awaits_space :: "env \<Rightarrow> file_rec \<Rightarrow> bool" where
  "awaits_space E row \<longleftrightarrow> js_gt (needs_bytes row) 0 \<and>
     below_free (free_disk_space E) (num_val (needs_bytes row))"

text \<open>One row of the sweep; the result says whether it landed.\<close>

definition redownload :: "env \<Rightarrow> file_rec \<Rightarrow> path \<Rightarrow> bool eng" where
  "redownload E row full = (let rel = row_key row in
     thenm (suppress_path E rel)
       (finallym
         (thenm (maybe_save_conflict_copy E full (server_checksum row) Undef)
            (engine_download E rel (server_file_id row) (server_checksum row) (fsize row)))
         (release_path E rel)))"

definition recover_download :: "env \<Rightarrow> file_rec \<Rightarrow> bool eng" where
  "recover_download E row = (let rel = row_key row in
     bindm (reads (\<lambda>s. is_suppressed E s rel \<or> \<not> str_truthy (server_file_id row) \<or>
              \<not> str_truthy (server_checksum row) \<or> rel \<in> e_permanent s)) (\<lambda>skip.
       if skip then ret False
       else (case safe_path E (Val rel) of
           None \<Rightarrow> ret False
         | Some full \<Rightarrow> bindm (converge_downloaded E row full) (\<lambda>converged.
             if converged then ret True
             else if awaits_space E row then ret False
             else redownload E row full))))"

fun recover_downloads :: "env \<Rightarrow> file_rec list \<Rightarrow> nat \<Rightarrow> nat eng" where
  "recover_downloads E [] landed = ret landed"
| "recover_downloads E (row # rows) landed = bindm (reads loop_off) (\<lambda>off.
     if off then ret landed
     else bindm (recover_download E row) (\<lambda>hit.
       recover_downloads E rows (if hit then landed + 1 else landed)))"

section \<open>The catch-up wedge\<close>

definition unlanded :: "state_db \<Rightarrow> nat" where
  "unlanded d = length (get_files_by_status d PendingDownload) + length (get_files_by_status d ErrorSt)"

definition recover_catch_up_wedge :: "env \<Rightarrow> nat \<Rightarrow> unit eng" where
  "recover_catch_up_wedge E landed = bindm (reads id) (\<lambda>s.
     if e_stopped s \<or> e_resyncing s \<or> \<not> e_ws s then ret ()
     else if e_state s \<noteq> StCatchingUp then ret ()
     else if \<not> landed > 0 then ret ()
     else if e_caught_up s then ret ()
     else if e_catch_up_pending s > 0 \<or> e_active_downloads s > 0 then ret ()
     else bindm (try_enumerate E get_last_seq) (\<lambda>last. case last of
         None \<Rightarrow> ret ()
       | Some seq \<Rightarrow>
           if \<not> e_tip_seq s > seq then ret ()
           else if e_lowest_unapplied s > 0 \<and> e_lowest_unapplied s > seq then ret ()
           else bindm (try_enumerate E unlanded) (\<lambda>left. case left of
               None \<Rightarrow> ret ()
             | Some n \<Rightarrow> if n > 0 then ret ()
                 else do_all [emit EWsClose, set_state StConnecting, emit (EWsConnect seq),
                     modifies (\<lambda>s. s\<lparr>e_ws_since := seq\<rparr>)])))"

section \<open>The sweep\<close>

definition recover_pending :: "env \<Rightarrow> unit eng" where
  "recover_pending E = bindm (reads sweep_off) (\<lambda>off.
     if off then ret ()
     else bindm (try_enumerate E (\<lambda>d. get_files_by_status d PendingDownload @ get_files_by_status d ErrorSt))
       (\<lambda>rows. case rows of
           None \<Rightarrow> ret ()
         | Some rs \<Rightarrow> do_all [
             recover_pending_uploads E,
             recover_pending_deletes E,
             bindm (recover_downloads E rs 0) (recover_catch_up_wedge E)]))"

text \<open>A sweep on the apply chain: what it throws is logged.\<close>

definition enqueue_recover :: "env \<Rightarrow> unit eng" where
  "enqueue_recover E = bindm (reads e_stopped) (\<lambda>stopped.
     if stopped then ret () else try_catch (recover_pending E) (\<lambda>_. ret ()))"

end
