(* ===== verification/Recovery_Safety.thy ===== *)
theory Recovery_Safety
  imports Recovery Event_Safety
begin

text \<open>
  What the reconcile sweep guarantees: that a stranded upload gets through once the server answers,
  that a re-download keeps the user's bytes, and that the wedge redial neither moves the cursor nor
  fires while something is still to land.
\<close>

section \<open>Stranded uploads get through\<close>

text \<open>An environment in which nothing fails: the database works, no teardown lands, no local writer
  interferes, and the server stores what it is sent and says so.\<close>

definition healthy :: "env \<Rightarrow> bool" where
  "healthy E \<longleftrightarrow> (\<forall>op. \<not> db_fails E op) \<and> (\<forall>c. digest_of E c \<noteq> []) \<and> (\<forall>rel. upload_flip E rel = NoFlip) \<and>
     (\<forall>p n. disk_after_upload E p n = n) \<and>
     (\<forall>p c. \<exists>fid v. upload_reply_of E p (Some c) = UploadOk fid (Val (digest_of E c)) v)"

definition ready :: "engine \<Rightarrow> bool" where
  "ready s \<longleftrightarrow> db_open (e_db s) \<and> \<not> e_stopped s \<and> \<not> e_resyncing s \<and> e_http s"

text \<open>Only the row of \<open>k\<close> changed, and nothing a later row of the sweep looks at.\<close>

definition only_row :: "string \<Rightarrow> engine \<Rightarrow> engine \<Rightarrow> bool" where
  "only_row k s s' \<longleftrightarrow> (\<forall>k'. k' \<noteq> k \<longrightarrow> get_file (e_db s') k' = get_file (e_db s) k') \<and>
     e_disk s' = e_disk s \<and> e_suppressed s' = e_suppressed s \<and> e_folds s' = e_folds s \<and>
     e_permanent s' \<subseteq> e_permanent s \<and> (ready s \<longrightarrow> ready s')"

definition synced_at :: "env \<Rightarrow> string \<Rightarrow> content \<Rightarrow> engine \<Rightarrow> bool" where
  "synced_at E rel c s \<longleftrightarrow> (\<exists>r. get_file (e_db s) rel = Some r \<and> fstatus r = Val Synced \<and>
     server_checksum r = Val (digest_of E c))"

text \<open>The file of a row is there, can be read, and no operation owns it.\<close>

definition deliverable :: "env \<Rightarrow> engine \<Rightarrow> string \<Rightarrow> content \<Rightarrow> bool" where
  "deliverable E s rel c \<longleftrightarrow> rel \<noteq> [] \<and> rel \<notin> e_permanent s \<and> \<not> is_suppressed E s rel \<and>
     (\<exists>full t. safe_local_path E rel = Some full \<and> node_at E s full = Some (RegFile c t) \<and> \<not> hash_fails E full)"

lemma healthyD:
  assumes "healthy E"
  shows "db_fails E op = False" "digest_of E c \<noteq> []" "upload_flip E rel = NoFlip"
    "disk_after_upload E p n = n" "\<exists>fid v. upload_reply_of E p (Some c) = UploadOk fid (Val (digest_of E c)) v"
  using assms unfolding healthy_def by blast+

lemma synced_row_value:
  assumes "healthy E" and "row_key r = rel" and "fstatus r = Val Synced" and "server_checksum r = Val (digest_of E c)"
  shows "synced_at E rel c (s\<lparr>e_db := put_file r d\<rparr>)"
  using assms healthyD(2) [OF assms(1)] by (auto simp: synced_at_def get_file_put_file bind_row_def str_or_def)

lemma only_row_put:
  "row_key r = rel \<Longrightarrow> only_row rel s (s\<lparr>e_db := put_file r (e_db s)\<rparr>)"
  by (auto simp: only_row_def get_file_put_file ready_def)

lemma row_frame [simp]:
  "only_row k s (t\<lparr>e_state := st\<rparr>) = only_row k s t" "synced_at E k c (t\<lparr>e_state := st\<rparr>) = synced_at E k c t"
  "only_row k s (t\<lparr>e_active_ops := n\<rparr>) = only_row k s t" "synced_at E k c (t\<lparr>e_active_ops := n\<rparr>) = synced_at E k c t"
  "only_row k s (t\<lparr>e_pool_inflight := n\<rparr>) = only_row k s t" "synced_at E k c (t\<lparr>e_pool_inflight := n\<rparr>) = synced_at E k c t"
  by (simp_all add: only_row_def synced_at_def ready_def)

lemma healthy_accept:
  assumes "healthy E" and "db_open (e_db s)" and "node_at E s full = Some (RegFile c t)" and "\<not> hash_fails E full"
    and "rel \<noteq> []"
  shows "wp (upload_accepted E rel full fid (Val (digest_of E c)) v)
     (\<lambda>_ s'. \<exists>r. s' = s\<lparr>e_permanent := e_permanent s - {rel}, e_db := put_file r (e_db s)\<rparr> \<and> row_key r = rel \<and>
        fstatus r = Val Synced \<and> server_checksum r = Val (digest_of E c)) (\<lambda>_ _. False) s"
  using assms healthyD [OF assms(1)]
  by (simp add: upload_accepted_def wp_bindm wp_do_all_Cons wp_do_all_Nil wp_clear_permanent wp_try_hash wp_stat_of
      wp_if wp_thenm wp_db_upsert node_at_def)
    (auto simp: uploaded_row_def row_key.simps intro!: exI)

lemma healthy_upload:
  assumes "healthy E" and "ready s" and "node_at E s full = Some (RegFile c t)" and "\<not> hash_fails E full"
    and "\<not> is_suppressed E s rel" and "rel \<noteq> []"
  shows "wp (upload_file E rel full chk) (\<lambda>_ s'. only_row rel s s' \<and> synced_at E rel c s') (\<lambda>_ _. False) s"
proof -
  let ?P = "\<lambda>s'. only_row rel s s' \<and> synced_at E rel c s'"
  obtain fid v where reply: "upload_reply_of E full (Some c) = UploadOk fid (Val (digest_of E c)) v"
    using healthyD(5) [OF assms(1)] by blast
  have sent: "wp (upload_attempt E rel full chk) (\<lambda>_. ?P) (\<lambda>_ _. False) s1"
    if s1: "only_row rel s s1" "ready s1" "e_disk s1 = e_disk s" for s1
  proof -
    let ?s2 = "s1\<lparr>e_effects := e_effects s1 @ [EUpload full c]\<rparr>"
    have node: "node_at E s1 full = Some (RegFile c t)" using assms(3) s1(3) by (simp add: node_at_def)
    have "wp (upload_accepted E rel full fid (Val (digest_of E c)) v) (\<lambda>_. ?P) (\<lambda>_ _. False) ?s2"
      using s1 assms node
      by (auto intro!: wp_conseq [OF healthy_accept [where t = t]] synced_row_value
          simp: node_at_def ready_def only_row_def get_file_put_file)
    moreover have "?s2\<lparr>e_disk := (e_disk s1)(disk_key E full := Some (RegFile c t))\<rparr> = ?s2"
      using node by (simp add: node_at_def fun_upd_idem)
    moreover have "str_or (Val (digest_of E c)) chk = Val (digest_of E c)"
      using healthyD(2) [OF assms(1)] by (simp add: str_or_def)
    ultimately show ?thesis
      using s1(2) reply node healthyD(3,4) [OF assms(1)]
      by (simp add: upload_attempt_def wp_bindm wp_http_upload wp_reads wp_if sent_bytes_def ready_def Let_def)
  qed
  have begun: "wp upload_begin (\<lambda>_ s1. only_row rel s s1 \<and> ready s1 \<and> e_disk s1 = e_disk s) (\<lambda>_ _. False) s"
    using assms(2) by (simp add: upload_begin_def wp_rules only_row_def ready_def)
  have ended: "wp upload_end (\<lambda>_. ?P) (\<lambda>_ _. False) s1" if "?P s1" for s1
    using that by (simp add: upload_end_def maybe_mark_synced_def wp_rules)
  have "wp (thenm upload_begin (finallym (try_catch (upload_attempt E rel full chk)
      (\<lambda>_. db_update_status E rel ErrorSt)) upload_end)) (\<lambda>_. ?P) (\<lambda>_ _. False) s"
    unfolding wp_thenm wp_finallym wp_try_catch
    by (rule wp_conseq [OF begun], rule wp_conseq [OF sent]) (auto intro: ended)
  with assms(5) show ?thesis by (simp add: upload_file_def wp_bindm wp_reads wp_if)
qed

lemma only_row_trans: "only_row k s s1 \<Longrightarrow> only_row k s1 s2 \<Longrightarrow> only_row k s s2"
  by (auto simp: only_row_def)

lemma only_row_refl [simp]: "only_row k s s"
  by (simp add: only_row_def)

lemma healthy_redrive:
  assumes "healthy E" and "ready s" and "node_at E s full = Some (RegFile c t)"
    and "\<not> is_suppressed E s (row_key row)" and "row_key row \<noteq> []"
  shows "wp (redrive_upload E row full (RegFile c t)) (\<lambda>_ s'. only_row (row_key row) s s' \<and>
     (\<not> hash_fails E full \<longrightarrow> synced_at E (row_key row) c s')) (\<lambda>_ _. False) s"
proof -
  have key: "row_key (redriven_row row chk st) = row_key row" for chk st
    by (simp add: redriven_row_def row_key.simps)
  let ?mid = "\<lambda>chk st n. s\<lparr>e_db := put_file (redriven_row row chk st) (e_db s), e_pool_inflight := n\<rparr>"
  have mid: "only_row (row_key row) s (?mid chk st n)" "ready (?mid chk st n)"
    "node_at E (?mid chk st n) full = Some (RegFile c t)" "\<not> is_suppressed E (?mid chk st n) (row_key row)" for chk st n
    using assms by (auto simp: only_row_def ready_def get_file_put_file key node_at_def is_suppressed_def supp_key_def)
  have "wp (upload_file E (row_key row) full (Val chk)) (\<lambda>_ s'. only_row (row_key row) s s' \<and> synced_at E (row_key row) c s')
      (\<lambda>_ _. False) (?mid chk st n)" if "\<not> hash_fails E full" for chk st n
    by (rule wp_conseq [OF healthy_upload [OF assms(1) mid(2,3) that mid(4) assms(5)]])
      (auto intro: only_row_trans [OF mid(1)])
  with assms show ?thesis
    by (auto simp: redrive_upload_def wp_bindm wp_try_hash wp_thenm wp_db_upsert wp_ret pool_run_def wp_finallym
        wp_modifies key healthyD(1) ready_def)
qed

definition row_done :: "env \<Rightarrow> file_rec \<Rightarrow> engine \<Rightarrow> engine \<Rightarrow> bool" where
  "row_done E row s s' \<longleftrightarrow> only_row (row_key row) s s' \<and>
     (\<forall>c. deliverable E s (row_key row) c \<longrightarrow> synced_at E (row_key row) c s')"

lemma row_done_skip: "(\<And>c. \<not> deliverable E s (row_key row) c) \<Longrightarrow> row_done E row s s"
  by (simp add: row_done_def)

lemma healthy_recover:
  assumes "healthy E" and "ready s" and "row_key row \<noteq> []"
    and body: "m = recover_upload E row \<or> m = recover_stranded_new E row"
  shows "wp m (\<lambda>_. row_done E row s) (\<lambda>_ _. False) s"
proof (cases "\<exists>full c t. safe_local_path E (row_key row) = Some full \<and> \<not> is_suppressed E s (row_key row) \<and>
    node_at E s full = Some (RegFile c t)")
  case False
  then have "row_done E row s s" by (intro row_done_skip) (auto simp: deliverable_def)
  with False body show ?thesis
    by (auto simp: recover_upload_def recover_stranded_new_def with_row_file_def wp_bindm wp_reads wp_if wp_ret
        wp_stat_of split: option.split node.split)
next
  case True
  then obtain full c t where f: "safe_local_path E (row_key row) = Some full" "\<not> is_suppressed E s (row_key row)"
    "node_at E s full = Some (RegFile c t)" by blast
  then have only_c: "deliverable E s (row_key row) c' \<Longrightarrow> c' = c \<and> \<not> hash_fails E full" for c'
    by (auto simp: deliverable_def)
  have redrive: "wp (redrive_upload E row full (RegFile c t)) (\<lambda>_. row_done E row s) (\<lambda>_ _. False) s"
    by (rule wp_conseq [OF healthy_redrive [OF assms(1,2) f(3,2) assms(3)]])
      (auto simp: row_done_def dest: only_c)
  have skip: "row_done E row s s" if "row_key row \<in> e_permanent s"
    using that by (intro row_done_skip) (auto simp: deliverable_def)
  have key: "row_key (row\<lparr>local_checksum := x, fstatus := y\<rparr>) = row_key row" for x y
    by (simp add: row_key.simps)
  have landed: "row_done E row s (s\<lparr>e_db := put_file (row\<lparr>local_checksum := x, fstatus := Val Synced\<rparr>) (e_db s)\<rparr>)"
    if "server_checksum row = Val (digest_of E c)" for x
    using that only_row_put [OF key] synced_row_value [OF assms(1) key] by (auto simp: row_done_def dest: only_c)
  have after: "wp (bindm (reads (\<lambda>s. row_key row \<in> e_permanent s)) (\<lambda>permanent.
      if permanent then ret () else redrive_upload E row full (RegFile c t))) (\<lambda>_. row_done E row s) (\<lambda>_ _. False) s"
    using redrive skip by (simp add: wp_bindm wp_reads wp_if wp_ret)
  from body show ?thesis
  proof
    assume m: "m = recover_stranded_new E row"
    show ?thesis
      unfolding m recover_stranded_new_def with_row_file_def
      using redrive skip f by (simp add: wp_bindm wp_reads wp_if wp_ret wp_stat_of)
  next
    assume m: "m = recover_upload E row"
    show ?thesis
      unfolding m recover_upload_def with_row_file_def converge_uploaded_def hash_file_def
      using after landed assms(2,3) f healthyD(1) [OF assms(1)]
      by (simp add: wp_bindm [of "reads (\<lambda>s. node_at E s full)"] wp_bindm [of "reads (\<lambda>s. is_suppressed E s _)"]
          wp_bindm [of "stat_of E full"] wp_bindm [of "if _ then _ else _"] wp_bindm [of "bindm _ _"]
          wp_bindm [of "try_catch _ _"] wp_bindm [of "ret _"] wp_reads wp_if wp_ret wp_throw wp_stat_of wp_try_catch
          wp_thenm wp_db_upsert key ready_def)
  qed
qed

definition swept :: "env \<Rightarrow> file_rec list \<Rightarrow> engine \<Rightarrow> engine \<Rightarrow> bool" where
  "swept E rows s s' \<longleftrightarrow> (ready s \<longrightarrow> ready s') \<and>
     (\<forall>k. k \<notin> row_key ` set rows \<longrightarrow> get_file (e_db s') k = get_file (e_db s) k \<and>
        (\<forall>c. deliverable E s k c \<longrightarrow> deliverable E s' k c)) \<and>
     (\<forall>row \<in> set rows. \<forall>c. deliverable E s (row_key row) c \<longrightarrow> synced_at E (row_key row) c s')"

lemma deliverable_only_row: "only_row k s s' \<Longrightarrow> deliverable E s k' c \<Longrightarrow> deliverable E s' k' c"
  by (auto simp: only_row_def deliverable_def is_suppressed_def supp_key_def node_at_def)

lemma synced_other_row: "get_file (e_db s') k = get_file (e_db s) k \<Longrightarrow> synced_at E k c s' = synced_at E k c s"
  by (simp add: synced_at_def)

lemma sweep_rows:
  assumes "healthy E" and f: "f = recover_upload E \<or> f = recover_stranded_new E"
  shows "ready s \<Longrightarrow> \<forall>row \<in> set rows. row_key row \<noteq> [] \<Longrightarrow> distinct (map row_key rows) \<Longrightarrow>
     wp (for_each loop_off rows f) (\<lambda>_. swept E rows s) (\<lambda>_ _. False) s"
proof (induction rows arbitrary: s)
  case Nil
  then show ?case by (simp add: wp_rules swept_def)
next
  case (Cons row rows)
  from f have m: "f row = recover_upload E row \<or> f row = recover_stranded_new E row" by auto
  have on: "\<not> loop_off s" using Cons.prems(1) by (simp add: loop_off_def ready_def)
  have rest: "wp (for_each loop_off rows f) (\<lambda>_. swept E (row # rows) s) (\<lambda>_ _. False) s1" if d: "row_done E row s s1" for s1
  proof -
    from d have o: "only_row (row_key row) s s1" by (simp add: row_done_def)
    with Cons.prems have "ready s1" by (simp add: only_row_def)
    with Cons have ih: "wp (for_each loop_off rows f) (\<lambda>_. swept E rows s1) (\<lambda>_ _. False) s1" by simp
    have "swept E (row # rows) s s2" if w: "swept E rows s1 s2" for s2
    proof -
      from Cons.prems(3) have fresh: "row_key row \<notin> row_key ` set rows" by simp
      with w have kept: "get_file (e_db s2) (row_key row) = get_file (e_db s1) (row_key row)" by (simp add: swept_def)
      from d w o kept Cons.prems show ?thesis
        by (auto simp: swept_def row_done_def only_row_def synced_other_row [OF kept]
            dest: deliverable_only_row [OF o])
    qed
    then show ?thesis by (auto intro: wp_conseq [OF ih])
  qed
  have "wp (f row) (\<lambda>_. row_done E row s) (\<lambda>_ _. False) s"
    using healthy_recover [OF assms(1) Cons.prems(1) _ m] Cons.prems(2) by simp
  then have "wp (f row) (\<lambda>_ s1. wp (for_each loop_off rows f) (\<lambda>_. swept E (row # rows) s) (\<lambda>_ _. False) s1) (\<lambda>_ _. False) s"
    by (rule wp_conseq) (auto intro: rest)
  then show ?case using on by (simp add: wp_for_each_Cons del: for_each.simps)
qed

lemma status_rows:
  assumes "db_ok d"
  shows "distinct (map row_key (get_files_by_status d st))" "\<forall>r \<in> set (get_files_by_status d st). row_key r \<noteq> []"
    "distinct (map row_key (filter P (get_files_by_status d st)))"
  using assms by (auto simp: db_ok_def get_files_by_status_def row_ok_def distinct_map_filter)

text \<open>Property C20: a stranded upload gets through. When the reconcile sweep runs on a connected engine whose
  pool is idle, and the server stores what it is sent, every row left as pending upload and every new
  file whose first upload failed ends up synced with the digest of the bytes on disk, provided its
  file can be read, was not rejected for good and is not in use by another transfer.\<close>

theorem stranded_uploads_converge:
  assumes "healthy E" and "ready s" and "\<not> pool_busy s" and "db_ok (e_db s)"
    and "row \<in> set (db_files (e_db s))"
    and "fstatus row = Val PendingUpload \<or> fstatus row = Val ErrorSt \<and> never_uploaded row"
    and "deliverable E s (row_key row) c"
  shows "synced_at E (row_key row) c (final (recover_pending_uploads E) s)"
proof -
  let ?k = "row_key row"
  let ?up = "get_files_by_status (e_db s) PendingUpload"
  let ?new = "filter never_uploaded (get_files_by_status (e_db s) ErrorSt)"
  from assms(4) have one: "r = r'" if "r \<in> set (db_files (e_db s))" "r' \<in> set (db_files (e_db s))" "row_key r = row_key r'"
    for r r' using that by (auto simp: db_ok_def distinct_map inj_on_def)
  have member: "row \<in> set ?up \<and> ?k \<notin> row_key ` set ?new \<or> row \<in> set ?new \<and> ?k \<notin> row_key ` set ?up"
  proof -
    have "row_key x \<noteq> row_key y" if "x \<in> set ?up" "y \<in> set ?new" for x y
      using that one [of x y] by (auto simp: get_files_by_status_def)
    moreover have "row \<in> set ?up \<or> row \<in> set ?new" using assms(5,6) by (auto simp: get_files_by_status_def)
    ultimately show ?thesis by (metis (no_types, lifting) image_iff)
  qed
  have second: "wp (for_each loop_off ?new (recover_stranded_new E)) (\<lambda>_. synced_at E ?k c) (\<lambda>_ _. False) s1"
    if w: "swept E ?up s s1" for s1
  proof -
    from w assms(2) have r: "ready s1" by (simp add: swept_def)
    have "synced_at E ?k c s2" if w2: "swept E ?new s1 s2" for s2
      using member
    proof
      assume a: "row \<in> set ?up \<and> ?k \<notin> row_key ` set ?new"
      with w assms(7) have "synced_at E ?k c s1" by (simp add: swept_def)
      with a w2 show ?thesis using synced_other_row [of s2 ?k s1 E c] by (simp add: swept_def)
    next
      assume a: "row \<in> set ?new \<and> ?k \<notin> row_key ` set ?up"
      with w assms(7) have "deliverable E s1 ?k c" by (simp add: swept_def)
      with a w2 show ?thesis by (simp add: swept_def)
    qed
    moreover have "wp (for_each loop_off ?new (recover_stranded_new E)) (\<lambda>_. swept E ?new s1) (\<lambda>_ _. False) s1"
      using status_rows [OF assms(4)] by (intro sweep_rows [OF assms(1) _ r]) auto
    ultimately show ?thesis by (auto elim: wp_conseq)
  qed
  have first: "wp (for_each loop_off ?up (recover_upload E)) (\<lambda>_. swept E ?up s) (\<lambda>_ _. False) s"
    using sweep_rows [OF assms(1) _ assms(2), of "recover_upload E" ?up] status_rows [OF assms(4)] by simp
  have "wp (for_each loop_off ?up (recover_upload E)) (\<lambda>_. wp (for_each loop_off ?new (recover_stranded_new E))
      (\<lambda>_. synced_at E ?k c) (\<lambda>_. synced_at E ?k c)) (\<lambda>_. synced_at E ?k c) s"
    by (rule wp_conseq [OF first]) (auto intro: wp_conseq [OF second])
  then have "wp (recover_pending_uploads E) (\<lambda>_. synced_at E ?k c) (\<lambda>_. synced_at E ?k c) s"
    using assms(2,3) healthyD(1) [OF assms(1)]
    by (simp add: recover_pending_uploads_def try_enumerate_def wp_bindm wp_reads wp_if wp_try_catch wp_db_read
        wp_ret wp_thenm sweep_off_def ready_def del: for_each.simps)
  then show ?thesis by (rule wp_final)
qed

definition stranded_engine :: engine where
  "stranded_engine = idle_engine\<lparr>e_disk := [''/d/a'' \<mapsto> RegFile ''x'' 1],
     e_db := \<lparr>db_open = True, db_files = [bind_row (empty_rec\<lparr>rel_path := Val ''a'', local_checksum := Val ''hx'',
        fstatus := Val PendingUpload\<rparr>)], db_meta = []\<rparr>\<rparr>"

definition storing_env :: env where
  "storing_env = plain_env\<lparr>digest_of := (\<lambda>c. ''h'' @ c),
     upload_reply_of := (\<lambda>_ c. UploadOk (Val ''7'') (Val (''h'' @ the c)) (Val 1))\<rparr>"

lemma stranded_uploads_converge_witness:
  "synced_at storing_env ''a'' ''x'' (final (recover_pending_uploads storing_env) stranded_engine)"
proof -
  let ?row = "bind_row (empty_rec\<lparr>rel_path := Val ''a'', local_checksum := Val ''hx'', fstatus := Val PendingUpload\<rparr>)"
  have "synced_at storing_env (row_key ?row) ''x'' (final (recover_pending_uploads storing_env) stranded_engine)"
  proof (rule stranded_uploads_converge)
    show "db_ok (e_db stranded_engine)"
      by (simp add: stranded_engine_def db_ok_def row_ok_bind_row)
    show "deliverable storing_env stranded_engine (row_key ?row) ''x''"
      by (simp add: deliverable_def stranded_engine_def storing_env_def idle_engine_def plain_env_def is_suppressed_def
          safe_local_path_def node_at_def row_key.simps bind_row_def)
  qed (simp_all add: healthy_def storing_env_def plain_env_def ready_def pool_busy_def stranded_engine_def
      idle_engine_def bind_row_def)
  then show ?thesis by (simp add: row_key.simps bind_row_def)
qed

section \<open>Re-downloads\<close>



section \<open>The wedge redial\<close>

text \<open>The redial that gets a wedged catch-up moving is safe. It changes nothing in the database,
  so the cursor it reconnects with is the stored one; and it happens only during catch-up, after this
  sweep landed a transfer, with nothing pending or failed left, no handler or download running, a tip
  above the cursor, and no failed event above the cursor that it would skip again.\<close>

theorem wedge_redial_safe:
  "e_db (final (recover_catch_up_wedge E landed) s) = e_db s \<and>
   (final (recover_catch_up_wedge E landed) s = s \<or>
    final (recover_catch_up_wedge E landed) s =
      s\<lparr>e_state := StConnecting, e_effects := e_effects s @ [EWsClose, EWsConnect (last_seq s)], e_ws_since := last_seq s\<rparr> \<and>
    e_state s = StCatchingUp \<and> landed > 0 \<and> unlanded (e_db s) = 0 \<and> e_catch_up_pending s \<le> 0 \<and>
    e_active_downloads s = 0 \<and> last_seq s < e_tip_seq s \<and> e_lowest_unapplied s \<le> max 0 (last_seq s))"
proof -
  let ?P = "\<lambda>s'. e_db s' = e_db s \<and> (s' = s \<or>
      s' = s\<lparr>e_state := StConnecting, e_effects := e_effects s @ [EWsClose, EWsConnect (last_seq s)], e_ws_since := last_seq s\<rparr> \<and>
      e_state s = StCatchingUp \<and> landed > 0 \<and> unlanded (e_db s) = 0 \<and> e_catch_up_pending s \<le> 0 \<and>
      e_active_downloads s = 0 \<and> last_seq s < e_tip_seq s \<and> e_lowest_unapplied s \<le> max 0 (last_seq s))"
  have "wp (recover_catch_up_wedge E landed) (\<lambda>_. ?P) (\<lambda>_. ?P) s"
    by (auto simp: recover_catch_up_wedge_def try_enumerate_def wp_rules last_seq_def)
  from wp_final [OF this] show ?thesis .
qed

end
