(* ===== verification/Folder_Walk.thy ===== *)
theory Folder_Walk
  imports Engine_Upload
begin

text \<open>
  The folder as \<open>readdir\<close> shows it, and the two walks over it: \<open>_walkDir\<close>, which lists what may be
  uploaded, and \<open>_cleanupTempFiles\<close>, which removes the temporary files of interrupted downloads. A
  listing is a tree that is separate from the disk the handlers read, because both walks finish before
  the first handler runs.
\<close>

section \<open>Code\<close>

text \<open>A directory whose \<open>readdir\<close> throws has no listing; a link or a socket is neither file nor directory.\<close>

datatype entry =
    FileEntry (entry_name: string)
  | DirEntry (entry_name: string) (listing: "entry list option")
  | LinkEntry (entry_name: string)
  | OtherEntry (entry_name: string)

definition join_rel :: "string \<Rightarrow> string \<Rightarrow> string" where
  "join_rel dir n = (if dir = [] then n else dir @ slash # n)"

definition full_of :: "env \<Rightarrow> string \<Rightarrow> path" where
  "full_of E raw = sync_folder E @ slash # raw"

text \<open>\<open>replace(/\\/g, '/')\<close> of a path relative to the folder.\<close>

definition wire_rel :: "string \<Rightarrow> string" where
  "wire_rel raw = fold_sep backslash raw"

definition is_hex :: "char \<Rightarrow> bool" where
  "is_hex c \<longleftrightarrow> c \<in> set ''0123456789abcdef''"

text \<open>\<open>/\.tmp\.[0-9a-f]{8,}$/\<close>: the run of hex digits at the end is as long as it can be.\<close>

definition is_temp_name :: "string \<Rightarrow> bool" where
  "is_temp_name n \<longleftrightarrow> length (takeWhile is_hex (rev n)) \<ge> 8 \<and>
     starts_with (dropWhile is_hex (rev n)) (rev ''.tmp.'')"

text \<open>\<open>_walkDir\<close>; \<open>ign\<close> is the watcher's \<open>isIgnored\<close>. A directory that cannot be read fails the walk.\<close>

fun walk_dir :: "(string \<Rightarrow> bool) \<Rightarrow> string \<Rightarrow> entry list \<Rightarrow> string list option" where
  "walk_dir ign dir [] = Some []"
| "walk_dir ign dir (FileEntry n # es) =
     (if is_temp_name n then walk_dir ign dir es
      else map_option ((#) (join_rel dir n)) (walk_dir ign dir es))"
| "walk_dir ign dir (DirEntry n cs # es) =
     (if ign (wire_rel (join_rel dir n)) then walk_dir ign dir es
      else (case cs of
          None \<Rightarrow> None
        | Some sub \<Rightarrow> (case walk_dir ign (join_rel dir n) sub of
            None \<Rightarrow> None
          | Some below \<Rightarrow> map_option ((@) below) (walk_dir ign dir es))))"
| "walk_dir ign dir (_ # es) = walk_dir ign dir es"

text \<open>The names \<open>_cleanupTempFiles\<close> unlinks: in every readable real directory, whatever the patterns say.\<close>

fun temp_files :: "string \<Rightarrow> entry list \<Rightarrow> string list" where
  "temp_files dir [] = []"
| "temp_files dir (FileEntry n # es) =
     (if is_temp_name n then join_rel dir n # temp_files dir es else temp_files dir es)"
| "temp_files dir (DirEntry n cs # es) =
     (case cs of None \<Rightarrow> temp_files dir es
      | Some sub \<Rightarrow> temp_files (join_rel dir n) sub @ temp_files dir es)"
| "temp_files dir (_ # es) = temp_files dir es"

definition unlink_once :: "env \<Rightarrow> path \<Rightarrow> unit eng" where
  "unlink_once E full = bindm (reads (\<lambda>s. node_at E s full)) (\<lambda>n.
     if n = None \<or> unlink_code E full 0 \<noteq> None then ret ()
     else thenm (modifies (\<lambda>s. s\<lparr>e_disk := remove_node (disk_key E full) (e_disk s)\<rparr>)) (emit (EUnlink full)))"

definition cleanup_temp_files :: "env \<Rightarrow> entry list option \<Rightarrow> unit eng" where
  "cleanup_temp_files E root = (case root of
     None \<Rightarrow> ret ()
   | Some es \<Rightarrow> for_each (\<lambda>_. False) (temp_files [] es) (\<lambda>raw. unlink_once E (full_of E raw)))"

section \<open>What a walk finds\<close>

text \<open>
  The files that are there: the path of directory names that leads to one, from the root of the
  listing, with the predicate every directory on the way passes.
\<close>

inductive holds_file :: "(string \<Rightarrow> bool) \<Rightarrow> string \<Rightarrow> entry list \<Rightarrow> string \<Rightarrow> string \<Rightarrow> bool"
  for enter :: "string \<Rightarrow> bool" where
  here: "FileEntry n \<in> set es \<Longrightarrow> holds_file enter dir es (join_rel dir n) n"
| below: "DirEntry d (Some sub) \<in> set es \<Longrightarrow> enter (join_rel dir d) \<Longrightarrow>
    holds_file enter (join_rel dir d) sub p n \<Longrightarrow> holds_file enter dir es p n"

lemma holds_file_iff:
  "holds_file enter dir es p n \<longleftrightarrow> FileEntry n \<in> set es \<and> p = join_rel dir n \<or>
     (\<exists>d sub. DirEntry d (Some sub) \<in> set es \<and> enter (join_rel dir d) \<and>
        holds_file enter (join_rel dir d) sub p n)"
  by (subst holds_file.simps) auto

inductive_simps holds_file_Nil [simp]: "holds_file enter dir [] p n"

lemma holds_file_Cons [simp]:
  "holds_file enter dir (FileEntry m # es) p n \<longleftrightarrow> p = join_rel dir m \<and> n = m \<or> holds_file enter dir es p n"
  "holds_file enter dir (LinkEntry m # es) p n \<longleftrightarrow> holds_file enter dir es p n"
  "holds_file enter dir (OtherEntry m # es) p n \<longleftrightarrow> holds_file enter dir es p n"
  "holds_file enter dir (DirEntry d None # es) p n \<longleftrightarrow> holds_file enter dir es p n"
  "holds_file enter dir (DirEntry d (Some sub) # es) p n \<longleftrightarrow>
     enter (join_rel dir d) \<and> holds_file enter (join_rel dir d) sub p n \<or> holds_file enter dir es p n"
  unfolding holds_file_iff [of enter dir "_ # es"] holds_file_iff [of enter dir es] by auto

lemma temp_files_iff:
  "p \<in> set (temp_files dir es) \<longleftrightarrow> (\<exists>n. holds_file (\<lambda>_. True) dir es p n \<and> is_temp_name n)"
  by (induction dir es rule: temp_files.induct) (auto split: option.split)

lemma walk_dir_iff:
  "walk_dir ign dir es = Some ps \<Longrightarrow>
   p \<in> set ps \<longleftrightarrow> (\<exists>n. holds_file (\<lambda>d. \<not> ign (wire_rel d)) dir es p n \<and> \<not> is_temp_name n)"
proof (induction ign dir es arbitrary: ps rule: walk_dir.induct)
  case (3 ign dir n cs es)
  then show ?case
    by (cases cs) (auto split: if_splits option.splits)
qed (auto split: if_splits)

end
