(* ===== verification/Folder_Scan.thy ===== *)
theory Folder_Scan
  imports Folder_Walk Recovery Server_Events
begin

text \<open>
  The scans that compare the folder with the tracked rows: the rescan after the watcher was down
  (\<open>_localRescan\<close>), the first sync of a bundle (\<open>_initialSync\<close>) and its upload of what the server
  does not have (\<open>_scanLocalForUpload\<close>). The watcher and the engine hold the same patterns and the
  same case folding, so the watcher's \<open>shouldSync\<close> is the engine's. The pool's uploads run one after
  the other here, which is one of the interleavings the pool allows.
\<close>

section \<open>Rescan\<close>

definition out_of_scope :: "env \<Rightarrow> engine \<Rightarrow> string \<Rightarrow> bool" where
  "out_of_scope E s rel \<longleftrightarrow> e_watcher s \<and> \<not> in_scope E s rel"

definition scan_rel :: "env \<Rightarrow> string \<Rightarrow> string" where
  "scan_rel E raw = canon_rel E (wire_rel raw)"

text \<open>One listed file; the result is what goes into \<open>onDisk\<close>.\<close>

definition rescan_file :: "env \<Rightarrow> string \<Rightarrow> string list eng" where
  "rescan_file E raw = (let rel = scan_rel E raw; full = full_of E raw in
     bindm (reads (\<lambda>s. out_of_scope E s rel \<or> is_suppressed E s rel)) (\<lambda>skip.
       if skip then ret []
       else bindm (stat_of E full) (\<lambda>st. case st of
           Some (RegFile c t) \<Rightarrow> bindm (try_hash E full) (\<lambda>h.
             if h = Null then ret [rel]
             else bindm (lookup_tracked E rel) (\<lambda>row.
               if map_option local_checksum row = Some h then ret [rel]
               else thenm (handle_local_modify E rel full (Val (node_size (RegFile c t))) (Val t)) (ret [rel])))
         | _ \<Rightarrow> ret [])))"

fun rescan_files :: "env \<Rightarrow> string list \<Rightarrow> string list \<Rightarrow> string list eng" where
  "rescan_files E [] seen = ret seen"
| "rescan_files E (raw # raws) seen = bindm (reads loop_off) (\<lambda>off.
     if off then ret seen
     else bindm (rescan_file E raw) (\<lambda>found. rescan_files E raws (seen @ found)))"

text \<open>A synced row without a file: the delete the watcher missed.\<close>

definition rescan_missing :: "env \<Rightarrow> string list \<Rightarrow> file_rec \<Rightarrow> unit eng" where
  "rescan_missing E seen row = (let rel = canon_rel E (row_key row) in
     if rel \<in> set seen then ret ()
     else bindm (reads (\<lambda>s. out_of_scope E s rel \<or> is_suppressed E s rel)) (\<lambda>skip.
       if skip then ret ()
       else bindm (stat_of E (full_of E rel)) (\<lambda>st.
         if st \<noteq> None then ret () else handle_local_delete E rel)))"

definition synced_rows :: "env \<Rightarrow> file_rec list eng" where
  "synced_rows E = bindm (try_enumerate E (\<lambda>d. get_files_by_status d Synced))
     (\<lambda>rows. ret (case rows of None \<Rightarrow> [] | Some rs \<Rightarrow> rs))"

definition local_rescan :: "env \<Rightarrow> string list option \<Rightarrow> unit eng" where
  "local_rescan E listed = bindm (reads sweep_off) (\<lambda>off.
     if off then ret ()
     else (case listed of
         None \<Rightarrow> ret ()
       | Some raws \<Rightarrow> bindm (rescan_files E raws []) (\<lambda>seen.
           bindm (synced_rows E) (\<lambda>rows. for_each loop_off rows (rescan_missing E seen)))))"

section \<open>First sync\<close>

record server_file =
  sf_id :: "string jsv"
  sf_rel :: "string jsv"
  sf_checksum :: "string jsv"
  sf_size :: "int jsv"
  sf_seq :: "int jsv"

text \<open>\<open>getBundleMetadata\<close>: a body with or without a file list, or a failure with its status.\<close>

datatype bundle_meta = MetaFiles "server_file list" | MetaNoFiles | MetaFailed int

fun hash_all :: "env \<Rightarrow> path list \<Rightarrow> (path \<times> string jsv) list eng" where
  "hash_all E [] = ret []"
| "hash_all E (p # ps) = bindm (try_hash E p) (\<lambda>h. bindm (hash_all E ps) (\<lambda>hs. ret ((p, h) # hs)))"

definition wanted_files :: "env \<Rightarrow> engine \<Rightarrow> server_file list \<Rightarrow> server_file list" where
  "wanted_files E s fs = (if e_include s = [] \<and> e_ignore s = [] then fs
     else filter (\<lambda>f. in_scope E s (jsstr (sf_rel f))) fs)"

definition present_paths :: "env \<Rightarrow> engine \<Rightarrow> server_file list \<Rightarrow> path list" where
  "present_paths E s fs = concat (map (\<lambda>f. case safe_path E (identity_key E (sf_rel f)) of
     None \<Rightarrow> [] | Some full \<Rightarrow> if exists_on_disk E s full then [full] else []) fs)"

definition adopted_row :: "file_rec option \<Rightarrow> string \<Rightarrow> server_file \<Rightarrow> string jsv \<Rightarrow> file_rec" where
  "adopted_row existing rel f chk = (spread existing rel)\<lparr>server_file_id := sf_id f, local_checksum := chk,
     server_checksum := sf_checksum f, fsize := sf_size f, server_seq := num_or (sf_seq f) (Val 0),
     fstatus := Val Synced\<rparr>"

definition expected_row :: "string \<Rightarrow> server_file \<Rightarrow> file_rec" where
  "expected_row rel f = empty_rec\<lparr>rel_path := Val rel, server_file_id := sf_id f,
     server_checksum := sf_checksum f, fsize := sf_size f, server_seq := num_or (sf_seq f) (Val 0),
     fstatus := Val PendingDownload\<rparr>"

definition initial_file :: "env \<Rightarrow> (path \<times> string jsv) list \<Rightarrow> server_file \<Rightarrow> unit eng" where
  "initial_file E hashes f = (let key = identity_key E (sf_rel f); rel = jsstr key in
     case safe_path E key of
       None \<Rightarrow> ret ()
     | Some full \<Rightarrow> bindm (validate_server_path E key Undef) (\<lambda>valid.
         if \<not> valid then ret ()
         else let chk = (case map_of hashes full of None \<Rightarrow> Null | Some h \<Rightarrow> str_or h Null) in
           if str_truthy chk \<and> chk = sf_checksum f
           then bindm (db_read E (\<lambda>d. get_file d rel)) (\<lambda>existing.
                  db_upsert E (adopted_row existing rel f chk))
           else do_all [
             whenm (str_truthy chk \<and> chk \<noteq> sf_checksum f)
               (maybe_save_conflict_copy E full (sf_checksum f) Undef),
             db_upsert E (expected_row rel f),
             thenm (engine_download E rel (sf_id f) (sf_checksum f) (sf_size f)) (ret ())]))"

text \<open>What \<open>_scanLocalForUpload\<close> takes from the listing.\<close>

definition upload_candidates :: "env \<Rightarrow> engine \<Rightarrow> server_file list \<Rightarrow> string list \<Rightarrow> (string \<times> path \<times> node) list" where
  "upload_candidates E s fs raws = concat (map (\<lambda>raw. let rel = scan_rel E raw in
     if out_of_scope E s rel \<or> Val rel \<in> (\<lambda>f. identity_key E (sf_rel f)) ` set fs then []
     else (case node_at E s (full_of E raw) of
         Some (RegFile c t) \<Rightarrow> [(rel, full_of E raw, RegFile c t)]
       | _ \<Rightarrow> [])) raws)"

definition upload_candidate :: "env \<Rightarrow> (string \<times> path \<times> node) \<times> string jsv \<Rightarrow> unit eng" where
  "upload_candidate E x = (case x of ((rel, full, st), h) \<Rightarrow>
     if \<not> str_truthy h then ret ()
     else bindm (db_read E (\<lambda>d. get_file d rel)) (\<lambda>row.
       if map_option local_checksum row = Some h then ret ()
       else queue_upload E row rel full (jsstr h) (Val (node_size st)) (Val (node_mtime st))))"

definition scan_local_for_upload :: "env \<Rightarrow> server_file list \<Rightarrow> string list option \<Rightarrow> unit eng" where
  "scan_local_for_upload E fs listed = (case listed of
     None \<Rightarrow> throw (FsExn ''EACCES'')
   | Some raws \<Rightarrow> bindm (reads (\<lambda>s. upload_candidates E s fs raws)) (\<lambda>todo.
       bindm (hash_all E (map (fst \<circ> snd) todo)) (\<lambda>hashes.
         for_each (\<lambda>_. False) (zip todo (map snd hashes)) (upload_candidate E))))"

text \<open>The body of the \<open>try\<close>; the listing is what the walk finds after the downloads.\<close>

definition initial_attempt :: "env \<Rightarrow> bundle_meta \<Rightarrow> (engine \<Rightarrow> string list option) \<Rightarrow> unit eng" where
  "initial_attempt E meta listed = (case meta of
     MetaFailed status \<Rightarrow> throw (HttpExn False status)
   | _ \<Rightarrow> bindm (reads (\<lambda>s. wanted_files E s (case meta of MetaFiles fs \<Rightarrow> fs | _ \<Rightarrow> []))) (\<lambda>files.
       bindm (reads (\<lambda>s. present_paths E s files)) (\<lambda>present.
         bindm (hash_all E present) (\<lambda>hashes.
           thenm (for_each (\<lambda>_. False) files (initial_file E hashes))
             (bindm (reads listed) (scan_local_for_upload E files))))))"

definition initial_sync :: "env \<Rightarrow> bundle_meta \<Rightarrow> (engine \<Rightarrow> string list option) \<Rightarrow> unit eng" where
  "initial_sync E meta listed = try_catch (initial_attempt E meta listed) (\<lambda>e. case e of
     HttpExn _ status \<Rightarrow>
       if status = 401 \<or> status = 403 then thenm (set_state StError) (emit EAuthError) else ret ()
   | _ \<Rightarrow> ret ())"

end
