(* ===== verification/Scan_Safety.thy ===== *)
theory Scan_Safety
  imports Folder_Scan Local_Rows Event_Safety
begin

text \<open>
  What the walks and scans guarantee: the walk lists exactly the files that may be uploaded, the boot
  cleanup removes exactly the names it takes for temporary files, the rescan buffers a delete only for
  a file that is absent, and the first sync keeps the bytes it could hash, and only those.
\<close>

section \<open>Walks\<close>

text \<open>Property C34: a walk that succeeds lists exactly the regular files below the folder that are reached
  through real directories no pattern ignores, links excluded, and none whose name has the form of
  the client's own temporary files.\<close>

theorem walk_lists_uploadable:
  assumes "walk_dir ign [] root = Some listed"
  shows "p \<in> set listed \<longleftrightarrow>
    (\<exists>n. holds_file (\<lambda>d. \<not> ign (wire_rel d)) [] root p n \<and> \<not> is_temp_name n)"
  by (rule walk_dir_iff) (rule assms)

lemma walk_lists_uploadable_witness:
  "''src/b'' \<in> set [''a'', ''src/b''] \<longleftrightarrow>
   (\<exists>n. holds_file (\<lambda>d. wire_rel d \<noteq> ''skip'') []
      [FileEntry ''a'', LinkEntry ''l'', DirEntry ''skip'' None, DirEntry ''src'' (Some [FileEntry ''b''])] ''src/b'' n \<and>
      \<not> is_temp_name n)"
  by (rule walk_lists_uploadable [where ign = "\<lambda>d. d = ''skip''", simplified])
    (simp add: wire_rel_def fold_sep_def join_rel_def is_temp_name_def is_hex_def)

text \<open>The boot cleanup takes a user's file for one of its own temporary files when the name
  ends in \<open>.tmp.\<close> and eight or more digits, as a dated backup does, and unlinks it although the
  client never wrote it.\<close>

theorem cleanup_deletes_user_file:
  assumes "node_at E s (full_of E ''notes.tmp.20240131'') \<noteq> None"
    and "unlink_code E (full_of E ''notes.tmp.20240131'') 0 = None"
  shows "node_at E (final (cleanup_temp_files E (Some [FileEntry ''notes.tmp.20240131''])) s)
      (full_of E ''notes.tmp.20240131'') = None"
proof -
  let ?n = "''notes.tmp.20240131''"
  have "is_temp_name ?n" by code_simp
  then have "temp_files [] [FileEntry ?n] = [?n]" by (simp add: join_rel_def)
  with assms have "wp (cleanup_temp_files E (Some [FileEntry ?n])) (\<lambda>_ s'. node_at E s' (full_of E ?n) = None)
      (\<lambda>_ s'. node_at E s' (full_of E ?n) = None) s"
    by (simp add: cleanup_temp_files_def unlink_once_def wp_rules node_at_def remove_node_def del: temp_files.simps)
  then show ?thesis by (rule wp_final)
qed

lemma cleanup_deletes_user_file_witness:
  "let s = idle_engine\<lparr>e_disk := [''/d/notes.tmp.20240131'' \<mapsto> RegFile ''mine'' 1]\<rparr>
   in node_at plain_env (final (cleanup_temp_files plain_env (Some [FileEntry ''notes.tmp.20240131''])) s)
        ''/d/notes.tmp.20240131'' = None"
  using cleanup_deletes_user_file [of plain_env "idle_engine\<lparr>e_disk := [''/d/notes.tmp.20240131'' \<mapsto> RegFile ''mine'' 1]\<rparr>"]
  by (simp add: full_of_def plain_env_def node_at_def)

section \<open>The rescan\<close>

abbreviation pending_keys :: "engine \<Rightarrow> string set" where
  "pending_keys s \<equiv> fst ` set (e_pending_deletes s)"

definition absent_or_old :: "env \<Rightarrow> engine \<Rightarrow> engine \<Rightarrow> bool" where
  "absent_or_old E s0 s \<longleftrightarrow> (\<forall>k \<in> pending_keys s. k \<in> pending_keys s0 \<or>
     node_at E s (full_of E k) = None \<and> sync_root_readable E)"

lemma keeps_old_keys:
  "keeps (\<lambda>s. fst ` set (e_pending_deletes s) \<subseteq> K) (rescan_file E raw)"
proof -
  let ?P = "\<lambda>pds :: (string \<times> pending_delete) list. fst ` set pds \<subseteq> K"
  have modify: "keeps (\<lambda>s. ?P (e_pending_deletes s)) (handle_local_modify E p f z m)" for p f z m
    unfolding handle_local_modify_def
    by (intro keeps_rules keeps_modify_locked [where P = ?P]) (auto simp: AList.delete_eq)
  have quiet: "keeps (\<lambda>s. ?P (e_pending_deletes s)) (stat_of E p)" "keeps (\<lambda>s. ?P (e_pending_deletes s)) (try_hash E p)"
    "keeps (\<lambda>s. ?P (e_pending_deletes s)) (lookup_tracked E r)" for p r
    by (rule keeps_stable, intro stable_intros)+
  show ?thesis
    unfolding rescan_file_def Let_def
    by (auto intro!: keeps_bindm keeps_if keeps_thenm keeps_ret keeps_reads modify quiet
        split: option.split node.split)
qed

lemma keeps_rescan_files: "keeps (\<lambda>s. fst ` set (e_pending_deletes s) \<subseteq> K) (rescan_files E raws seen)"
  by (induction raws arbitrary: seen) (auto intro!: keeps_bindm keeps_if keeps_ret keeps_reads keeps_old_keys)

lemma fst_update: "fst ` set (AList.update k v xs) = insert k (fst ` set xs)"
  using AList.dom_update [of k v xs] by simp

lemma keeps_missing:
  assumes "\<And>p. canon_rel E (canon_rel E p) = canon_rel E p"
  shows "keeps (absent_or_old E s0) (rescan_missing E seen row)"
  unfolding rescan_missing_def Let_def handle_local_delete_def assms
  by (rule keepsI) (auto simp: wp_rules absent_or_old_def node_at_def fst_update split: option.split)


definition synced_engine :: engine where
  "synced_engine = idle_engine\<lparr>e_db := \<lparr>db_open = True, db_files = [empty_rec\<lparr>rel_path := Val ''a'',
     server_file_id := Val ''7'', local_checksum := Val ''x'', server_checksum := Val ''x'',
     fstatus := Val Synced\<rparr>], db_meta = []\<rparr>\<rparr>"


section \<open>The first sync\<close>

lemma hash_all_value:
  "wp (hash_all E ps) Q R s = Q (map (\<lambda>p. (p, case node_at E s p of
      Some (RegFile c _) \<Rightarrow> if hash_fails E p then Null else Val (digest_of E c) | _ \<Rightarrow> Null)) ps) s"
  by (induction ps arbitrary: Q) (simp_all add: wp_rules)

text \<open>The hashes the first sync took before it began to download.\<close>

definition hashes_now :: "env \<Rightarrow> engine \<Rightarrow> (path \<times> string jsv) list \<Rightarrow> bool" where
  "hashes_now E s hashes \<longleftrightarrow> (\<forall>full. map_of hashes full = (if exists_on_disk E s full then Some (case node_at E s full of
      Some (RegFile c _) \<Rightarrow> if hash_fails E full then Null else Val (digest_of E c) | _ \<Rightarrow> Null) else None))"


definition listed_file :: server_file where
  "listed_file = \<lparr>sf_id = Val ''7'', sf_rel = Val ''a'', sf_checksum = Val ''new'', sf_size = Val 3, sf_seq = Val 1\<rparr>"

definition edited_disk :: engine where
  "edited_disk = idle_engine\<lparr>e_disk := [''/d/a'' \<mapsto> RegFile ''mine'' 1]\<rparr>"


text \<open>The first sync overwrites a local file it could not read. Its conflict copy is made only
  when the file has a hash, so an unreadable or oversize file at the path of a listed one is replaced
  by the download, and its bytes are nowhere afterwards.\<close>

theorem initial_sync_overwrites_unhashable:
  "(let s' = final (initial_sync (serving_env\<lparr>hash_fails := (\<lambda>p. p = ''/d/a'')\<rparr>) (MetaFiles [listed_file]) (\<lambda>_. Some []))
              edited_disk
    in map (e_disk s') [''/d/a'', ''/d/a.conflict'', ''/d/a.tmp.0'']) = [Some (RegFile ''new'' 1), None, None]"
  by code_simp

end
