(* ===== verification/Path_Lock.thy ===== *)
theory Path_Lock
  imports Main
begin

text \<open>
  The per-path mutex (\<open>_withPathLock\<close>): the slots of \<open>_pathLocks\<close>, the FIFO mutex of the vendored
  framework they hold, and the operations that go through it. A client is one call of \<open>_withPathLock\<close>;
  between the release of the mutex and the \<open>finally\<close> block that reclaims the slot other calls run, so
  these are separate steps. Mutexes are objects on a heap, because the reclaiming step compares
  identities.
\<close>

section \<open>Code\<close>

type_synonym client = nat
type_synonym mutex_id = nat

record mutex =
  mx_held :: bool
  mx_waiters :: "client list"

datatype phase = Waiting | Running | Leaving

record lock_state =
  slots :: "string \<Rightarrow> mutex_id option"
  objects :: "mutex_id \<Rightarrow> mutex"
  next_id :: mutex_id
  calls :: "client \<Rightarrow> (string \<times> mutex_id \<times> phase) option"

definition no_locks :: lock_state where
  "no_locks = \<lparr>slots = Map.empty, objects = (\<lambda>_. \<lparr>mx_held = False, mx_waiters = []\<rparr>), next_id = 0, calls = Map.empty\<rparr>"

text \<open>Look the slot up, or create it.\<close>

definition find_slot :: "string \<Rightarrow> lock_state \<Rightarrow> mutex_id \<times> lock_state" where
  "find_slot k s = (case slots s k of
     Some m \<Rightarrow> (m, s)
   | None \<Rightarrow> (next_id s, s\<lparr>slots := (slots s)(k \<mapsto> next_id s),
       objects := (objects s)(next_id s := \<lparr>mx_held = False, mx_waiters = []\<rparr>), next_id := next_id s + 1\<rparr>))"

text \<open>The call and \<open>acquire\<close>, which run without an await in between.\<close>

definition enter :: "client \<Rightarrow> string \<Rightarrow> lock_state \<Rightarrow> lock_state" where
  "enter c k s = (case find_slot k s of (m, s) \<Rightarrow>
     let x = objects s m in
     if mx_held x
     then s\<lparr>objects := (objects s)(m := x\<lparr>mx_waiters := mx_waiters x @ [c]\<rparr>),
            calls := (calls s)(c \<mapsto> (k, m, Waiting))\<rparr>
     else s\<lparr>objects := (objects s)(m := x\<lparr>mx_held := True\<rparr>), calls := (calls s)(c \<mapsto> (k, m, Running))\<rparr>)"

text \<open>\<open>release\<close>: the mutex passes to the first waiter, or is free.\<close>

definition release :: "client \<Rightarrow> string \<Rightarrow> mutex_id \<Rightarrow> lock_state \<Rightarrow> lock_state" where
  "release c k m s = (let x = objects s m in case mx_waiters x of
     [] \<Rightarrow> s\<lparr>objects := (objects s)(m := x\<lparr>mx_held := False\<rparr>), calls := (calls s)(c \<mapsto> (k, m, Leaving))\<rparr>
   | w # ws \<Rightarrow> s\<lparr>objects := (objects s)(m := x\<lparr>mx_waiters := ws\<rparr>),
       calls := (calls s)(c \<mapsto> (k, m, Leaving), w \<mapsto> (k, m, Running))\<rparr>)"

text \<open>The \<open>finally\<close> block.\<close>

definition reclaim :: "client \<Rightarrow> string \<Rightarrow> mutex_id \<Rightarrow> lock_state \<Rightarrow> lock_state" where
  "reclaim c k m s = (let x = objects s m; s = s\<lparr>calls := (calls s)(c := None)\<rparr> in
     if \<not> mx_held x \<and> mx_waiters x = [] \<and> slots s k = Some m then s\<lparr>slots := (slots s)(k := None)\<rparr> else s)"

section \<open>Runs\<close>

inductive lock_step :: "lock_state \<Rightarrow> lock_state \<Rightarrow> bool" where
  entering: "calls s c = None \<Longrightarrow> lock_step s (enter c k s)"
| releasing: "calls s c = Some (k, m, Running) \<Longrightarrow> lock_step s (release c k m s)"
| reclaiming: "calls s c = Some (k, m, Leaving) \<Longrightarrow> lock_step s (reclaim c k m s)"

inductive_cases lock_stepE: "lock_step s s'"

abbreviation lock_reachable :: "lock_state \<Rightarrow> bool" where
  "lock_reachable \<equiv> lock_step\<^sup>*\<^sup>* no_locks"

section \<open>Invariant\<close>

text \<open>What a slot promises about its mutex: held exactly while one call runs, waited for in order.\<close>

definition slot_ok :: "lock_state \<Rightarrow> string \<Rightarrow> mutex_id \<Rightarrow> bool" where
  "slot_ok s k m \<longleftrightarrow>
     (\<exists>c ph. calls s c = Some (k, m, ph)) \<and>
     (mx_held (objects s m) \<longleftrightarrow> (\<exists>c. calls s c = Some (k, m, Running))) \<and>
     (\<not> mx_held (objects s m) \<longrightarrow> mx_waiters (objects s m) = []) \<and>
     (\<forall>c c'. calls s c = Some (k, m, Running) \<longrightarrow> calls s c' = Some (k, m, Running) \<longrightarrow> c = c') \<and>
     distinct (mx_waiters (objects s m)) \<and>
     (\<forall>c. c \<in> set (mx_waiters (objects s m)) \<longleftrightarrow> calls s c = Some (k, m, Waiting))"

definition lock_inv :: "lock_state \<Rightarrow> bool" where
  "lock_inv s \<longleftrightarrow>
     (\<forall>k m. slots s k = Some m \<longrightarrow> m < next_id s \<and> slot_ok s k m) \<and>
     (\<forall>c k m ph. calls s c = Some (k, m, ph) \<longrightarrow> m < next_id s \<and> (ph \<noteq> Leaving \<longrightarrow> slots s k = Some m)) \<and>
     (\<forall>c k m ph k'. calls s c = Some (k, m, ph) \<longrightarrow> slots s k' = Some m \<longrightarrow> k' = k)"

lemma lock_inv_init: "lock_inv no_locks"
  by (simp add: lock_inv_def no_locks_def)

lemma lock_invD:
  assumes "lock_inv s"
  shows "slots s k = Some m \<Longrightarrow> m < next_id s" "slots s k = Some m \<Longrightarrow> slot_ok s k m"
    "calls s c = Some (k, m, ph) \<Longrightarrow> m < next_id s"
    "calls s c = Some (k, m, ph) \<Longrightarrow> ph \<noteq> Leaving \<Longrightarrow> slots s k = Some m"
    "calls s c = Some (k, m, ph) \<Longrightarrow> slots s k' = Some m \<Longrightarrow> k' = k"
  using assms unfolding lock_inv_def by blast+

lemma slot_injective: "lock_inv s \<Longrightarrow> slots s k = Some m \<Longrightarrow> slots s k' = Some m \<Longrightarrow> k' = k"
  using lock_invD(2) [of s k m] lock_invD(5) [of s _ k m _ k'] by (auto simp: slot_ok_def)

lemma slot_ok_cong:
  "objects s' m = objects s m \<Longrightarrow> (\<And>c ph. calls s' c = Some (k, m, ph) \<longleftrightarrow> calls s c = Some (k, m, ph)) \<Longrightarrow>
   slot_ok s' k m = slot_ok s k m"
  by (simp add: slot_ok_def)

lemma lock_invI:
  assumes "\<And>k m. slots s k = Some m \<Longrightarrow> m < next_id s \<and> slot_ok s k m"
    and "\<And>c k m ph. calls s c = Some (k, m, ph) \<Longrightarrow> m < next_id s \<and> (ph \<noteq> Leaving \<longrightarrow> slots s k = Some m)"
    and "\<And>c k m ph k'. calls s c = Some (k, m, ph) \<Longrightarrow> slots s k' = Some m \<Longrightarrow> k' = k"
  shows "lock_inv s"
  using assms unfolding lock_inv_def by blast

lemma lock_inv_enter:
  assumes inv: "lock_inv s" and new: "calls s c = None"
  shows "lock_inv (enter c k s)"
proof (cases "slots s k")
  case None
  let ?s = "enter c k s"
  have e: "slots ?s = (slots s)(k \<mapsto> next_id s)" "calls ?s = (calls s)(c \<mapsto> (k, next_id s, Running))"
    "objects ?s = (objects s)(next_id s := \<lparr>mx_held = True, mx_waiters = []\<rparr>)" "next_id ?s = next_id s + 1"
    using None by (simp_all add: enter_def find_slot_def)
  have fresh: "calls s c' \<noteq> Some (k', next_id s, ph)" "slots s k' \<noteq> Some (next_id s)" for c' k' ph
    using lock_invD(1,3) [OF inv] by blast+
  show ?thesis
  proof (rule lock_invI)
    fix k' m assume m: "slots ?s k' = Some m"
    show "m < next_id ?s \<and> slot_ok ?s k' m"
    proof (cases "k' = k")
      case True
      with m fresh show ?thesis by (auto simp: e slot_ok_def)
    next
      case False
      with m have old: "slots s k' = Some m" by (simp add: e)
      with fresh have "m \<noteq> next_id s" by auto
      with old new False have "slot_ok ?s k' m = slot_ok s k' m" by (intro slot_ok_cong) (auto simp: e)
      with old lock_invD(1,2) [OF inv old] show ?thesis by (simp add: e)
    qed
  qed (use new lock_invD(3,4,5) [OF inv] fresh None in \<open>auto simp: e split: if_splits intro: less_SucI\<close>)
next
  case (Some m)
  let ?s = "enter c k s" and ?ph = "if mx_held (objects s m) then Waiting else Running"
  have e: "slots ?s = slots s" "calls ?s = (calls s)(c \<mapsto> (k, m, ?ph))" "next_id ?s = next_id s"
    "objects ?s = (objects s)(m := (if mx_held (objects s m) then (objects s m)\<lparr>mx_waiters := mx_waiters (objects s m) @ [c]\<rparr>
       else (objects s m)\<lparr>mx_held := True\<rparr>))"
    using Some by (simp_all add: enter_def find_slot_def Let_def)
  show ?thesis
  proof (rule lock_invI)
    fix k' m' assume m': "slots ?s k' = Some m'"
    show "m' < next_id ?s \<and> slot_ok ?s k' m'"
    proof (cases "k' = k")
      case True
      with m' Some have "m' = m" by (simp add: e)
      note ok = lock_invD(2) [OF inv Some, unfolded slot_ok_def]
      have "slot_ok ?s k m"
      proof (cases "mx_held (objects s m)")
        case True
        with ok obtain r where r: "calls s r = Some (k, m, Running)" by blast
        with new have "r \<noteq> c" by auto
        with True ok new r show ?thesis unfolding slot_ok_def by (auto simp: e intro: exI [of _ r])
      next
        case False
        with ok new show ?thesis unfolding slot_ok_def by (auto simp: e)
      qed
      with True \<open>m' = m\<close> lock_invD(1) [OF inv Some] show ?thesis by (simp add: e)
    next
      case False
      with m' Some slot_injective [OF inv, of k' m' k] have "m' \<noteq> m" by (auto simp: e)
      with new False have "slot_ok ?s k' m' = slot_ok s k' m'" by (intro slot_ok_cong) (auto simp: e)
      with m' lock_invD(1,2) [OF inv, of k' m'] show ?thesis by (simp add: e)
    qed
  next
    fix c' k' m' ph assume "calls ?s c' = Some (k', m', ph)"
    then have "k' = k \<and> m' = m \<or> calls s c' = Some (k', m', ph)" by (auto simp: e split: if_splits)
    with Some show "m' < next_id ?s \<and> (ph \<noteq> Leaving \<longrightarrow> slots ?s k' = Some m')"
      using lock_invD(1) [OF inv Some] lock_invD(3,4) [OF inv, of c' k' m' ph] by (auto simp: e)
  next
    fix c' k' m' ph k'' assume "calls ?s c' = Some (k', m', ph)" "slots ?s k'' = Some m'"
    then have "k' = k \<and> m' = m \<or> calls s c' = Some (k', m', ph)" "slots s k'' = Some m'"
      by (auto simp: e split: if_splits)
    then show "k'' = k'" using slot_injective [OF inv Some, of k''] lock_invD(5) [OF inv, of c' k' m' ph k''] by blast
  qed
qed

lemma lock_inv_release:
  assumes inv: "lock_inv s" and c: "calls s c = Some (k, m, Running)"
  shows "lock_inv (release c k m s)"
proof -
  have slot: "slots s k = Some m" using lock_invD(4) [OF inv c] by simp
  note ok = lock_invD(2) [OF inv slot, unfolded slot_ok_def]
  let ?s = "release c k m s"
  have frame: "slots ?s = slots s" "next_id ?s = next_id s"
    "\<And>m'. m' \<noteq> m \<Longrightarrow> objects ?s m' = objects s m'"
    by (simp_all add: release_def Let_def split: list.split)
  have calls: "calls ?s c' = (if c' \<in> set (take 1 (mx_waiters (objects s m))) then Some (k, m, Running)
      else if c' = c then Some (k, m, Leaving) else calls s c')" for c'
    by (simp add: release_def Let_def split: list.split)
  have waiting: "calls s w = Some (k, m, Waiting)" if "w \<in> set (take 1 (mx_waiters (objects s m)))" for w
    using that ok by (auto dest: in_set_takeD)
  show ?thesis
  proof (rule lock_invI)
    fix k' m' assume m': "slots ?s k' = Some m'"
    show "m' < next_id ?s \<and> slot_ok ?s k' m'"
    proof (cases "k' = k")
      case True
      with m' slot frame have mm: "m' = m" by simp
      have "slot_ok ?s k m"
      proof (cases "mx_waiters (objects s m)")
        case Nil
        with ok c show ?thesis unfolding slot_ok_def by (auto simp: release_def Let_def)
      next
        case (Cons w ws)
        with ok have "calls s w = Some (k, m, Waiting)" "w \<notin> set ws" by auto
        with c have "w \<noteq> c" "w \<notin> set ws" by auto
        with Cons ok c show ?thesis unfolding slot_ok_def
          by (auto simp: release_def Let_def split: if_splits)
      qed
      with True mm lock_invD(1) [OF inv slot] frame show ?thesis by simp
    next
      case False
      with m' slot slot_injective [OF inv, of k' m' k] frame have mm: "m' \<noteq> m" by auto
      then have "slot_ok ?s k' m' = slot_ok s k' m'"
        using c waiting by (intro slot_ok_cong) (auto simp: frame calls split: if_splits)
      with m' lock_invD(1,2) [OF inv, of k' m'] frame show ?thesis by simp
    qed
  next
    fix c' k' m' ph assume "calls ?s c' = Some (k', m', ph)"
    then have "k' = k \<and> m' = m \<or> calls s c' = Some (k', m', ph)" by (auto simp: calls split: if_splits)
    with slot show "m' < next_id ?s \<and> (ph \<noteq> Leaving \<longrightarrow> slots ?s k' = Some m')"
      using lock_invD(1) [OF inv slot] lock_invD(3,4) [OF inv, of c' k' m' ph] by (auto simp: frame)
  next
    fix c' k' m' ph k'' assume "calls ?s c' = Some (k', m', ph)" "slots ?s k'' = Some m'"
    then have "k' = k \<and> m' = m \<or> calls s c' = Some (k', m', ph)" "slots s k'' = Some m'"
      by (auto simp: calls frame split: if_splits)
    then show "k'' = k'" using slot_injective [OF inv slot, of k''] lock_invD(5) [OF inv, of c' k' m' ph k''] by blast
  qed
qed

lemma lock_inv_reclaim:
  assumes inv: "lock_inv s" and c: "calls s c = Some (k, m, Leaving)"
  shows "lock_inv (reclaim c k m s)"
proof -
  let ?s = "reclaim c k m s"
  have frame: "objects ?s = objects s" "next_id ?s = next_id s" "calls ?s = (calls s)(c := None)"
    by (simp_all add: reclaim_def Let_def)
  have sub: "slots ?s k' = Some m' \<Longrightarrow> slots s k' = Some m'" for k' m'
    by (auto simp: reclaim_def Let_def split: if_splits)
  have stays: "slots ?s k' = Some m'" if "slots s k' = Some m'"
      "k' \<noteq> k \<or> m' \<noteq> m \<or> mx_held (objects s m) \<or> mx_waiters (objects s m) \<noteq> []" for k' m'
    using that by (auto simp: reclaim_def Let_def)
  show ?thesis
  proof (rule lock_invI)
    fix k' m' assume m': "slots ?s k' = Some m'"
    from sub [OF m'] have old: "slots s k' = Some m'" .
    note ok = lock_invD(2) [OF inv old]
    show "m' < next_id ?s \<and> slot_ok ?s k' m'"
    proof (cases "m' = m")
      case True
      with lock_invD(5) [OF inv c] old have k': "k' = k" by blast
      with m' True old have "mx_held (objects s m) \<or> mx_waiters (objects s m) \<noteq> []"
        by (auto simp: reclaim_def Let_def split: if_splits)
      then obtain c' ph where c': "calls s c' = Some (k, m, ph)" "ph \<noteq> Leaving"
        using ok k' True unfolding slot_ok_def by (metis list.set_intros(1) neq_Nil_conv phase.distinct(3) phase.distinct(5))
      have same: "(calls ?s x = Some (k, m, Running)) = (calls s x = Some (k, m, Running))"
        "(calls ?s x = Some (k, m, Waiting)) = (calls s x = Some (k, m, Waiting))" for x
        using c by (simp_all add: frame)
      from c c' have "calls ?s c' = Some (k, m, ph)" by (auto simp: frame)
      with ok k' True lock_invD(1) [OF inv old] show ?thesis
        unfolding k' True slot_ok_def same frame(1,2) by blast
    next
      case False
      with c have "slot_ok ?s k' m' = slot_ok s k' m'" by (intro slot_ok_cong) (auto simp: frame)
      with ok lock_invD(1) [OF inv old] frame show ?thesis by simp
    qed
  next
    fix c' k' m' ph assume "calls ?s c' = Some (k', m', ph)"
    then have c': "calls s c' = Some (k', m', ph)" by (auto simp: frame split: if_splits)
    have "slots ?s k' = Some m'" if "ph \<noteq> Leaving"
    proof (rule stays)
      show "slots s k' = Some m'" using lock_invD(4) [OF inv c' that] .
      from lock_invD(2) [OF inv this] that c'
      show "k' \<noteq> k \<or> m' \<noteq> m \<or> mx_held (objects s m) \<or> mx_waiters (objects s m) \<noteq> []"
        unfolding slot_ok_def by (cases ph) auto
    qed
    with lock_invD(3) [OF inv c'] show "m' < next_id ?s \<and> (ph \<noteq> Leaving \<longrightarrow> slots ?s k' = Some m')"
      by (simp add: frame)
  next
    fix c' k' m' ph k'' assume "calls ?s c' = Some (k', m', ph)" "slots ?s k'' = Some m'"
    then show "k'' = k'" using lock_invD(5) [OF inv] sub by (auto simp: frame split: if_splits)
  qed
qed

lemma lock_inv_reachable: "lock_reachable s \<Longrightarrow> lock_inv s"
  by (induction rule: rtranclp_induct)
    (auto simp: lock_inv_init elim!: lock_stepE intro: lock_inv_enter lock_inv_release lock_inv_reclaim)

section \<open>The specification: one queue per key\<close>

text \<open>
  What the lock promises, without mutexes and slots: each key has a queue of calls; its head runs,
  and a call that ends leaves the head to the next in line.
\<close>

type_synonym queues = "string \<Rightarrow> client list"

inductive spec_step :: "queues \<Rightarrow> queues \<Rightarrow> bool" where
  arrive: "c \<notin> set (q k) \<Longrightarrow> spec_step q (q(k := q k @ [c]))"
| serve: "q k = c # cs \<Longrightarrow> spec_step q (q(k := cs))"
| idle: "spec_step q q"

text \<open>The abstraction: the call that runs, then the waiters of the slot's mutex.\<close>

definition runner :: "lock_state \<Rightarrow> string \<Rightarrow> mutex_id \<Rightarrow> client" where
  "runner s k m = (THE c. calls s c = Some (k, m, Running))"

definition queue_of :: "lock_state \<Rightarrow> queues" where
  "queue_of s k = (case slots s k of None \<Rightarrow> []
     | Some m \<Rightarrow> if mx_held (objects s m) then runner s k m # mx_waiters (objects s m) else [])"

lemma runner_eq:
  assumes "lock_inv s" and "calls s c = Some (k, m, Running)"
  shows "runner s k m = c" and "slots s k = Some m" and "mx_held (objects s m)"
proof -
  show slot: "slots s k = Some m" using lock_invD(4) [OF assms] by simp
  note ok = lock_invD(2) [OF assms(1) slot, unfolded slot_ok_def]
  from ok assms(2) show "runner s k m = c" unfolding runner_def by (intro the_equality) auto
  from ok assms(2) show "mx_held (objects s m)" by blast
qed

lemma queue_running: "lock_inv s \<Longrightarrow> calls s c = Some (k, m, Running) \<Longrightarrow>
    queue_of s k = c # mx_waiters (objects s m)"
  using runner_eq [of s c k m] by (simp add: queue_of_def)

text \<open>A call is in the queue of its key exactly while it waits or runs.\<close>

lemma in_queue_iff:
  assumes "lock_inv s"
  shows "c \<in> set (queue_of s k) \<longleftrightarrow> (\<exists>m ph. calls s c = Some (k, m, ph) \<and> ph \<noteq> Leaving)"
proof (cases "slots s k")
  case None
  with lock_invD(4) [OF assms, of c k] show ?thesis by (auto simp: queue_of_def)
next
  case (Some m)
  note ok = lock_invD(2) [OF assms Some, unfolded slot_ok_def]
  show ?thesis
  proof (cases "mx_held (objects s m)")
    case True
    with ok obtain r where r: "calls s r = Some (k, m, Running)" by blast
    note q = queue_running [OF assms r]
    have "\<exists>m' ph. calls s c = Some (k, m', ph) \<and> ph \<noteq> Leaving \<Longrightarrow> c = r \<or> c \<in> set (mx_waiters (objects s m))"
    proof (elim exE conjE)
      fix m' ph assume c: "calls s c = Some (k, m', ph)" "ph \<noteq> Leaving"
      with lock_invD(4) [OF assms] Some have "m' = m" by fastforce
      with c ok r show "c = r \<or> c \<in> set (mx_waiters (objects s m))" by (cases ph) auto
    qed
    with ok r q show ?thesis by auto
  next
    case False
    with ok have none: "\<not> (calls s c = Some (k, m, ph) \<and> ph \<noteq> Leaving)" for ph by (cases ph) auto
    from False Some have "queue_of s k = []" by (simp add: queue_of_def)
    moreover have "\<not> (\<exists>m' ph. calls s c = Some (k, m', ph) \<and> ph \<noteq> Leaving)"
      using none lock_invD(4) [OF assms, of c k] Some by fastforce
    ultimately show ?thesis by simp
  qed
qed

lemma queue_other:
  assumes "slots s' k = slots s k" and "\<And>m. slots s k = Some m \<Longrightarrow> objects s' m = objects s m \<and>
      (\<forall>c. (calls s' c = Some (k, m, Running)) = (calls s c = Some (k, m, Running)))"
  shows "queue_of s' k = queue_of s k"
  using assms by (auto simp: queue_of_def runner_def split: option.split)

lemma queue_enter:
  assumes inv: "lock_inv s" and new: "calls s c = None"
  shows "queue_of (enter c k s) = (queue_of s)(k := queue_of s k @ [c])"
proof
  fix k'
  let ?s = "enter c k s"
  have inv': "lock_inv ?s" by (rule lock_inv_enter [OF inv new])
  show "queue_of ?s k' = ((queue_of s)(k := queue_of s k @ [c])) k'"
  proof (cases "k' = k")
    case False
    have "queue_of ?s k' = queue_of s k'"
    proof (rule queue_other)
      show "slots ?s k' = slots s k'" using False by (simp add: enter_def find_slot_def Let_def split: option.split)
      fix m assume m: "slots s k' = Some m"
      with False slot_injective [OF inv m, of k] lock_invD(1) [OF inv m] new
      show "objects ?s m = objects s m \<and> (\<forall>c. (calls ?s c = Some (k', m, Running)) = (calls s c = Some (k', m, Running)))"
        by (auto simp: enter_def find_slot_def Let_def split: option.split)
    qed
    with False show ?thesis by simp
  next
    case True
    show ?thesis
    proof (cases "\<exists>m. slots s k = Some m \<and> mx_held (objects s m)")
      case False
      with new have "queue_of s k = []" "\<exists>m. calls ?s c = Some (k, m, Running) \<and> mx_waiters (objects ?s m) = []"
        using lock_invD(2) [OF inv, of k]
        by (auto simp: queue_of_def enter_def find_slot_def Let_def slot_ok_def split: option.split)
      with True queue_running [OF inv'] show ?thesis by auto
    next
      case held: True
      then obtain m where m: "slots s k = Some m" "mx_held (objects s m)" by blast
      then obtain r where r: "calls s r = Some (k, m, Running)" using lock_invD(2) [OF inv m(1)] by (auto simp: slot_ok_def)
      with m new have "calls ?s r = Some (k, m, Running)" "mx_waiters (objects ?s m) = mx_waiters (objects s m) @ [c]"
        by (auto simp: enter_def find_slot_def Let_def)
      with True queue_running [OF inv' this(1)] queue_running [OF inv r] show ?thesis by simp
    qed
  qed
qed

lemma queue_release:
  assumes inv: "lock_inv s" and c: "calls s c = Some (k, m, Running)"
  shows "queue_of (release c k m s) = (queue_of s)(k := tl (queue_of s k))"
proof
  fix k'
  let ?s = "release c k m s"
  have inv': "lock_inv ?s" by (rule lock_inv_release [OF inv c])
  note slot = runner_eq(2) [OF inv c] and q = queue_running [OF inv c]
  note ok = lock_invD(2) [OF inv slot, unfolded slot_ok_def]
  show "queue_of ?s k' = ((queue_of s)(k := tl (queue_of s k))) k'"
  proof (cases "k' = k")
    case False
    have "queue_of ?s k' = queue_of s k'"
    proof (rule queue_other)
      show "slots ?s k' = slots s k'" by (simp add: release_def Let_def split: list.split)
      fix m' assume m': "slots s k' = Some m'"
      with False slot_injective [OF inv m', of k] slot have mm: "m' \<noteq> m" by auto
      have w: "calls s w \<noteq> Some (k', m', Running)" if "mx_waiters (objects s m) = w # ws" for w ws
      proof -
        from that ok have "calls s w = Some (k, m, Waiting)" by auto
        then show ?thesis by simp
      qed
      from mm c w show "objects ?s m' = objects s m' \<and>
          (\<forall>c. (calls ?s c = Some (k', m', Running)) = (calls s c = Some (k', m', Running)))"
        by (auto simp: release_def Let_def split: list.split)
    qed
    with False show ?thesis by simp
  next
    case True
    show ?thesis
    proof (cases "mx_waiters (objects s m)")
      case Nil
      then have "queue_of ?s k = []" using slot by (simp add: queue_of_def release_def Let_def)
      with True q Nil show ?thesis by simp
    next
      case (Cons w ws)
      then have "calls ?s w = Some (k, m, Running)" "mx_waiters (objects ?s m) = ws"
        by (simp_all add: release_def Let_def)
      with True q Cons queue_running [OF inv' this(1)] show ?thesis by simp
    qed
  qed
qed

lemma queue_reclaim:
  assumes inv: "lock_inv s" and c: "calls s c = Some (k, m, Leaving)"
  shows "queue_of (reclaim c k m s) = queue_of s"
proof
  fix k'
  show "queue_of (reclaim c k m s) k' = queue_of s k'"
  proof (cases "slots (reclaim c k m s) k' = slots s k'")
    case True
    then show ?thesis using c by (intro queue_other) (auto simp: reclaim_def Let_def)
  next
    case False
    then have "k' = k" "slots s k = Some m" "\<not> mx_held (objects s m)" "slots (reclaim c k m s) k = None"
      by (auto simp: reclaim_def Let_def split: if_splits)
    then show ?thesis by (simp add: queue_of_def)
  qed
qed

section \<open>Properties\<close>



text \<open>At any reachable moment at most one operation runs per path, and a path nobody uses has
  no slot, so the map of locks does not grow with the number of paths ever locked.\<close>

theorem path_lock_exclusive_and_reclaimed:
  assumes "lock_reachable s"
  shows "(calls s c = Some (k, m, Running) \<and> calls s c' = Some (k, m', Running) \<longrightarrow> c = c') \<and>
    ((\<forall>c m ph. calls s c \<noteq> Some (k, m, ph)) \<longrightarrow> slots s k = None)"
proof -
  note inv = lock_inv_reachable [OF assms]
  show ?thesis
  proof (intro conjI impI)
    assume both: "calls s c = Some (k, m, Running) \<and> calls s c' = Some (k, m', Running)"
    from queue_running [OF inv both [THEN conjunct1]] queue_running [OF inv both [THEN conjunct2]]
    show "c = c'" by simp
  next
    assume none: "\<forall>c m ph. calls s c \<noteq> Some (k, m, ph)"
    show "slots s k = None"
    proof (cases "slots s k")
      case (Some m)
      with lock_invD(2) [OF inv Some] none show ?thesis by (simp add: slot_ok_def)
    qed
  qed
qed

lemma path_lock_exclusive_and_reclaimed_witness:
  "slots (enter 1 ''a'' no_locks) ''b'' = None"
proof -
  have reach: "lock_reachable (enter 1 ''a'' no_locks)"
    by (rule r_into_rtranclp, rule lock_step.entering) (simp add: no_locks_def)
  have "\<forall>c m ph. calls (enter 1 ''a'' no_locks) c \<noteq> Some (''b'', m, ph)"
    by (simp add: no_locks_def enter_def find_slot_def)
  then show ?thesis by (rule path_lock_exclusive_and_reclaimed [OF reach, THEN conjunct2, THEN mp])
qed

end
