(* ===== verification/Engine_Lifecycle.thy ===== *)
theory Engine_Lifecycle
  imports Folder_Scan
begin

text \<open>
  Starting, stopping and resyncing the engine, the WebSocket's \<open>open\<close> event, and the jobs they put on
  the apply chain. \<open>stop()\<close> and \<open>_resyncOnce()\<close> await the transfers in flight in the middle, so each
  is two steps between which anything else may run.
\<close>

section \<open>The apply chain\<close>

datatype job = JobBaseline | JobInitialSync | JobRecover | JobRescan | JobMessage server_msg

text \<open>What a job sees when its turn comes.\<close>

record turn =
  tn_env :: env
  tn_meta :: bundle_meta
  tn_listed :: "engine \<Rightarrow> string list option"

definition run_job :: "turn \<Rightarrow> job \<Rightarrow> unit eng" where
  "run_job tn j = (case j of
     JobBaseline \<Rightarrow> ret ()
   | JobInitialSync \<Rightarrow> initial_sync (tn_env tn) (tn_meta tn) (tn_listed tn)
   | JobRecover \<Rightarrow> try_catch (recover_pending (tn_env tn)) (\<lambda>_. ret ())
   | JobRescan \<Rightarrow> try_catch (bindm (reads (tn_listed tn)) (local_rescan (tn_env tn))) (\<lambda>_. ret ())
   | JobMessage m \<Rightarrow> on_server_message (tn_env tn) m)"

definition enqueue_jobs :: "job \<Rightarrow> job list eng" where
  "enqueue_jobs j = bindm (reads e_stopped) (\<lambda>stopped. ret (if stopped then [] else [j]))"

text \<open>The timer's variant: one at a time.\<close>

definition enqueue_reconcile :: "job list eng" where
  "enqueue_reconcile = bindm (reads (\<lambda>s. e_stopped s \<or> e_reconcile_queued s)) (\<lambda>drop.
     if drop then ret []
     else thenm (modifies (\<lambda>s. s\<lparr>e_reconcile_queued := True\<rparr>)) (ret [JobRecover]))"

definition run_reconcile :: "turn \<Rightarrow> unit eng" where
  "run_reconcile tn = finallym (run_job tn JobRecover) (modifies (\<lambda>s. s\<lparr>e_reconcile_queued := False\<rparr>))"

section \<open>Start\<close>

definition probe_names :: "env \<Rightarrow> string \<Rightarrow> path \<times> path" where
  "probe_names E token = (sync_folder E @ ''/.hs-case-probe.tmp.'' @ token, sync_folder E @ ''/.HS-CASE-PROBE.tmp.'' @ token)"

text \<open>\<open>_detectCaseFolding\<close>; \<open>works\<close> says that the folder and the probe file could be written.\<close>

definition detect_case_folding :: "env \<Rightarrow> string \<Rightarrow> bool \<Rightarrow> unit eng" where
  "detect_case_folding E token works = (case probe_names E token of (lower, upper) \<Rightarrow>
     if \<not> works then modifies (\<lambda>s. s\<lparr>e_folds := False\<rparr>)
     else do_all [
       modifies (\<lambda>s. s\<lparr>e_disk := (e_disk s)(disk_key E lower \<mapsto> RegFile [] (now_ms E))\<rparr>),
       bindm (reads (\<lambda>s. exists_on_disk E s upper)) (\<lambda>f. modifies (\<lambda>s. s\<lparr>e_folds := f\<rparr>)),
       modifies (\<lambda>s. s\<lparr>e_disk := remove_node (disk_key E lower) (e_disk s)\<rparr>)])"

record boot =
  bt_include :: "js_pattern list option"
  bt_ignore :: "js_pattern list option"
  bt_token :: string
  bt_probe_works :: bool
  bt_watcher_ok :: bool
  bt_root :: "entry list option"

definition db_reopen :: "env \<Rightarrow> unit eng" where
  "db_reopen E = (if db_fails E DbOpen then throw DbExn
     else modifies (\<lambda>s. s\<lparr>e_db := (e_db s)\<lparr>db_open := True\<rparr>\<rparr>))"

text \<open>\<open>start()\<close>; the mTLS recovery and the certificate check in it are theory \<open>Mtls_Rotation\<close>.\<close>

definition start :: "env \<Rightarrow> boot \<Rightarrow> job list eng" where
  "start E bt = thenm
     (do_all [
        modifies (\<lambda>s. s\<lparr>e_stopped := False,
          e_ignore := (case bt_ignore bt of None \<Rightarrow> [] | Some ps \<Rightarrow> ps),
          e_include := (case bt_include bt of None \<Rightarrow> [] | Some ps \<Rightarrow> ps)\<rparr>),
        db_reopen E,
        detect_case_folding E (bt_token bt) (bt_probe_works bt),
        bindm (db_read E (\<lambda>d. (length (get_all_files d), get_last_seq d))) (\<lambda>_. ret ()),
        modifies (\<lambda>s. s\<lparr>e_http := True, e_reconcile_timer := True, e_watcher := True, e_ws := True,
          e_terminal_reject := False\<rparr>),
        (if bt_watcher_ok bt then ret () else throw OtherExn)])
     (bindm (db_read E get_last_seq) (\<lambda>last. thenm
        (do_all [
           set_state StConnecting,
           emit (EWsConnect last),
           modifies (\<lambda>s. s\<lparr>e_ws_since := last\<rparr>),
           cleanup_temp_files E (bt_root bt)])
        (bindm (enqueue_jobs JobRecover) (\<lambda>js. ret (JobBaseline # js)))))"

section \<open>The control channel\<close>

text \<open>The \<open>open\<close> listener; its result is what it appends to the chain.\<close>

definition on_ws_open :: "env \<Rightarrow> bool \<Rightarrow> job list eng" where
  "on_ws_open E has_share = bindm (reads e_state) (\<lambda>before. thenm
     (do_all [
        set_state StCatchingUp,
        modifies (\<lambda>s. s\<lparr>e_caught_up := False, e_tip_seq := 0, e_lowest_unapplied := 0\<rparr>)])
     (bindm (db_read E get_last_seq) (\<lambda>last.
       let fresh = (last = 0 \<and> has_share) in
       bindm (enqueue_jobs JobRecover) (\<lambda>recover.
       bindm (if before \<in> {StError, StReconnecting} \<and> \<not> fresh then enqueue_jobs JobRescan else ret []) (\<lambda>rescan.
         ret ((if fresh then [JobInitialSync] else []) @ recover @ rescan))))))"

definition on_ws_error :: "unit eng" where
  "on_ws_error = set_state StError"

definition on_auth_error :: "unit eng" where
  "on_auth_error = do_all [set_state StError, emit EAuthError]"

definition update_patterns :: "js_pattern list option \<Rightarrow> js_pattern list option \<Rightarrow> unit eng" where
  "update_patterns ignore include = modifies (\<lambda>s. s\<lparr>
     e_ignore := (case ignore of None \<Rightarrow> [] | Some ps \<Rightarrow> ps),
     e_include := (case include of None \<Rightarrow> [] | Some ps \<Rightarrow> ps)\<rparr>)"

section \<open>Stop and resync\<close>

definition cancel_pending :: "unit eng" where
  "cancel_pending = modifies (\<lambda>s. s\<lparr>e_pending_deletes := []\<rparr>)"

definition stop_begin :: "unit eng" where
  "stop_begin = do_all [
     modifies (\<lambda>s. s\<lparr>e_stopped := True\<rparr>),
     set_state StDisconnected,
     modifies (\<lambda>s. s\<lparr>e_reconcile_timer := False\<rparr>),
     cancel_pending,
     modifies (\<lambda>s. s\<lparr>e_watcher := False\<rparr>)]"

definition stop_end :: "unit eng" where
  "stop_end = do_all [
     bindm (reads e_ws) (\<lambda>ws. whenm ws (do_all [emit EWsClose, modifies (\<lambda>s. s\<lparr>e_ws := False\<rparr>)])),
     modifies (\<lambda>s. s\<lparr>e_http := False, e_db := db_close (e_db s)\<rparr>)]"

text \<open>\<open>resync()\<close> up to its first await; the result says whether this call runs the teardown.\<close>

definition resync_begin :: "bool eng" where
  "resync_begin = bindm (reads (\<lambda>s. e_stopped s \<or> e_resync_running s)) (\<lambda>no.
     if no then ret False
     else thenm (do_all [
        modifies (\<lambda>s. s\<lparr>e_resync_running := True, e_terminal_reject := False, e_resyncing := True\<rparr>),
        cancel_pending]) (ret True))"

definition wipe_db :: "env \<Rightarrow> unit eng" where
  "wipe_db E = bindm (reads (\<lambda>s. clear_all (e_db s))) (\<lambda>r. case r of
     Inl _ \<Rightarrow> throw DbExn
   | Inr d \<Rightarrow> if db_fails E DbClear then throw DbExn else modifies (\<lambda>s. s\<lparr>e_db := d\<rparr>))"

definition forget_session :: "unit eng" where
  "forget_session = modifies (\<lambda>s. s\<lparr>e_active_downloads := 0, e_catch_up_pending := 0, e_caught_up := False,
     e_tip_seq := 0, e_lowest_unapplied := 0, e_suppressed := Map.empty, e_permanent := {}\<rparr>)"

definition resync_end :: "env \<Rightarrow> unit eng" where
  "resync_end E = finallym
     (do_all [
        forget_session,
        wipe_db E,
        modifies (\<lambda>s. s\<lparr>e_resyncing := False\<rparr>),
        bindm (reads e_ws) (\<lambda>ws. whenm ws
          (do_all [emit EWsClose, set_state StConnecting, emit (EWsConnect 0), modifies (\<lambda>s. s\<lparr>e_ws_since := 0\<rparr>)]))])
     (modifies (\<lambda>s. s\<lparr>e_resync_running := False\<rparr>))"

section \<open>Status\<close>

record status =
  sta_state :: sync_state
  sta_last_seq :: int
  sta_last_sync :: "string option"
  sta_files :: nat
  sta_ops :: nat

definition get_status :: "env \<Rightarrow> status eng" where
  "get_status E = bindm (db_read E id) (\<lambda>d. reads (\<lambda>s. \<lparr>sta_state = e_state s, sta_last_seq = get_last_seq d,
     sta_last_sync = get_meta d ''last_sync_time'', sta_files = length (get_all_files d), sta_ops = e_active_ops s\<rparr>))"

section \<open>Steps\<close>

lemma wp_wipe_db [wp_rules]:
  "wp (wipe_db E) Q R = (\<lambda>s. case clear_all (e_db s) of Inl _ \<Rightarrow> R DbExn s
     | Inr d \<Rightarrow> if db_fails E DbClear then R DbExn s else Q () (s\<lparr>e_db := d\<rparr>))"
  by (auto simp: fun_eq_iff wipe_db_def wp_rules split: sum.split)

lemma wp_reconcile [wp_rules]:
  "wp (enqueue_jobs j) Q R = (\<lambda>s. Q (if e_stopped s then [] else [j]) s)"
  by (simp add: enqueue_jobs_def wp_rules)

end
