(* ===== verification/Lifecycle_Safety.thy ===== *)
theory Lifecycle_Safety
  imports Engine_Lifecycle Recovery Scan_Safety
begin

text \<open>
  What \<open>stop()\<close> and \<open>resync()\<close> guarantee, and where they fall short: an engine that has begun to stop
  answers no event and runs no queued job, except the first sync; a resync starts over from an empty
  database without touching the folder; a resync whose wipe fails leaves the engine deaf to local
  changes; a stop that lands during a resync is undone by it.
\<close>

section \<open>After stop\<close>

text \<open>What can reach an engine while \<open>stop()\<close> waits for the transfers, the WebSocket apart.\<close>

datatype stimulus =
    OnMessage server_msg
  | OnLocal local_event
  | OnTimer string
  | OnRecover
  | OnReconcile
  | OnResync
  | OnJob turn job

definition react :: "env \<times> stimulus \<Rightarrow> engine \<Rightarrow> engine" where
  "react x s = (case x of (E, stim) \<Rightarrow> (case stim of
     OnMessage m \<Rightarrow> final (on_server_message E m) s
   | OnLocal ev \<Rightarrow> final (on_local_change E ev) s
   | OnTimer p \<Rightarrow> final (fire_pending_delete E p) s
   | OnRecover \<Rightarrow> final (enqueue_recover E) s
   | OnReconcile \<Rightarrow> final enqueue_reconcile s
   | OnResync \<Rightarrow> final resync_begin s
   | OnJob tn j \<Rightarrow> final (run_job tn j) s))"

definition first_sync_job :: "stimulus \<Rightarrow> bool" where
  "first_sync_job stim \<longleftrightarrow> (\<exists>tn. stim = OnJob tn JobInitialSync)"

definition quiesced :: "engine \<Rightarrow> bool" where
  "quiesced s \<longleftrightarrow> e_stopped s \<and> e_state s = StDisconnected \<and> e_pending_deletes s = []"

lemma final_of_wp: "wp m (\<lambda>_ s'. s' = t) (\<lambda>_ s'. s' = t) s \<Longrightarrow> final m s = t"
  using wp_final [of m "\<lambda>s'. s' = t" s] by simp

lemma react_quiesced: "quiesced s \<Longrightarrow> \<not> first_sync_job stim \<Longrightarrow> react (E, stim) s = s"
  by (cases stim rule: stimulus.exhaust)
    (auto simp: react_def quiesced_def first_sync_job_def run_job_def on_server_message_def on_local_change_def
      fire_pending_delete_def enqueue_recover_def enqueue_reconcile_def resync_begin_def
      recover_pending_def local_rescan_def sweep_off_def wp_rules intro!: final_of_wp split: job.split)

lemma react_run_quiesced:
  "quiesced s \<Longrightarrow> \<forall>x \<in> set xs. \<not> first_sync_job (snd x) \<Longrightarrow> fold react xs s = s"
  by (induction xs) (auto simp: react_quiesced)

lemma quiesced_stop_begin: "quiesced (final stop_begin s)"
  by (rule wp_final) (simp add: quiesced_def stop_begin_def cancel_pending_def wp_rules)



text \<open>The exception. A first sync that was queued when \<open>stop()\<close> began still runs: in the
  stopped engine it moves a user's file to its conflict name and writes a row.\<close>

theorem stopped_engine_runs_first_sync:
  "(let s = final stop_begin edited_disk;
        tn = \<lparr>tn_env = serving_env, tn_meta = MetaFiles [listed_file], tn_listed = (\<lambda>_. Some [])\<rparr>;
        t = final (run_job tn JobInitialSync) s
    in (e_stopped s, map (e_disk s) [''/d/a'', ''/d/a.conflict''], map (e_disk t) [''/d/a.conflict''],
        map rel_path (get_all_files (e_db t)))) =
   (True, [Some (RegFile ''mine'' 1), None], [Some (RegFile ''mine'' 1)], [Val ''a''])"
  by code_simp

section \<open>Resync\<close>

lemma clear_all_open: "db_open d \<Longrightarrow> clear_all d = Inr (d\<lparr>db_meta := [], db_files := []\<rparr>)"
  by (simp add: clear_all_def clear_all_faulty_def)

lemma clear_all_closed: "\<not> db_open d \<Longrightarrow> clear_all d = Inl NotOpened"
  by (simp add: clear_all_def clear_all_faulty_def)

lemma get_last_seq_cleared [simp]: "get_last_seq (d\<lparr>db_meta := []\<rparr>) = 0"
  by (simp add: get_last_seq_def get_meta_def)

definition fresh_start :: "engine \<Rightarrow> engine \<Rightarrow> bool" where
  "fresh_start s t \<longleftrightarrow> get_all_files (e_db t) = [] \<and> get_last_seq (e_db t) = 0 \<and> e_disk t = e_disk s \<and>
     \<not> e_resyncing t \<and> e_suppressed t = Map.empty \<and> e_permanent t = {} \<and> e_lowest_unapplied t = 0 \<and>
     e_catch_up_pending t = 0 \<and> e_active_downloads t = 0 \<and>
     (if e_ws s then e_state t = StConnecting \<and> e_ws_since t = 0 \<and>
        e_effects t = e_effects s @ [EWsClose, EWsConnect 0]
      else e_effects t = e_effects s)"

text \<open>A resync whose wipe succeeds starts over: no row, cursor 0, no suppression, no mark of
  a permanent failure, the folder untouched, a new connection from event 0; and when that connection
  opens, the first sync is queued ahead of the recovery sweep.\<close>

theorem resync_starts_over:
  assumes "db_open (e_db s)" and "\<not> db_fails E DbClear" and "\<not> e_stopped s" and "\<not> db_fails E' DbRead"
  shows "fresh_start s (final (resync_end E) s) \<and>
    fst (on_ws_open E' True (final (resync_end E) s)) = Inr [JobInitialSync, JobRecover]"
proof -
  let ?G = "\<lambda>t. fresh_start s t \<and> db_open (e_db t) \<and> \<not> e_stopped t"
  have "wp (resync_end E) (\<lambda>_. ?G) (\<lambda>_. ?G) s"
    using assms
    by (auto simp: resync_end_def forget_session_def wp_rules clear_all_open fresh_start_def get_all_files_def)
  note G = wp_final [OF this]
  have "wp (on_ws_open E' True) (\<lambda>js _. js = [JobInitialSync, JobRecover]) (\<lambda>_ _. False) t" if "?G t" for t
    using that assms(4) by (simp add: on_ws_open_def wp_rules fresh_start_def Let_def)
  from this [OF G] have "fst (on_ws_open E' True (final (resync_end E) s)) = Inr [JobInitialSync, JobRecover]"
    by (auto simp: wp_def split: prod.splits sum.splits)
  with G show ?thesis by blast
qed

lemma resync_starts_over_witness:
  "fst (on_ws_open plain_env True (final (resync_end plain_env) idle_engine)) = Inr [JobInitialSync, JobRecover]"
  using resync_starts_over [of idle_engine plain_env plain_env]
  by (simp add: idle_engine_def plain_env_def)

lemma keeps_resyncing_cleanup: "keeps e_resyncing (cleanup_temp_files E root)"
  by (auto simp: cleanup_temp_files_def unlink_once_def emit_def intro!: keeps_rules keeps_modifies split: option.split)

lemma start_keeps_resyncing: "keeps e_resyncing (start E bt)"
  by (auto simp: start_def db_reopen_def detect_case_folding_def db_read_def db_guard_def set_state_def emit_def
    enqueue_jobs_def intro!: keeps_rules keeps_modifies keeps_resyncing_cleanup split: prod.split)

definition deaf :: "engine \<Rightarrow> bool" where
  "deaf t \<longleftrightarrow> (\<forall>E ev. ev_kind ev \<noteq> ChDelete \<longrightarrow> final (on_local_change E ev) t = t) \<and>
     (\<forall>E v. final (update_seq E v) t = t) \<and> (\<forall>E. final (recover_pending E) t = t) \<and>
     (\<forall>E listed. final (local_rescan E listed) t = t)"

lemma resyncing_deaf: "e_resyncing t \<Longrightarrow> deaf t"
  by (auto simp: deaf_def on_local_change_def handle_local_modify_def going_down_def update_seq_def
    recover_pending_def local_rescan_def sweep_off_def wp_rules intro!: final_of_wp)

text \<open>When the wipe of a resync fails, the flag that gates every writer stays set. From then
  on additions and changes in the folder, cursor updates, sweeps and rescans are ignored, and a
  \<open>stop()\<close> and \<open>start()\<close> of the same engine does not clear it.\<close>

theorem failed_resync_wedges:
  assumes "\<not> e_stopped s" and "\<not> e_resync_running s" and "db_fails E DbClear \<or> \<not> db_open (e_db s)"
  defines "t \<equiv> final (resync_end E) (final resync_begin s)"
  shows "deaf t \<and> deaf (final (start E' bt) (final stop_end (final stop_begin t)))"
proof -
  have running: "wp resync_begin (\<lambda>_ s'. e_resyncing s' \<and> e_db s' = e_db s) (\<lambda>_ _. False) s"
    using assms by (simp add: resync_begin_def cancel_pending_def wp_rules)
  have "keeps (\<lambda>s'. e_resyncing s' \<and> e_db s' = e_db s) (resync_end E)"
    using assms(3) by (auto simp: keeps_def resync_end_def forget_session_def wp_rules clear_all_closed
      split: sum.split)
  moreover have "e_resyncing (final resync_begin s) \<and> e_db (final resync_begin s) = e_db s"
    by (rule wp_final [of _ "\<lambda>s'. e_resyncing s' \<and> e_db s' = e_db s"])
      (rule wp_conseq [OF running], auto)
  ultimately have set: "e_resyncing t" unfolding t_def
    using keeps_final [of "\<lambda>s'. e_resyncing s' \<and> e_db s' = e_db s" "resync_end E" "final resync_begin s"]
    by blast
  then have "deaf t" by (rule resyncing_deaf)
  have "keeps e_resyncing stop_begin" "keeps e_resyncing stop_end"
    by (simp_all add: keeps_def stop_begin_def stop_end_def cancel_pending_def wp_rules)
  then have "e_resyncing (final stop_end (final stop_begin t))"
    using set keeps_final [of e_resyncing] by metis
  then have "deaf (final (start E' bt) (final stop_end (final stop_begin t)))"
    using keeps_final [OF start_keeps_resyncing] resyncing_deaf by metis
  with \<open>deaf t\<close> show ?thesis ..
qed

lemma failed_resync_wedges_witness:
  "deaf (final (resync_end (plain_env\<lparr>db_fails := (\<lambda>op. op = DbClear)\<rparr>)) (final resync_begin idle_engine))"
  by (rule conjunct1, rule failed_resync_wedges) (simp_all add: idle_engine_def)

text \<open>\<open>stop()\<close> landing while a resync waits for the transfers does not end it: the wipe and
  the redial still happen, so the database is emptied after the stop began, a new connection is dialled
  and closed at once, and the stopped engine reports that it is connecting.\<close>

theorem stop_during_resync_undone:
  assumes "\<not> e_stopped s" and "\<not> e_resync_running s" and "e_ws s" and "db_open (e_db s)" and "\<not> db_fails E DbClear"
  defines "t \<equiv> final stop_end (final (resync_end E) (final stop_begin (final resync_begin s)))"
  shows "e_stopped t \<and> e_state t = StConnecting \<and> db_files (e_db t) = [] \<and>
    e_effects t = e_effects s @ [EWsClose, EWsConnect 0, EWsClose]"
proof -
  let ?m = "thenm resync_begin (thenm stop_begin (thenm (resync_end E) stop_end))"
  have run: "wp ?m (\<lambda>_ t. e_stopped t \<and> e_state t = StConnecting \<and> db_files (e_db t) = [] \<and>
      e_effects t = e_effects s @ [EWsClose, EWsConnect 0, EWsClose]) (\<lambda>_ _. False) s"
    using assms(1-5) by (simp add: resync_begin_def stop_begin_def resync_end_def stop_end_def cancel_pending_def
      forget_session_def wp_rules clear_all_open db_close_def)
  then show ?thesis unfolding t_def
    by (auto simp: wp_def final_def thenm_def bindm_def split: prod.splits sum.splits)
qed

lemma stop_during_resync_undone_witness:
  "e_state (final stop_end (final (resync_end plain_env) (final stop_begin (final resync_begin idle_engine)))) = StConnecting"
  using stop_during_resync_undone [of idle_engine plain_env] by (simp add: idle_engine_def plain_env_def)

section \<open>The case-folding probe\<close>

text \<open>The probe decides exactly whether the volume gives its two spellings one directory entry,
  and leaves the folder as it found it; a folder it cannot write to counts as case-sensitive.\<close>

theorem probe_detects_folding:
  assumes "probe_names E token = (lower, upper)" and "node_at E s lower = None" and "node_at E s upper = None"
  shows "e_disk (final (detect_case_folding E token works) s) = e_disk s \<and>
    (e_folds (final (detect_case_folding E token works) s) \<longleftrightarrow> works \<and> disk_key E lower = disk_key E upper)"
proof -
  have "wp (detect_case_folding E token works)
      (\<lambda>_ t. e_disk t = e_disk s \<and> e_folds t = (works \<and> disk_key E lower = disk_key E upper)) (\<lambda>_ _. False) s"
    using assms by (auto simp: detect_case_folding_def wp_rules exists_on_disk_def node_at_def remove_node_def fun_eq_iff)
  then show ?thesis
    by (auto simp: wp_def final_def split: prod.splits sum.splits)
qed

lemma probe_detects_folding_witness:
  "e_folds (final (detect_case_folding (plain_env\<lparr>disk_key := map ascii_lower\<rparr>) ''0'' True) idle_engine)"
proof -
  let ?E = "plain_env\<lparr>disk_key := map ascii_lower\<rparr>"
  have "disk_key ?E (fst (probe_names ?E ''0'')) = disk_key ?E (snd (probe_names ?E ''0''))"
    by code_simp
  moreover obtain lower upper where names: "probe_names ?E ''0'' = (lower, upper)" by fastforce
  ultimately have "disk_key ?E lower = disk_key ?E upper" by simp
  then show ?thesis
    using probe_detects_folding [OF names, of idle_engine True] by (simp add: node_at_def idle_engine_def)
qed

end
