(* ===== verification/Ws_Client.thy ===== *)
theory Ws_Client
  imports Server_Events
begin

text \<open>
  The control channel's client (\<open>lib/ws-client.js\<close>): which failures end it, how it redials, and what it
  tells the engine. The socket is the framework's; its events (\<open>open\<close>, \<open>message\<close>, \<open>close\<close>, \<open>error\<close>) are
  the inputs, and reach the wrapper only from the live client, because \<open>close()\<close> and \<open>connect()\<close> detach
  the listeners of the one they drop. The outputs are the wrapper's own events, in order.
\<close>

section \<open>Errors\<close>

text \<open>The fields of a framework error the wrapper reads.\<close>

record ws_error =
  er_code :: "string option"
  er_permanent :: bool
  er_status_code :: "int option"
  er_status :: "int option"
  er_message :: string

text \<open>\<open>/status was (\d+)/\<close>: the first match.\<close>

fun find_status :: "string \<Rightarrow> int option" where
  "find_status [] = None"
| "find_status (c # cs) =
     (if starts_with (c # cs) ''status was ''
      then (case parse_nat (drop 11 (c # cs)) of None \<Rightarrow> find_status cs | Some n \<Rightarrow> Some n)
      else find_status cs)"

definition ws_error_status :: "ws_error \<Rightarrow> int" where
  "ws_error_status e = (case er_status_code e of Some n \<Rightarrow> n
     | None \<Rightarrow> (case er_status e of Some n \<Rightarrow> n
     | None \<Rightarrow> (case find_status (er_message e) of Some n \<Rightarrow> n | None \<Rightarrow> 0)))"

definition is_ssrf_error :: "ws_error \<Rightarrow> bool" where
  "is_ssrf_error e = (case er_code e of None \<Rightarrow> False | Some c \<Rightarrow> starts_with c ''ssrf-guard/'')"

definition retryable_status :: "int \<Rightarrow> bool" where
  "retryable_status n \<longleftrightarrow> (n \<ge> 500 \<and> n < 600) \<or> n = 408 \<or> n = 429"

text \<open>\<open>_isTerminalWsError\<close>; the first argument is \<open>_handshakeComplete\<close>.\<close>

definition is_terminal_error :: "bool \<Rightarrow> ws_error \<Rightarrow> bool" where
  "is_terminal_error handshake e = (case er_code e of
     None \<Rightarrow> False
   | Some c \<Rightarrow>
       if c = [] then False
       else if handshake then False
       else if c = ''ws-client/bad-status'' then \<not> retryable_status (ws_error_status e)
       else if starts_with c ''dns/'' then False
       else er_permanent e)"

section \<open>State\<close>

datatype ws_event =
    WsOpen | WsMessage server_msg | WsClosed | WsError | WsReconnecting nat
  | WsRejected int | WsAuthError int

record wsc =
  wsc_live :: bool                  \<comment> \<open>\<open>_b !== null\<close>\<close>
  wsc_closing :: bool
  wsc_attempt :: nat
  wsc_timer :: "nat option"         \<comment> \<open>the delay a reconnect is armed with\<close>
  wsc_handshake :: bool
  wsc_since :: int
  wsc_dialled :: "int list"         \<comment> \<open>the \<open>since\<close> of every dial, for the proofs\<close>
  wsc_out :: "ws_event list"

type_synonym wsm = "(wsc, unit, unit) prog"

text \<open>\<open>config.reconnect !== false\<close>, and \<open>b.crypto.randomInt(0, n)\<close>.\<close>

record ws_config =
  cfg_reconnect :: bool
  random_below :: "nat \<Rightarrow> nat"

definition new_ws :: wsc where
  "new_ws = \<lparr>wsc_live = False, wsc_closing = False, wsc_attempt = 0, wsc_timer = None,
     wsc_handshake = False, wsc_since = 0, wsc_dialled = [], wsc_out = []\<rparr>"

definition ws_emit :: "ws_event \<Rightarrow> wsm" where
  "ws_emit x = modifies (\<lambda>w. w\<lparr>wsc_out := wsc_out w @ [x]\<rparr>)"

section \<open>Dialling\<close>

text \<open>\<open>RECONNECT_DELAYS\<close>, in milliseconds.\<close>

definition reconnect_delays :: "nat list" where
  "reconnect_delays = [1000, 2000, 4000, 8000, 16000, 32000, 60000, 120000, 300000]"

definition schedule_reconnect :: "ws_config \<Rightarrow> wsm" where
  "schedule_reconnect cfg = bindm (reads id) (\<lambda>w.
     if wsc_closing w then ret ()
     else if \<not> cfg_reconnect cfg then ret ()
     else let base = reconnect_delays ! min (wsc_attempt w) (length reconnect_delays - 1);
              half = base div 2;
              delay = half + random_below cfg (half + 1)
          in modifies (\<lambda>w. w\<lparr>wsc_attempt := wsc_attempt w + 1, wsc_timer := Some delay\<rparr>))"

text \<open>\<open>_dial\<close>; the argument is what the framework's \<open>connect\<close> throws, if it does.\<close>

definition ws_dial :: "ws_config \<Rightarrow> ws_error option \<Rightarrow> wsm" where
  "ws_dial cfg thrown = thenm
     (modifies (\<lambda>w. w\<lparr>wsc_handshake := False,
        wsc_dialled := wsc_dialled w @ [if wsc_since w \<ge> 0 then wsc_since w else 0]\<rparr>))
     (case thrown of
        None \<Rightarrow> modifies (\<lambda>w. w\<lparr>wsc_live := True\<rparr>)
      | Some e \<Rightarrow>
          if is_terminal_error False e
          then do_all [modifies (\<lambda>w. w\<lparr>wsc_closing := True\<rparr>), ws_emit (WsRejected 0)]
          else do_all [ws_emit WsError, schedule_reconnect cfg])"

definition cancel_reconnect_timer :: wsm where
  "cancel_reconnect_timer = modifies (\<lambda>w. w\<lparr>wsc_timer := None\<rparr>)"

definition ws_connect :: "ws_config \<Rightarrow> int \<Rightarrow> ws_error option \<Rightarrow> wsm" where
  "ws_connect cfg since thrown = do_all [
     cancel_reconnect_timer,
     modifies (\<lambda>w. w\<lparr>wsc_live := False, wsc_since := since, wsc_closing := False, wsc_attempt := 0\<rparr>),
     ws_dial cfg thrown]"

definition ws_close :: wsm where
  "ws_close = do_all [
     modifies (\<lambda>w. w\<lparr>wsc_closing := True\<rparr>),
     cancel_reconnect_timer,
     modifies (\<lambda>w. w\<lparr>wsc_live := False\<rparr>)]"

definition update_since :: "int \<Rightarrow> wsm" where
  "update_since n = modifies (\<lambda>w. w\<lparr>wsc_since := n\<rparr>)"

text \<open>The reconnect timer.\<close>

definition timer_fires :: "ws_config \<Rightarrow> ws_error option \<Rightarrow> wsm" where
  "timer_fires cfg thrown = thenm cancel_reconnect_timer (bindm (reads id) (\<lambda>w.
     if wsc_closing w then ret ()
     else thenm (ws_emit (WsReconnecting (wsc_attempt w))) (ws_dial cfg thrown)))"

section \<open>The framework's events\<close>

text \<open>
  \<open>open\<close> says whether the socket was destroyed because it negotiated a classical TLS group; a message
  whether it is binary, and what it parses to.
\<close>

datatype client_event =
    COpen bool | CMessage bool "server_msg option" | CClose | CError ws_error

definition on_client_open :: "bool \<Rightarrow> wsm" where
  "on_client_open classical = bindm (reads wsc_closing) (\<lambda>closing.
     if closing then ret ()
     else if classical
     then do_all [modifies (\<lambda>w. w\<lparr>wsc_closing := True\<rparr>), ws_emit (WsRejected 0)]
     else do_all [modifies (\<lambda>w. w\<lparr>wsc_handshake := True, wsc_attempt := 0\<rparr>), ws_emit WsOpen])"

definition on_client_message :: "bool \<Rightarrow> server_msg option \<Rightarrow> wsm" where
  "on_client_message binary parsed = bindm (reads wsc_closing) (\<lambda>closing.
     if closing then ret ()
     else if binary then ret ()
     else (case parsed of None \<Rightarrow> ret () | Some m \<Rightarrow> ws_emit (WsMessage m)))"

definition on_client_close :: "ws_config \<Rightarrow> wsm" where
  "on_client_close cfg = do_all [
     modifies (\<lambda>w. w\<lparr>wsc_live := False\<rparr>),
     ws_emit WsClosed,
     bindm (reads wsc_closing) (\<lambda>closing. whenm (\<not> closing) (schedule_reconnect cfg))]"

text \<open>The part of the listener after \<open>_closing\<close> may have been set; \<open>terminal\<close> is the verdict.\<close>

definition report_error :: "bool \<Rightarrow> ws_error \<Rightarrow> wsm" where
  "report_error terminal e =
     (if is_ssrf_error e then ws_emit (WsRejected 0)
      else if er_code e = Some ''ws-client/bad-status'' then
        (if \<not> terminal then ret ()
         else let status = ws_error_status e in do_all [
           ws_emit (WsRejected status),
           whenm (status = 401 \<or> status = 403) (ws_emit (WsAuthError status))])
      else if terminal then ws_emit (WsRejected 0)
      else bindm (reads wsc_handshake) (\<lambda>handshake.
        if handshake \<and> er_code e = Some ''ws-client/connection-lost'' then ret () else ws_emit WsError))"

definition on_client_error :: "ws_error \<Rightarrow> wsm" where
  "on_client_error e = bindm (reads id) (\<lambda>w.
     if wsc_closing w then ret ()
     else let terminal = is_terminal_error (wsc_handshake w) e in
       thenm (whenm terminal (modifies (\<lambda>w. w\<lparr>wsc_closing := True\<rparr>))) (report_error terminal e))"

definition on_client_event :: "ws_config \<Rightarrow> client_event \<Rightarrow> wsm" where
  "on_client_event cfg ev = (case ev of
     COpen classical \<Rightarrow> on_client_open classical
   | CMessage binary parsed \<Rightarrow> on_client_message binary parsed
   | CClose \<Rightarrow> on_client_close cfg
   | CError e \<Rightarrow> on_client_error e)"

section \<open>The backoff\<close>

lemma wp_ws_emit [wp_rules]: "wp (ws_emit x) Q R = (\<lambda>w. Q () (w\<lparr>wsc_out := wsc_out w @ [x]\<rparr>))"
  by (simp add: ws_emit_def wp_rules)

lemma wp_cancel_timer [wp_rules]: "wp cancel_reconnect_timer Q R = (\<lambda>w. Q () (w\<lparr>wsc_timer := None\<rparr>))"
  by (simp add: cancel_reconnect_timer_def wp_rules)

text \<open>The rung of the ladder an attempt uses.\<close>

definition backoff :: "nat \<Rightarrow> nat" where
  "backoff n = reconnect_delays ! min n (length reconnect_delays - 1)"

lemma backoff_range: "1000 \<le> backoff n \<and> backoff n \<le> 300000"
proof -
  have "backoff n \<in> set reconnect_delays"
    unfolding backoff_def by (rule nth_mem) (simp add: reconnect_delays_def min_def)
  then show ?thesis by (auto simp: reconnect_delays_def)
qed

lemma wp_schedule [wp_rules]:
  "wp (schedule_reconnect cfg) Q R = (\<lambda>w.
     if wsc_closing w \<or> \<not> cfg_reconnect cfg then Q () w
     else Q () (w\<lparr>wsc_attempt := wsc_attempt w + 1,
       wsc_timer := Some (backoff (wsc_attempt w) div 2 + random_below cfg (backoff (wsc_attempt w) div 2 + 1))\<rparr>))"
  by (auto simp: fun_eq_iff schedule_reconnect_def wp_rules backoff_def Let_def)

text \<open>A reconnect is armed with at least half and at most the whole of its rung of the
  ladder, so never less than half a second and never more than five minutes, and the next failure
  uses the next rung.\<close>

theorem reconnect_delay_bounds:
  assumes "\<And>n. 0 < n \<Longrightarrow> random_below cfg n < n" and "\<not> wsc_closing w" and "cfg_reconnect cfg"
  shows "\<exists>d. wsc_timer (final (schedule_reconnect cfg) w) = Some d \<and>
    backoff (wsc_attempt w) div 2 \<le> d \<and> d \<le> backoff (wsc_attempt w) \<and> 500 \<le> d \<and> d \<le> 300000 \<and>
    wsc_attempt (final (schedule_reconnect cfg) w) = wsc_attempt w + 1"
proof -
  let ?b = "backoff (wsc_attempt w)"
  have "random_below cfg (?b div 2 + 1) < ?b div 2 + 1" using assms(1) by simp
  with backoff_range [of "wsc_attempt w"]
  have "wp (schedule_reconnect cfg) (\<lambda>_ w'. \<exists>d. wsc_timer w' = Some d \<and> ?b div 2 \<le> d \<and> d \<le> ?b \<and> 500 \<le> d \<and>
      d \<le> 300000 \<and> wsc_attempt w' = wsc_attempt w + 1) (\<lambda>_ _. False) w"
    using assms(2,3) by (auto simp: wp_rules)
  then show ?thesis by (auto simp: wp_def final_def split: prod.splits sum.splits)
qed

definition steady_ws :: ws_config where
  "steady_ws = \<lparr>cfg_reconnect = True, random_below = (\<lambda>n. n div 2)\<rparr>"

lemma reconnect_delay_bounds_witness:
  "\<exists>d. wsc_timer (final (schedule_reconnect steady_ws) (new_ws\<lparr>wsc_attempt := 20\<rparr>)) = Some d \<and>
     150000 \<le> d \<and> d \<le> 300000"
proof -
  let ?w = "new_ws\<lparr>wsc_attempt := 20\<rparr>"
  have "\<exists>d. wsc_timer (final (schedule_reconnect steady_ws) ?w) = Some d \<and>
      backoff (wsc_attempt ?w) div 2 \<le> d \<and> d \<le> backoff (wsc_attempt ?w) \<and> 500 \<le> d \<and> d \<le> 300000 \<and>
      wsc_attempt (final (schedule_reconnect steady_ws) ?w) = wsc_attempt ?w + 1"
    by (rule reconnect_delay_bounds) (simp_all add: steady_ws_def new_ws_def)
  moreover have "backoff (wsc_attempt ?w) = 300000"
    by (simp add: backoff_def reconnect_delays_def new_ws_def)
  ultimately have "\<exists>d. wsc_timer (final (schedule_reconnect steady_ws) ?w) = Some d \<and> 300000 div 2 \<le> d \<and> d \<le> 300000"
    by (simp only:) blast
  then show ?thesis by simp
qed

end
