(* ===== verification/Control_Channel.thy ===== *)
theory Control_Channel
  imports Ws_Client Lifecycle_Safety
begin

text \<open>
  The WebSocket client together with the engine's listeners: which event of the wrapper moves the
  engine where, and what a run of the two keeps. A step is an event of the live socket, the reconnect
  timer, or a redial by the engine.
\<close>

section \<open>The listeners\<close>

definition listen :: "env \<Rightarrow> bool \<Rightarrow> ws_event \<Rightarrow> engine \<Rightarrow> engine" where
  "listen E has_share x s = (case x of
     WsOpen \<Rightarrow> final (on_ws_open E has_share) s
   | WsMessage m \<Rightarrow> final (on_server_message E m) s
   | WsClosed \<Rightarrow> final on_ws_close s
   | WsError \<Rightarrow> final on_ws_error s
   | WsReconnecting _ \<Rightarrow> final (set_state StReconnecting) s
   | WsRejected status \<Rightarrow> final (on_upgrade_rejected status) s
   | WsAuthError _ \<Rightarrow> final on_auth_error s)"

text \<open>The wrapper runs, then the engine hears what it emitted.\<close>

definition heard :: "wsc \<Rightarrow> wsc \<Rightarrow> ws_event list" where
  "heard w w' = drop (length (wsc_out w)) (wsc_out w')"

definition channel_run :: "env \<Rightarrow> bool \<Rightarrow> wsm \<Rightarrow> wsc \<times> engine \<Rightarrow> wsc \<times> engine" where
  "channel_run E has_share m ws = (case ws of (w, s) \<Rightarrow>
     let w' = final m w in (w', fold (listen E has_share) (heard w w') s))"

section \<open>Runs\<close>

inductive channel_step :: "ws_config \<Rightarrow> wsc \<times> engine \<Rightarrow> wsc \<times> engine \<Rightarrow> bool" for cfg where
  socket: "wsc_live w \<Longrightarrow> channel_step cfg (w, s) (channel_run E share (on_client_event cfg ev) (w, s))"
| timer: "wsc_timer w = Some d \<Longrightarrow> channel_step cfg (w, s) (channel_run E share (timer_fires cfg thrown) (w, s))"
| redial: "channel_step cfg (w, s) (channel_run E share (thenm ws_close (ws_connect cfg n thrown)) (w, s'))"

inductive_cases channel_stepE: "channel_step cfg ws ws'"

text \<open>Every run begins with the engine's first \<open>connect\<close>.\<close>

inductive channel_reachable :: "ws_config \<Rightarrow> wsc \<times> engine \<Rightarrow> bool" for cfg where
  connected: "channel_reachable cfg (channel_run E share (ws_connect cfg n thrown) (new_ws, s))"
| stepped: "channel_reachable cfg ws \<Longrightarrow> channel_step cfg ws ws' \<Longrightarrow> channel_reachable cfg ws'"

section \<open>Invariant\<close>

definition told :: "wsc \<Rightarrow> engine \<Rightarrow> bool" where
  "told w s \<longleftrightarrow> e_state s = StError \<and> e_terminal_reject s \<or> (\<exists>n. WsAuthError n \<in> set (wsc_out w))"

definition channel_ok :: "wsc \<Rightarrow> engine \<Rightarrow> bool" where
  "channel_ok w s \<longleftrightarrow> (if wsc_closing w then wsc_timer w = None \<and> told w s
     else wsc_live w \<longleftrightarrow> wsc_timer w = None)"

text \<open>The wrapper's share of it, over what it emitted in the step.\<close>

definition emits_ok :: "wsc \<Rightarrow> wsc \<Rightarrow> bool" where
  "emits_ok w w' \<longleftrightarrow> (\<exists>xs. wsc_out w' = wsc_out w @ xs \<and>
     (if wsc_closing w' then wsc_timer w' = None \<and>
        (if wsc_closing w then set xs \<subseteq> {WsClosed}
         else \<exists>st. xs \<noteq> [] \<and> last xs = WsRejected st \<and> st \<noteq> 401 \<and> st \<noteq> 403 \<or> (\<exists>n. WsAuthError n \<in> set xs))
      else wsc_live w' \<longleftrightarrow> wsc_timer w' = None))"

lemma heard_append [simp]: "wsc_out w' = wsc_out w @ xs \<Longrightarrow> heard w w' = xs"
  by (simp add: heard_def)

lemma listen_rejected:
  "st \<noteq> 401 \<Longrightarrow> st \<noteq> 403 \<Longrightarrow> e_state (listen E share (WsRejected st) s) = StError \<and>
     e_terminal_reject (listen E share (WsRejected st) s)"
  by (simp add: listen_def on_upgrade_rejected_def final_def thenm_def bindm_def modifies_def set_state_def)

lemma listen_closed:
  "e_state s = StError \<and> e_terminal_reject s \<Longrightarrow> listen E share WsClosed s = s"
  by (simp add: listen_def on_ws_close_def final_def bindm_def reads_def ret_def)

lemma fold_closed:
  "set xs \<subseteq> {WsClosed} \<Longrightarrow> e_state s = StError \<and> e_terminal_reject s \<Longrightarrow> fold (listen E share) xs s = s"
  by (induction xs) (auto simp: listen_closed)

lemma channel_run_ok:
  assumes "emits_ok v (final m w)" and "wsc_out v = wsc_out w" and "wsc_closing v \<Longrightarrow> told v s"
  shows "case channel_run E share m (w, s) of (w', s') \<Rightarrow> channel_ok w' s'"
proof -
  let ?w = "final m w"
  from assms(1) obtain xs where xs: "wsc_out ?w = wsc_out v @ xs"
    and ok: "if wsc_closing ?w then wsc_timer ?w = None \<and>
        (if wsc_closing v then set xs \<subseteq> {WsClosed}
         else \<exists>st. xs \<noteq> [] \<and> last xs = WsRejected st \<and> st \<noteq> 401 \<and> st \<noteq> 403 \<or> (\<exists>n. WsAuthError n \<in> set xs))
      else wsc_live ?w \<longleftrightarrow> wsc_timer ?w = None"
    by (auto simp: emits_ok_def)
  let ?s = "fold (listen E share) xs s"
  have "told ?w ?s" if "wsc_closing ?w"
  proof (cases "wsc_closing v")
    case True
    with that ok assms(3) show ?thesis by (auto simp: told_def xs fold_closed)
  next
    case False
    with that ok obtain st where "xs \<noteq> [] \<and> last xs = WsRejected st \<and> st \<noteq> 401 \<and> st \<noteq> 403 \<or> (\<exists>n. WsAuthError n \<in> set xs)"
      by auto
    then show ?thesis
    proof
      assume "xs \<noteq> [] \<and> last xs = WsRejected st \<and> st \<noteq> 401 \<and> st \<noteq> 403"
      moreover then have "?s = listen E share (WsRejected st) (fold (listen E share) (butlast xs) s)"
        by (metis append_butlast_last_id fold_append fold_simps comp_apply)
      ultimately show ?thesis by (simp add: told_def listen_rejected)
    qed (auto simp: told_def xs)
  qed
  with ok assms(2) show ?thesis by (auto simp: channel_run_def channel_ok_def xs Let_def)
qed

lemma emits_okI: "wp m (\<lambda>_. emits_ok w) (\<lambda>_. emits_ok w) w \<Longrightarrow> emits_ok w (final m w)"
  by (rule wp_final)

lemma emits_none: "emits_ok w (w\<lparr>wsc_live := l, wsc_timer := t, wsc_attempt := a, wsc_handshake := h\<rparr>) \<longleftrightarrow>
    (if wsc_closing w then t = None else l \<longleftrightarrow> t = None)"
  by (auto simp: emits_ok_def)

lemma dial_emits:
  assumes "cfg_reconnect cfg" and "wsc_timer w = None" and "\<not> wsc_live w" and "\<not> wsc_closing w"
    and "wsc_out w = wsc_out w0 @ ys" and "\<not> wsc_closing w0"
  shows "wp (ws_dial cfg thrown) (\<lambda>_. emits_ok w0) (\<lambda>_. emits_ok w0) w"
  using assms
  by (auto simp: ws_dial_def wp_rules emits_ok_def split: option.split intro!: exI [of _ "ys @ [WsRejected 0]"]
      exI [of _ "0 :: int"] exI [of _ "ys @ [WsError]"] exI [of _ ys])

lemma client_event_emits:
  assumes "cfg_reconnect cfg" and "wsc_live w" and "wsc_timer w = None"
  shows "emits_ok w (final (on_client_event cfg ev) w)"
proof (rule emits_okI, cases ev)
  case (COpen classical)
  with assms show "wp (on_client_event cfg ev) (\<lambda>_. emits_ok w) (\<lambda>_. emits_ok w) w"
    by (auto simp: on_client_event_def on_client_open_def wp_rules emits_ok_def)
next
  case (CMessage binary parsed)
  with assms show "wp (on_client_event cfg ev) (\<lambda>_. emits_ok w) (\<lambda>_. emits_ok w) w"
    by (auto simp: on_client_event_def on_client_message_def wp_rules emits_ok_def split: option.split)
next
  case CClose
  with assms show "wp (on_client_event cfg ev) (\<lambda>_. emits_ok w) (\<lambda>_. emits_ok w) w"
    by (auto simp: on_client_event_def on_client_close_def wp_rules emits_ok_def)
next
  case (CError e)
  with assms show "wp (on_client_event cfg ev) (\<lambda>_. emits_ok w) (\<lambda>_. emits_ok w) w"
    by (auto simp: on_client_event_def on_client_error_def report_error_def wp_rules emits_ok_def Let_def)
qed

lemma timer_emits:
  assumes "cfg_reconnect cfg" and "\<not> wsc_live w" and "\<not> wsc_closing w"
  shows "emits_ok w (final (timer_fires cfg thrown) w)"
proof (rule emits_okI)
  show "wp (timer_fires cfg thrown) (\<lambda>_. emits_ok w) (\<lambda>_. emits_ok w) w"
    unfolding timer_fires_def wp_thenm wp_cancel_timer wp_bindm wp_reads wp_if
    using assms by (simp add: wp_thenm wp_ws_emit)
      (rule dial_emits [where ys = "[WsReconnecting (wsc_attempt w)]"], simp_all)
qed

lemma connect_emits:
  assumes "cfg_reconnect cfg"
  shows "emits_ok (w\<lparr>wsc_closing := False\<rparr>) (final (ws_connect cfg n thrown) w)"
    and "emits_ok (w\<lparr>wsc_closing := False\<rparr>) (final (thenm ws_close (ws_connect cfg n thrown)) w)"
proof -
  let ?v = "w\<lparr>wsc_closing := False\<rparr>"
  have ok: "wp (ws_connect cfg n thrown) (\<lambda>_. emits_ok ?v) (\<lambda>_. emits_ok ?v) w'" if "wsc_out w' = wsc_out w" for w'
  proof -
    let ?w = "w'\<lparr>wsc_timer := None, wsc_live := False, wsc_since := n, wsc_closing := False, wsc_attempt := 0\<rparr>"
    have "wp (ws_dial cfg thrown) (\<lambda>_. emits_ok ?v) (\<lambda>_. emits_ok ?v) ?w"
      by (rule dial_emits [where ys = "[]"]) (use assms that in simp_all)
    then show ?thesis by (simp add: ws_connect_def wp_rules)
  qed
  show "emits_ok ?v (final (ws_connect cfg n thrown) w)"
    by (rule wp_final) (rule ok, simp)
  have "wp (thenm ws_close (ws_connect cfg n thrown)) (\<lambda>_. emits_ok ?v) (\<lambda>_. emits_ok ?v) w"
    unfolding wp_thenm ws_close_def wp_do_all_Cons wp_do_all_Nil wp_modifies wp_cancel_timer
    by (rule ok) simp
  then show "emits_ok ?v (final (thenm ws_close (ws_connect cfg n thrown)) w)"
    by (rule wp_final)
qed

section \<open>Properties\<close>

lemma channel_ok_step:
  assumes "cfg_reconnect cfg" and "channel_step cfg (w, s) ws'" and "channel_ok w s"
  shows "case ws' of (w', s') \<Rightarrow> channel_ok w' s'"
  using assms(2)
proof (cases rule: channel_step.cases)
  case (socket E share ev)
  with assms(3) have "wsc_timer w = None" "wsc_closing w \<Longrightarrow> told w s"
    by (auto simp: channel_ok_def split: if_splits)
  with socket show ?thesis using channel_run_ok [OF client_event_emits [OF assms(1)]] by simp
next
  case (timer d E share thrown)
  with assms(3) have "\<not> wsc_live w" "\<not> wsc_closing w" by (auto simp: channel_ok_def split: if_splits)
  with timer show ?thesis using channel_run_ok [OF timer_emits [OF assms(1)]] by simp
next
  case (redial E share n thrown s')
  then show ?thesis using channel_run_ok [OF connect_emits(2) [OF assms(1)]] by simp
qed

text \<open>Property C6: the control channel is never silently dead. In every state of a run of the client and
  the listeners the engine attaches to it (no transfer of the engine in between), either the client has
  a live connection or an armed reconnect, and never both, so two connections cannot race; or it has given up for good, and then the engine shows the sticky error
  state, unless the server refused the credentials, which is announced by its own event.\<close>

theorem channel_never_silently_dead:
  assumes "channel_reachable cfg (w, s)" and "cfg_reconnect cfg"
  shows "if wsc_closing w
    then wsc_timer w = None \<and>
      (e_state s = StError \<and> e_terminal_reject s \<or> (\<exists>n. WsAuthError n \<in> set (wsc_out w)))
    else wsc_live w \<longleftrightarrow> wsc_timer w = None"
proof -
  have "case ws of (w, s) \<Rightarrow> channel_ok w s" if "channel_reachable cfg ws" for ws
    using that
  proof induction
    case (connected E share n thrown s)
    show ?case using channel_run_ok [OF connect_emits(1) [OF assms(2)]] by simp
  next
    case (stepped ws ws')
    then show ?case using channel_ok_step [OF assms(2)] by (cases ws) auto
  qed
  from this [OF assms(1)] show ?thesis by (auto simp: channel_ok_def told_def split: if_splits)
qed

lemma channel_never_silently_dead_witness:
  "wsc_live (final (ws_connect steady_ws 0 None) new_ws)"
proof -
  have "channel_reachable steady_ws (channel_run plain_env True (ws_connect steady_ws 0 None) (new_ws, idle_engine))"
    by (rule connected)
  then have "channel_reachable steady_ws (final (ws_connect steady_ws 0 None) new_ws,
      snd (channel_run plain_env True (ws_connect steady_ws 0 None) (new_ws, idle_engine)))"
    by (simp add: channel_run_def Let_def)
  from channel_never_silently_dead [OF this]
  show ?thesis
    by (simp add: steady_ws_def ws_connect_def ws_dial_def final_def thenm_def bindm_def modifies_def
      cancel_reconnect_timer_def new_ws_def)
qed

section \<open>Where the error state is lost\<close>

text \<open>A refusal of the credentials does not set the flag the \<open>close\<close> listener tests, so the close that
  follows it turns the error state into one that promises a reconnect, which will not come.\<close>

theorem auth_rejection_masked:
  "(let e = \<lparr>er_code = Some ''ws-client/bad-status'', er_permanent = True, er_status_code = Some 401,
              er_status = None, er_message = []\<rparr>;
        ws = channel_run plain_env True (ws_connect steady_ws 0 None) (new_ws, idle_engine\<lparr>e_state := StConnecting\<rparr>);
        (w, s) = channel_run plain_env True (on_client_event steady_ws CClose)
                   (channel_run plain_env True (on_client_event steady_ws (CError e)) ws)
    in (wsc_closing w, wsc_timer w, e_state s)) = (True, None, StReconnecting)"
  by code_simp

definition reported :: "engine \<Rightarrow> sync_state \<times> bool \<times> nat \<times> nat \<times> nat" where
  "reported s = (e_state s, e_terminal_reject s, e_active_downloads s, e_pool_inflight s, e_pool_queued s)"

lemma stable_reported_db:
  "stable reported (db_upsert E r)" "stable reported (db_update_status E p fs)"
  "stable reported (mark_permanent p)" "stable reported (clear_permanent p)"
  by (rule stableI, simp add: wp_rules reported_def)+

lemma stable_reported_download:
  assumes "download_flip E rel = NoFlip"
  shows "stable reported (http_download E rel fid full expected wanted)"
  unfolding http_download_def assms
  by (intro stable_intros)
    (auto intro!: stable_intros stable_modifies simp: reported_def apply_flip_def split: sum.split dl_error.split
      simp del: do_all.simps)

lemma stable_reported_attempt:
  assumes "download_flip E rel = NoFlip"
  shows "stable reported (try_catch (download_attempt E rel fid expected sz full) (download_failed E rel))"
  unfolding download_attempt_def download_failed_def Let_def
  by (intro stable_intros stable_reported_db stable_reported_download assms)
    (auto intro!: stable_intros stable_reported_db split: node.split exn.split bool.split)

text \<open>The sticky error state does not survive a transfer. Whatever the outcome of a download,
  an engine in the error state, with no other transfer and no teardown, reports SYNCED when it ends,
  even after a rejection that closed the control channel for good.\<close>

theorem transfer_masks_rejection:
  assumes "e_state s = StError" and "e_terminal_reject s" and "e_active_downloads s = 0" and "\<not> pool_busy s"
    and "download_flip E rel = NoFlip"
  shows "e_state (final (download_file_locked E rel fid expected sz full) s) = StSynced \<and>
    e_terminal_reject (final (download_file_locked E rel fid expected sz full) s)"
proof -
  let ?v = "(StDownloading, True, 1, 0, 0)"
  let ?Q = "\<lambda>s'. e_state s' = StSynced \<and> e_terminal_reject s'"
  let ?body = "try_catch (download_attempt E rel fid expected sz full) (download_failed E rel)"
  have start: "wp (download_begin E rel) (\<lambda>_ s'. reported s' = ?v) (\<lambda>_ s'. reported s' = ?v) s"
    using assms(1-4) by (simp add: download_begin_def suppress_path_def wp_rules reported_def pool_busy_def Let_def)
  have fin: "wp (download_end E rel) (\<lambda>_. ?Q) (\<lambda>_. ?Q) s'" if "reported s' = ?v" for s'
    using that by (simp add: download_end_def release_path_def maybe_mark_synced_def maybe_finish_catch_up_def
        wp_rules reported_def Let_def)
  have "wp ?body (\<lambda>_ s'. reported s' = ?v) (\<lambda>_ s'. reported s' = ?v) s'" if "reported s' = ?v" for s'
    using stableD [OF stable_reported_attempt [OF assms(5)], of fid expected sz full s'] that by simp
  note body = this
  have "wp (finallym ?body (download_end E rel)) (\<lambda>_. ?Q) (\<lambda>_. ?Q) s'" if "reported s' = ?v" for s'
    unfolding wp_finallym by (rule wp_conseq [OF body [OF that]]) (rule fin, assumption)+
  with start have "wp (download_file_locked E rel fid expected sz full) (\<lambda>_. ?Q) (\<lambda>_. ?Q) s"
    unfolding download_file_locked_def wp_thenm
    by (auto simp: download_begin_def suppress_path_def wp_rules Let_def)
  then show ?thesis by (rule wp_final)
qed

lemma transfer_masks_rejection_witness:
  "e_state (final (download_file_locked plain_env ''a'' (Val ''1'') (Val ''h'') (Val 3) ''/d/a'')
     (idle_engine\<lparr>e_state := StError, e_terminal_reject := True\<rparr>)) = StSynced"
  using transfer_masks_rejection [of "idle_engine\<lparr>e_state := StError, e_terminal_reject := True\<rparr>" plain_env "''a''"]
  by (simp add: idle_engine_def plain_env_def pool_busy_def)

end
