(* ===== verification/Watcher.thy ===== *)
theory Watcher
  imports Exn_Monad Path_Filter
begin

text \<open>
  The wrapper of the framework's folder watcher (\<open>lib/watcher.js\<close>): which ignore patterns it forwards,
  and the state machine that re-creates the handle after a fatal stop. The handle is the framework's;
  whether creating one succeeds, its errors and the end of its first walk are the inputs.
\<close>

section \<open>Forwarded patterns\<close>

text \<open>The runtime's Unicode functions with the decomposed form, and the framework's two caps.\<close>

record watch_ops =
  wo_text :: text_ops
  nfd :: "string \<Rightarrow> string"
  max_ignore_len :: nat
  max_ignore_stars :: nat

definition forwardable :: "watch_ops \<Rightarrow> string \<Rightarrow> bool" where
  "forwardable W f \<longleftrightarrow> f \<noteq> [] \<and> length f \<le> max_ignore_len W \<and> count_list f star \<le> max_ignore_stars W"

definition pattern_forms :: "watch_ops \<Rightarrow> string \<Rightarrow> string list" where
  "pattern_forms W p = (let slashed = fold_sep backslash p in
     [slashed, nfc (wo_text W) slashed, nfd W slashed])"

fun add_forms :: "watch_ops \<Rightarrow> string list \<Rightarrow> string list \<Rightarrow> string list" where
  "add_forms W [] out = out"
| "add_forms W (f # fs) out =
     add_forms W fs (if f \<in> set out \<or> \<not> forwardable W f then out else out @ [f])"

fun add_pattern :: "watch_ops \<Rightarrow> js_pattern \<Rightarrow> string list \<Rightarrow> string list" where
  "add_pattern W PNonStr out = out"
| "add_pattern W (PStr p) out =
     (if classify_pattern (wo_text W) (PStr p) \<in> {RecursiveDir, PathQualified}
      then add_forms W (pattern_forms W p) out else out)"

definition dir_prefix_ignores :: "watch_ops \<Rightarrow> js_pattern list \<Rightarrow> string list" where
  "dir_prefix_ignores W ps = fold (add_pattern W) ps []"

section \<open>State\<close>

record watch_error =
  we_code :: "string option"
  we_fatal :: bool

definition fatal_watcher_codes :: "string list" where
  "fatal_watcher_codes = [''watcher/handle-dead'', ''watcher/root-lost'', ''watcher/overflow'',
     ''watcher/poll-overflow'', ''watcher/start-failed'', ''watcher/recursive-unsupported'']"

definition is_fatal :: "watch_error \<Rightarrow> bool" where
  "is_fatal e \<longleftrightarrow> we_fatal e \<or> (case we_code e of None \<Rightarrow> False | Some c \<Rightarrow> c \<in> set fatal_watcher_codes)"

datatype watch_event = WtError | WtFatal | WtDegraded | WtRescan

type_synonym handle_id = nat

record wtc =
  wt_stopped :: bool
  wt_handle :: "handle_id option"
  wt_next :: handle_id                     \<comment> \<open>handles created so far\<close>
  wt_recovering :: bool
  wt_attempts :: nat
  wt_recovery :: "nat option"              \<comment> \<open>the delay a re-create is armed with\<close>
  wt_stable :: "handle_id option"          \<comment> \<open>the handle the stability timer watches\<close>
  wt_rescan_on :: "handle_id set"          \<comment> \<open>handles whose first walk ends in a rescan\<close>
  wt_stable_on :: "handle_id set"          \<comment> \<open>handles whose first walk arms the stability timer\<close>
  wt_ignore :: "js_pattern list"
  wt_include :: "js_pattern list"
  wt_dirs :: "string list"
  wt_out :: "watch_event list"

type_synonym wtm = "(wtc, unit, unit) prog"

definition recovery_backoff_ms :: "nat list" where
  "recovery_backoff_ms = [500, 2000, 5000, 15000]"

definition max_recovery_attempts :: nat where
  "max_recovery_attempts = length recovery_backoff_ms"

definition new_watcher :: "watch_ops \<Rightarrow> js_pattern list \<Rightarrow> js_pattern list \<Rightarrow> wtc" where
  "new_watcher W ign inc = \<lparr>wt_stopped = False, wt_handle = None, wt_next = 0, wt_recovering = False,
     wt_attempts = 0, wt_recovery = None, wt_stable = None, wt_rescan_on = {}, wt_stable_on = {},
     wt_ignore = ign, wt_include = inc, wt_dirs = dir_prefix_ignores W ign, wt_out = []\<rparr>"

definition wt_emit :: "watch_event \<Rightarrow> wtm" where
  "wt_emit x = modifies (\<lambda>w. w\<lparr>wt_out := wt_out w @ [x]\<rparr>)"

text \<open>\<open>b.watcher.create\<close>; the argument says whether it returns.\<close>

definition create_handle :: "bool \<Rightarrow> wtm" where
  "create_handle ok = (if ok then modifies (\<lambda>w. w\<lparr>wt_handle := Some (wt_next w), wt_next := wt_next w + 1\<rparr>)
     else throw ())"

section \<open>Operations\<close>

definition watch_start :: "bool \<Rightarrow> wtm" where
  "watch_start ok = bindm (reads wt_handle) (\<lambda>h.
     if h \<noteq> None then ret ()
     else do_all [
       modifies (\<lambda>w. w\<lparr>wt_stopped := False\<rparr>),
       create_handle ok,
       modifies (\<lambda>w. w\<lparr>wt_attempts := 0\<rparr>)])"

definition rescan_when_ready :: wtm where
  "rescan_when_ready = modifies (\<lambda>w. case wt_handle w of None \<Rightarrow> w
     | Some h \<Rightarrow> w\<lparr>wt_rescan_on := insert h (wt_rescan_on w)\<rparr>)"

definition schedule_recovery :: wtm where
  "schedule_recovery = bindm (reads id) (\<lambda>w.
     if wt_stopped w \<or> wt_recovering w \<or> wt_handle w \<noteq> None then ret ()
     else if wt_attempts w \<ge> max_recovery_attempts then wt_emit WtDegraded
     else modifies (\<lambda>w. w\<lparr>wt_recovering := True, wt_recovery := Some (recovery_backoff_ms ! wt_attempts w)\<rparr>))"

definition on_watcher_error :: "watch_error \<Rightarrow> wtm" where
  "on_watcher_error e = bindm (reads wt_stopped) (\<lambda>stopped.
     if stopped then ret ()
     else if is_fatal e then do_all [
       modifies (\<lambda>w. w\<lparr>wt_handle := None, wt_stable := None\<rparr>),
       wt_emit WtFatal,
       schedule_recovery]
     else wt_emit WtError)"

definition recreate :: "watch_ops \<Rightarrow> bool \<Rightarrow> wtm" where
  "recreate W ok = bindm (reads id) (\<lambda>w.
     if wt_stopped w \<or> wt_handle w \<noteq> None then ret ()
     else thenm (modifies (\<lambda>w. w\<lparr>wt_attempts := wt_attempts w + 1\<rparr>))
       (try_catch
         (do_all [
            modifies (\<lambda>w. w\<lparr>wt_dirs := dir_prefix_ignores W (wt_ignore w)\<rparr>),
            create_handle ok,
            rescan_when_ready,
            modifies (\<lambda>w. w\<lparr>wt_stable_on := wt_stable_on w \<union> set_option (wt_handle w)\<rparr>)])
         (\<lambda>_. schedule_recovery)))"

text \<open>The recovery timer, the end of a first walk, and the stability timer.\<close>

definition recovery_fires :: "watch_ops \<Rightarrow> bool \<Rightarrow> wtm" where
  "recovery_fires W ok = bindm (reads wt_recovery) (\<lambda>armed.
     if armed = None then ret ()
     else thenm (modifies (\<lambda>w. w\<lparr>wt_recovery := None, wt_recovering := False\<rparr>)) (recreate W ok))"

definition baseline_ready :: "handle_id \<Rightarrow> wtm" where
  "baseline_ready h = bindm (reads id) (\<lambda>w.
     let live = (wt_handle w = Some h \<and> \<not> wt_stopped w) in do_all [
       whenm (h \<in> wt_rescan_on w \<and> live) (wt_emit WtRescan),
       whenm (h \<in> wt_stable_on w \<and> live) (modifies (\<lambda>w. w\<lparr>wt_stable := Some h\<rparr>)),
       modifies (\<lambda>w. w\<lparr>wt_rescan_on := wt_rescan_on w - {h}, wt_stable_on := wt_stable_on w - {h}\<rparr>)])"

definition stable_fires :: wtm where
  "stable_fires = modifies (\<lambda>w. case wt_stable w of None \<Rightarrow> w
     | Some h \<Rightarrow> if wt_handle w = Some h \<and> \<not> wt_stopped w then w\<lparr>wt_stable := None, wt_attempts := 0\<rparr>
                 else w\<lparr>wt_stable := None\<rparr>)"

definition watch_stop :: wtm where
  "watch_stop = modifies (\<lambda>w. w\<lparr>wt_stopped := True, wt_recovery := None, wt_stable := None,
     wt_recovering := False, wt_handle := None\<rparr>)"

text \<open>\<open>updatePatterns\<close>.\<close>

definition watch_update_patterns ::
    "watch_ops \<Rightarrow> js_pattern list option \<Rightarrow> js_pattern list option \<Rightarrow> bool \<Rightarrow> wtm" where
  "watch_update_patterns W ign inc ok = (let
     ign' = (case ign of None \<Rightarrow> [] | Some ps \<Rightarrow> ps);
     next_dirs = dir_prefix_ignores W ign'
   in bindm (reads (\<lambda>w. next_dirs \<noteq> wt_dirs w)) (\<lambda>changed. thenm
     (modifies (\<lambda>w. w\<lparr>wt_ignore := ign', wt_include := (case inc of None \<Rightarrow> [] | Some ps \<Rightarrow> ps), wt_dirs := next_dirs\<rparr>))
     (bindm (reads wt_stopped) (\<lambda>stopped.
        if \<not> changed \<or> stopped then ret ()
        else thenm
          (modifies (\<lambda>w. if wt_handle w \<noteq> None then w\<lparr>wt_handle := None\<rparr>
             else w\<lparr>wt_recovering := False, wt_recovery := None, wt_attempts := 0\<rparr>))
          (try_catch (thenm (watch_start ok) rescan_when_ready)
             (\<lambda>_. do_all [modifies (\<lambda>w. w\<lparr>wt_handle := None\<rparr>), wt_emit WtFatal, schedule_recovery]))))))"

section \<open>Events\<close>

text \<open>What the framework reports of a path, and the event the wrapper emits for it.\<close>

record raw_event =
  re_dir :: bool
  re_rel :: string
  re_full :: path

definition watch_scope :: "watch_ops \<Rightarrow> bool \<Rightarrow> wtc \<Rightarrow> string \<Rightarrow> bool" where
  "watch_scope W case_fold w rel = should_sync (wo_text W) rel
     \<lparr>opt_include = Some (wt_include w), opt_ignore = Some (wt_ignore w), opt_case_fold = case_fold\<rparr>"

definition reported_path :: "watch_ops \<Rightarrow> string \<Rightarrow> string" where
  "reported_path W raw = nfc (wo_text W) (fold_sep (path_sep (wo_text W)) raw)"

definition watched_change :: "watch_ops \<Rightarrow> bool \<Rightarrow> wtc \<Rightarrow> raw_event \<Rightarrow> (string \<times> path) option" where
  "watched_change W case_fold w ev = (if re_dir ev then None
     else let rel = reported_path W (re_rel ev) in
       if \<not> watch_scope W case_fold w rel then None else Some (rel, re_full ev))"

definition watched_delete :: "watch_ops \<Rightarrow> bool \<Rightarrow> wtc \<Rightarrow> raw_event \<Rightarrow> (string \<times> path) option" where
  "watched_delete W case_fold w ev = (let rel = reported_path W (re_rel ev) in
     if \<not> watch_scope W case_fold w rel then None else Some (rel, re_full ev))"

end
