(* ===== verification/Watcher_Safety.thy ===== *)
theory Watcher_Safety
  imports Watcher
begin

text \<open>
  What the watcher's wrapper guarantees over any sequence of the things that can happen to it: local
  changes are being detected, or a re-create is armed, or the wrapper has given up and said so; the
  re-creates are bounded; and no forwarded pattern hides a path that syncs.
\<close>

section \<open>Runs\<close>

text \<open>What can happen once \<open>start()\<close> has succeeded.\<close>

datatype watch_input =
    IError watch_error | IRecovery bool | IBaseline handle_id | IStable
  | IPatterns "js_pattern list option" "js_pattern list option" bool | IStop

fun watch_input_run :: "watch_ops \<Rightarrow> watch_input \<Rightarrow> wtm" where
  "watch_input_run W (IError e) = on_watcher_error e"
| "watch_input_run W (IRecovery ok) = recovery_fires W ok"
| "watch_input_run W (IBaseline h) = baseline_ready h"
| "watch_input_run W IStable = stable_fires"
| "watch_input_run W (IPatterns ign inc ok) = watch_update_patterns W ign inc ok"
| "watch_input_run W IStop = watch_stop"

definition watch_runs :: "watch_ops \<Rightarrow> watch_input list \<Rightarrow> wtc \<Rightarrow> wtc" where
  "watch_runs W xs w = fold (\<lambda>x. final (watch_input_run W x)) xs w"

definition started :: "watch_ops \<Rightarrow> js_pattern list \<Rightarrow> js_pattern list \<Rightarrow> wtc" where
  "started W ign inc = final (watch_start True) (new_watcher W ign inc)"

section \<open>Invariant\<close>

definition watch_ok :: "wtc \<Rightarrow> bool" where
  "watch_ok w \<longleftrightarrow>
     (wt_recovering w \<longleftrightarrow> wt_recovery w \<noteq> None) \<and>
     (wt_recovery w \<noteq> None \<longrightarrow> wt_handle w = None \<and> \<not> wt_stopped w \<and> wt_attempts w < max_recovery_attempts) \<and>
     wt_attempts w \<le> max_recovery_attempts \<and>
     (wt_stopped w \<longrightarrow> wt_handle w = None) \<and>
     (\<not> wt_stopped w \<and> wt_handle w = None \<and> wt_recovery w = None \<longrightarrow> WtDegraded \<in> set (wt_out w))"

lemma max_recovery_attempts_4 [simp]: "max_recovery_attempts = 4"
  by (simp add: max_recovery_attempts_def recovery_backoff_ms_def)

lemma wp_schedule_recovery [wp_rules]:
  "wp schedule_recovery Q R = (\<lambda>w.
     if wt_stopped w \<or> wt_recovering w \<or> wt_handle w \<noteq> None then Q () w
     else if wt_attempts w \<ge> 4 then Q () (w\<lparr>wt_out := wt_out w @ [WtDegraded]\<rparr>)
     else Q () (w\<lparr>wt_recovering := True, wt_recovery := Some (recovery_backoff_ms ! wt_attempts w)\<rparr>))"
  by (auto simp: fun_eq_iff schedule_recovery_def wt_emit_def wp_rules)

lemma wp_create_handle [wp_rules]:
  "wp (create_handle ok) Q R = (if ok then (\<lambda>w. Q () (w\<lparr>wt_handle := Some (wt_next w), wt_next := wt_next w + 1\<rparr>))
     else R ())"
  by (simp add: create_handle_def wp_rules)

text \<open>The invariant with the bound on the handles created so far.\<close>

definition budget :: "nat \<Rightarrow> wtc \<Rightarrow> bool" where
  "budget k w \<longleftrightarrow> watch_ok w \<and> wt_next w \<le> k + wt_attempts w"

lemma keeps_error: "watch_ok w \<Longrightarrow> wp (on_watcher_error e) (\<lambda>_. watch_ok) (\<lambda>_. watch_ok) w"
    "budget k w \<Longrightarrow> wp (on_watcher_error e) (\<lambda>_. budget k) (\<lambda>_. budget k) w"
  by (auto simp: on_watcher_error_def wt_emit_def wp_rules watch_ok_def budget_def)

lemma keeps_recovery: "watch_ok w \<Longrightarrow> wp (recovery_fires W ok) (\<lambda>_. watch_ok) (\<lambda>_. watch_ok) w"
    "budget k w \<Longrightarrow> wp (recovery_fires W ok) (\<lambda>_. budget k) (\<lambda>_. budget k) w"
  by (auto simp: recovery_fires_def recreate_def rescan_when_ready_def wp_rules watch_ok_def budget_def)

lemma keeps_baseline: "watch_ok w \<Longrightarrow> wp (baseline_ready h) (\<lambda>_. watch_ok) (\<lambda>_. watch_ok) w"
    "budget k w \<Longrightarrow> wp (baseline_ready h) (\<lambda>_. budget k) (\<lambda>_. budget k) w"
proof -
  have [simp]: "watch_ok (v\<lparr>wt_out := wt_out v @ xs\<rparr>)" if "watch_ok v" for v xs
    using that by (simp add: watch_ok_def)
  have [simp]: "watch_ok (v\<lparr>wt_stable := t\<rparr>) = watch_ok v" for v t
    by (simp add: watch_ok_def)
  have [simp]: "watch_ok (v\<lparr>wt_rescan_on := x, wt_stable_on := y\<rparr>) = watch_ok v" for v x y
    by (simp add: watch_ok_def)
  show "watch_ok w \<Longrightarrow> wp (baseline_ready h) (\<lambda>_. watch_ok) (\<lambda>_. watch_ok) w"
    "budget k w \<Longrightarrow> wp (baseline_ready h) (\<lambda>_. budget k) (\<lambda>_. budget k) w"
    by (simp_all add: baseline_ready_def wt_emit_def wp_bindm wp_reads wp_do_all_Cons wp_do_all_Nil
        wp_whenm wp_modifies Let_def budget_def del: do_all.simps)
qed

lemma keeps_stability: "watch_ok w \<Longrightarrow> wp stable_fires (\<lambda>_. watch_ok) (\<lambda>_. watch_ok) w"
  by (auto simp: stable_fires_def wp_rules watch_ok_def split: option.split)

lemma keeps_stop: "watch_ok w \<Longrightarrow> wp watch_stop (\<lambda>_. watch_ok) (\<lambda>_. watch_ok) w"
  by (auto simp: watch_stop_def wp_rules watch_ok_def)

lemma keeps_patterns: "watch_ok w \<Longrightarrow> wp (watch_update_patterns W ign inc ok) (\<lambda>_. watch_ok) (\<lambda>_. watch_ok) w"
  unfolding watch_update_patterns_def Let_def wp_bindm wp_reads wp_thenm wp_modifies wp_if wp_ret wp_try_catch
    watch_start_def rescan_when_ready_def wt_emit_def
  by (cases "wt_handle w") (simp_all add: wp_rules watch_ok_def)

lemma keeps_watch_ok: "watch_ok w \<Longrightarrow> wp (watch_input_run W x) (\<lambda>_. watch_ok) (\<lambda>_. watch_ok) w"
  by (cases x) (simp_all add: keeps_error keeps_recovery keeps_baseline keeps_stability keeps_stop keeps_patterns)

lemma started_ok: "watch_ok (started W ign inc)"
  by (simp add: started_def watch_start_def create_handle_def new_watcher_def final_def bindm_def
      reads_def thenm_def modifies_def watch_ok_def)

lemma watch_runs_ok: "watch_ok w \<Longrightarrow> watch_ok (watch_runs W xs w)"
  by (induction xs arbitrary: w)
    (auto simp: watch_runs_def intro: wp_final [OF keeps_watch_ok])

text \<open>Property C7: whatever errors, timers, pattern reloads and stops follow a successful start, a watcher
  that was not stopped has a live handle, or a re-create armed, or has reported that detection is off.
  A re-create is armed only while there is no handle, so two handles never watch the folder at once.\<close>

theorem watcher_never_silently_off:
  "let w = watch_runs W xs (started W ign inc)
   in if wt_stopped w then wt_handle w = None \<and> wt_recovery w = None
      else case wt_handle w of
        Some h \<Rightarrow> wt_recovery w = None
      | None \<Rightarrow> (case wt_recovery w of
          Some d \<Rightarrow> wt_attempts w < 4
        | None \<Rightarrow> WtDegraded \<in> set (wt_out w))"
  using watch_runs_ok [OF started_ok, of W xs W ign inc]
  by (auto simp: Let_def watch_ok_def split: option.split)

section \<open>Bounded recovery\<close>

text \<open>Everything but the end of a stability window and a pattern reload.\<close>

fun failing_input :: "watch_input \<Rightarrow> bool" where
  "failing_input (IError e) = True"
| "failing_input (IRecovery ok) = True"
| "failing_input (IBaseline h) = True"
| "failing_input _ = False"

lemma keeps_budget:
  "failing_input x \<Longrightarrow> budget k w \<Longrightarrow> wp (watch_input_run W x) (\<lambda>_. budget k) (\<lambda>_. budget k) w"
  by (cases x) (simp_all add: keeps_error keeps_recovery keeps_baseline)

lemma watch_runs_budget: "\<forall>x \<in> set xs. failing_input x \<Longrightarrow> budget k w \<Longrightarrow> budget k (watch_runs W xs w)"
  by (induction xs arbitrary: w)
    (auto simp: watch_runs_def intro: wp_final [OF keeps_budget])

text \<open>Property C32: recovery is bounded. From any state of a run, however many errors, re-creates and ends of
  first walks follow, at most four handles are created until one survives its stability window or the
  patterns are reloaded; so a folder that keeps overflowing settles instead of looping.\<close>

theorem watcher_recovery_bounded:
  assumes "\<And>x. x \<in> set xs \<Longrightarrow> failing_input x"
  shows "wt_next (watch_runs W (pre @ xs) (started W ign inc)) \<le>
    wt_next (watch_runs W pre (started W ign inc)) + 4"
proof -
  let ?w = "watch_runs W pre (started W ign inc)"
  have "budget (wt_next ?w) ?w"
    by (simp add: budget_def watch_runs_ok started_ok)
  then have "budget (wt_next ?w) (watch_runs W xs ?w)"
    using assms by (intro watch_runs_budget [where w = ?w]) blast+
  then show ?thesis by (auto simp: budget_def watch_ok_def watch_runs_def)
qed

lemma watcher_recovery_bounded_witness:
  "wt_next (watch_runs \<lparr>wo_text = ascii_ops, nfd = (\<lambda>s. s), max_ignore_len = 256, max_ignore_stars = 16\<rparr>
     ([] @ [IError \<lparr>we_code = None, we_fatal = True\<rparr>, IRecovery True])
     (started \<lparr>wo_text = ascii_ops, nfd = (\<lambda>s. s), max_ignore_len = 256, max_ignore_stars = 16\<rparr> [] []))
   \<le> wt_next (watch_runs \<lparr>wo_text = ascii_ops, nfd = (\<lambda>s. s), max_ignore_len = 256, max_ignore_stars = 16\<rparr> []
     (started \<lparr>wo_text = ascii_ops, nfd = (\<lambda>s. s), max_ignore_len = 256, max_ignore_stars = 16\<rparr> [] [])) + 4"
  by (rule watcher_recovery_bounded) auto

end
