(* ===== verification/Watcher_Forward.thy ===== *)
theory Watcher_Forward
  imports Watcher_Safety
begin

text \<open>
  The ignore patterns the wrapper hands to the framework's watcher so that its walk skips whole
  subtrees. The framework refuses a pattern it cannot compile by throwing, which would take the watcher
  down, and it never reports a path it prunes; so every forwarded pattern must compile, and must hide
  only paths the filter drops anyway. Both are shown for a case-sensitive volume.
\<close>

section \<open>The framework's matcher\<close>

text \<open>\<open>_compileIgnore\<close> of the vendored watcher: what it accepts, and what a compiled pattern prunes.
  \<open>glob\<close> stands for its matcher of patterns with a single star, which the wrapper never forwards.\<close>

fun has_double_star :: "string \<Rightarrow> bool" where
  "has_double_star (a # b # cs) = (a = star \<and> b = star \<or> has_double_star (b # cs))"
| "has_double_star _ = False"

definition trailing_double_star :: "string \<Rightarrow> bool" where
  "trailing_double_star p \<longleftrightarrow> ends_with p [star, star] \<and> star \<notin> set (take (length p - 2) p)"

definition framework_accepts :: "watch_ops \<Rightarrow> string \<Rightarrow> bool" where
  "framework_accepts W p \<longleftrightarrow> p \<noteq> [] \<and> length p \<le> max_ignore_len W \<and> count_list p star \<le> max_ignore_stars W \<and>
     (if has_double_star p then trailing_double_star p else True)"

definition ignore_prefix :: "string \<Rightarrow> string" where
  "ignore_prefix p = (let t = take (length p - 2) p in if ends_with t [slash] then butlast t else t)"

definition framework_prunes :: "(string \<Rightarrow> path \<Rightarrow> bool) \<Rightarrow> watch_ops \<Rightarrow> string \<Rightarrow> path \<Rightarrow> bool" where
  "framework_prunes glob W p rel = (let normalized = fold_sep (path_sep (wo_text W)) rel in
     if has_double_star p
     then normalized = ignore_prefix p \<or> starts_with normalized (ignore_prefix p @ [slash])
     else if star \<in> set p then glob p (basename rel)
     else p = rel \<or> p = normalized)"

section \<open>Unicode\<close>

text \<open>What the standard promises of the two canonical forms: they agree up to composition, the ASCII
  separators and the star neither appear nor vanish, and compose with nothing beside them.\<close>

definition unicode_forms :: "watch_ops \<Rightarrow> bool" where
  "unicode_forms W \<longleftrightarrow> (let c = nfc (wo_text W); d = nfd W in
     (\<forall>s. c (d s) = c s \<and> c (c s) = c s) \<and>
     (\<forall>x \<in> {slash, star}. \<forall>a b. c (a @ x # b) = c a @ x # c b) \<and>
     (\<forall>x \<in> {slash, star, backslash}. \<forall>s. (x \<in> set (c s) \<longleftrightarrow> x \<in> set s) \<and> (x \<in> set (d s) \<longleftrightarrow> x \<in> set s)) \<and>
     (\<forall>s. c s = [] \<longleftrightarrow> s = []) \<and>
     path_sep (wo_text W) \<in> {slash, backslash})"

lemma unicode_formsD:
  assumes "unicode_forms W"
  shows "nfc (wo_text W) (nfd W s) = nfc (wo_text W) s"
    and "nfc (wo_text W) (nfc (wo_text W) s) = nfc (wo_text W) s"
    and "x \<in> {slash, star} \<Longrightarrow> nfc (wo_text W) (a @ x # b) = nfc (wo_text W) a @ x # nfc (wo_text W) b"
    and "x \<in> {slash, star, backslash} \<Longrightarrow> x \<in> set (nfc (wo_text W) s) \<longleftrightarrow> x \<in> set s"
    and "x \<in> {slash, star, backslash} \<Longrightarrow> x \<in> set (nfd W s) \<longleftrightarrow> x \<in> set s"
    and "nfc (wo_text W) s = [] \<longleftrightarrow> s = []"
    and "path_sep (wo_text W) \<in> {slash, backslash}"
proof -
  let ?c = "nfc (wo_text W)" and ?d = "nfd W"
  note u = assms [unfolded unicode_forms_def Let_def]
  note f = u [THEN conjunct1] and k = u [THEN conjunct2, THEN conjunct1]
  note m = u [THEN conjunct2, THEN conjunct2, THEN conjunct1]
  note n = u [THEN conjunct2, THEN conjunct2, THEN conjunct2, THEN conjunct1]
  note e = u [THEN conjunct2, THEN conjunct2, THEN conjunct2, THEN conjunct2]
  from f show "?c (?d s) = ?c s" and "?c (?c s) = ?c s" by simp_all
  show "?c (a @ x # b) = ?c a @ x # ?c b" if "x \<in> {slash, star}"
    using bspec [OF k that] by simp
  show "x \<in> set (?c s) \<longleftrightarrow> x \<in> set s" if "x \<in> {slash, star, backslash}"
    using bspec [OF m that] by simp
  show "x \<in> set (?d s) \<longleftrightarrow> x \<in> set s" if "x \<in> {slash, star, backslash}"
    using bspec [OF m that] by simp
  from n show "?c s = [] \<longleftrightarrow> s = []" by simp
  from e show "path_sep (wo_text W) \<in> {slash, backslash}" .
qed

lemma fold_sep_absent: "c = slash \<or> c \<notin> set s \<Longrightarrow> fold_sep c s = s"
  unfolding fold_sep_def by (rule map_idI) auto

lemma nfc_snoc:
  assumes u: "unicode_forms W" and x: "x \<in> {slash, star}" and s: "nfc (wo_text W) s = d @ [x]"
  shows "\<exists>e. s = e @ [x] \<and> nfc (wo_text W) e = d"
proof -
  from s have "x \<in> set (nfc (wo_text W) s)" by simp
  then have "x \<in> set s" using unicode_formsD(4) [OF u] x by blast
  then obtain e b where e: "s = e @ x # b" "x \<notin> set b" by (meson split_list_last)
  then have n: "nfc (wo_text W) e @ x # nfc (wo_text W) b = d @ [x]"
    using s unicode_formsD(3) [OF u x] by simp
  have "x \<notin> set (nfc (wo_text W) b)" using e(2) unicode_formsD(4) [OF u] x by blast
  have "nfc (wo_text W) b = []"
  proof (cases "nfc (wo_text W) b" rule: rev_cases)
    case (snoc ys y)
    with n have "(nfc (wo_text W) e @ x # ys) @ [y] = d @ [x]" by simp
    then have "y = x" by simp
    with snoc \<open>x \<notin> set (nfc (wo_text W) b)\<close> show ?thesis by simp
  qed
  then have "b = []" using unicode_formsD(6) [OF u] by blast
  with e n show ?thesis using unicode_formsD(6) [OF u] by auto
qed

lemma nfc_subtree:
  assumes u: "unicode_forms W" and s: "nfc (wo_text W) s = d @ [slash, star, star]"
  shows "\<exists>e. s = e @ [slash, star, star] \<and> nfc (wo_text W) e = d"
proof -
  from s have "nfc (wo_text W) s = (d @ [slash, star]) @ [star]" by simp
  from nfc_snoc [OF u _ this] obtain a where a: "s = a @ [star]" "nfc (wo_text W) a = (d @ [slash]) @ [star]" by auto
  from nfc_snoc [OF u _ a(2)] obtain b where b: "a = b @ [star]" "nfc (wo_text W) b = d @ [slash]" by auto
  from nfc_snoc [OF u _ b(2)] obtain e where "b = e @ [slash]" "nfc (wo_text W) e = d" by auto
  with a b show ?thesis by simp
qed

section \<open>What is forwarded\<close>

lemma add_forms_mem: "f \<in> set (add_forms W fs out) \<Longrightarrow> f \<in> set out \<or> f \<in> set fs \<and> forwardable W f"
  by (induction W fs out rule: add_forms.induct) (auto split: if_splits)

lemma add_pattern_mem:
  "f \<in> set (fold (add_pattern W) ps out) \<Longrightarrow> f \<in> set out \<or> (\<exists>p. PStr p \<in> set ps \<and>
     classify_pattern (wo_text W) (PStr p) \<in> {RecursiveDir, PathQualified} \<and> f \<in> set (pattern_forms W p) \<and>
     forwardable W f)"
proof (induction ps arbitrary: out)
  case (Cons q ps)
  let ?P = "\<lambda>p. classify_pattern (wo_text W) (PStr p) \<in> {RecursiveDir, PathQualified} \<and>
    f \<in> set (pattern_forms W p) \<and> forwardable W f"
  have step: "f \<in> set (add_pattern W q out) \<Longrightarrow> f \<in> set out \<or> (\<exists>p. q = PStr p \<and> ?P p)"
    using add_forms_mem by (cases q) (auto split: if_splits simp del: classify_pattern.simps)
  from Cons.prems have "f \<in> set (fold (add_pattern W) ps (add_pattern W q out))" by simp
  from Cons.IH [OF this] step show ?case
    by (auto simp del: classify_pattern.simps)
qed simp

lemma forwarded_form:
  assumes "f \<in> set (dir_prefix_ignores W ps)"
  obtains p where "PStr p \<in> set ps" "classify_folded (fold_pattern (wo_text W) p) \<in> {RecursiveDir, PathQualified}"
    "f \<in> set (pattern_forms W p)" "forwardable W f"
  using add_pattern_mem [of f W ps "[]"] assms
  by (auto simp: dir_prefix_ignores_def split: if_splits)

lemma form_canonical:
  assumes "unicode_forms W" and "f \<in> set (pattern_forms W p)"
  shows "nfc (wo_text W) f = fold_pattern (wo_text W) p \<and> backslash \<notin> set f"
proof -
  have "backslash \<notin> set (fold_sep backslash p)" by (auto simp: fold_sep_def)
  with assms(2) unicode_formsD [OF assms(1)] show ?thesis
    by (auto simp: pattern_forms_def fold_pattern_def Let_def)
qed

lemma match_any_loop_mem:
  "PStr p \<in> set ps \<Longrightarrow> match_str_pattern n (fold_pattern T p) \<Longrightarrow> match_any_loop T False n ps"
  by (induction ps) (auto simp: Let_def elim: match_any_loop.elims, metis js_pattern.exhaust match_any_loop.simps(2,3))

lemma has_double_star_mem: "has_double_star p \<Longrightarrow> star \<in> set p"
  by (induction p rule: has_double_star.induct) auto

lemma has_double_star_append: "has_double_star (a @ [star, star])"
proof (induction a)
  case (Cons x a)
  then show ?case by (cases "a @ [star, star]") auto
qed simp

section \<open>Soundness\<close>

lemma reported_normal:
  assumes "unicode_forms W"
  shows "normalize_path (wo_text W) False (reported_path W rel) = nfc (wo_text W) (fold_sep (path_sep (wo_text W)) rel)"
proof -
  let ?n = "fold_sep (path_sep (wo_text W)) rel"
  have "fold_sep (path_sep (wo_text W)) (nfc (wo_text W) ?n) = nfc (wo_text W) ?n"
  proof (cases "path_sep (wo_text W) = slash")
    case True
    then show ?thesis by (intro fold_sep_absent) simp
  next
    case False
    with unicode_formsD(7) [OF assms] have "path_sep (wo_text W) = backslash" by simp
    then have "path_sep (wo_text W) \<notin> set ?n" by (auto simp: fold_sep_def)
    with unicode_formsD(4,7) [OF assms] False have "path_sep (wo_text W) \<notin> set (nfc (wo_text W) ?n)" by auto
    then show ?thesis by (intro fold_sep_absent) simp
  qed
  then show ?thesis
    by (simp add: normalize_path_def reported_path_def Let_def unicode_formsD(2) [OF assms])
qed

lemma form_accepted_and_sound:
  assumes u: "unicode_forms W" and c: "classify_folded (fold_pattern (wo_text W) p) \<in> {RecursiveDir, PathQualified}"
    and f: "f \<in> set (pattern_forms W p)" "forwardable W f"
  shows "framework_accepts W f"
    and "framework_prunes glob W f rel \<Longrightarrow>
      match_str_pattern (nfc (wo_text W) (fold_sep (path_sep (wo_text W)) rel)) (fold_pattern (wo_text W) p)"
proof -
  let ?q = "fold_pattern (wo_text W) p" and ?n = "fold_sep (path_sep (wo_text W)) rel"
  have q: "nfc (wo_text W) f = ?q" "backslash \<notin> set f" using form_canonical [OF u f(1)] by simp_all
  have *: "framework_accepts W f \<and> (framework_prunes glob W f rel \<longrightarrow> match_str_pattern (nfc (wo_text W) ?n) ?q)"
  proof (cases "classify_folded ?q = RecursiveDir")
    case True
    then obtain d where d: "?q = d @ [slash, star, star]" "star \<notin> set d" "\<not> has_meta ?q"
      unfolding classify_RecursiveDir by (auto simp: suffix_def)
    with nfc_subtree [OF u] q(1) obtain e where e: "f = e @ [slash, star, star]" "nfc (wo_text W) e = d" by auto
    have "star \<notin> set e" using d(2) e(2) unicode_formsD(4) [OF u, of star e] by simp
    have two: "has_double_star f" using has_double_star_append [of "e @ [slash]"] e(1) by simp
    with f(2) e(1) \<open>star \<notin> set e\<close> have "framework_accepts W f"
      by (simp add: framework_accepts_def forwardable_def trailing_double_star_def suffix_def)
    moreover have "match_str_pattern (nfc (wo_text W) ?n) ?q" if "framework_prunes glob W f rel"
    proof -
      have "?n = e \<or> starts_with ?n (e @ [slash])"
        using that two e(1) by (simp add: framework_prunes_def ignore_prefix_def Let_def suffix_def)
      then have "nfc (wo_text W) ?n = d \<or> starts_with (nfc (wo_text W) ?n) (d @ [slash])"
        using e(2) unicode_formsD(3) [OF u, of slash e] by (auto simp: prefix_def)
      with d show ?thesis by (auto simp: match_str_pattern_def Let_def suffix_def)
    qed
    ultimately show ?thesis by simp
  next
    case False
    with c have pq: "classify_folded ?q = PathQualified" by simp
    then have "star \<notin> set ?q" "\<not> has_meta ?q"
      by (auto simp: classify_folded_def split: if_splits)
    then have "star \<notin> set f" using q(1) unicode_formsD(4) [OF u, of star f] by simp
    then have no: "\<not> has_double_star f" using has_double_star_mem by blast
    have "match_str_pattern (nfc (wo_text W) ?n) ?q" if "framework_prunes glob W f rel"
    proof -
      from that no \<open>star \<notin> set f\<close> have "f = rel \<or> f = ?n" by (simp add: framework_prunes_def Let_def)
      moreover have "?n = rel" if "f = rel"
        using that q(2) unicode_formsD(7) [OF u] by (intro fold_sep_absent) auto
      ultimately have "nfc (wo_text W) ?n = ?q" using q(1) by auto
      with \<open>\<not> has_meta ?q\<close> show ?thesis by (simp add: match_str_pattern_def)
    qed
    with no f(2) show ?thesis by (simp add: framework_accepts_def forwardable_def)
  qed
  from * show "framework_accepts W f" by simp
  from * show "framework_prunes glob W f rel \<Longrightarrow> match_str_pattern (nfc (wo_text W) ?n) ?q" by simp
qed

text \<open>The forwarded list always belongs to the current patterns.\<close>

lemma wp_dirs:
  "wt_dirs w = dir_prefix_ignores W (wt_ignore w) \<Longrightarrow>
     wp (watch_input_run W x) (\<lambda>_ w'. wt_dirs w' = dir_prefix_ignores W (wt_ignore w'))
       (\<lambda>_ w'. wt_dirs w' = dir_prefix_ignores W (wt_ignore w')) w"
  by (cases x) (simp_all add: on_watcher_error_def recovery_fires_def recreate_def baseline_ready_def
    stable_fires_def watch_update_patterns_def watch_stop_def rescan_when_ready_def wt_emit_def watch_start_def
    wp_rules Let_def split: option.split)

lemma runs_dirs:
  "wt_dirs (watch_runs W xs (started W ign inc)) =
     dir_prefix_ignores W (wt_ignore (watch_runs W xs (started W ign inc)))"
proof -
  have "wt_dirs w = dir_prefix_ignores W (wt_ignore w) \<Longrightarrow>
      wt_dirs (watch_runs W xs w) = dir_prefix_ignores W (wt_ignore (watch_runs W xs w))" for w
  proof (induction xs arbitrary: w)
    case (Cons x xs)
    show ?case using Cons.IH [OF wp_final [OF wp_dirs [OF Cons.prems]]] by (simp add: watch_runs_def)
  qed (simp add: watch_runs_def)
  moreover have "wt_dirs (started W ign inc) = dir_prefix_ignores W (wt_ignore (started W ign inc))"
    by (simp add: started_def watch_start_def create_handle_def new_watcher_def final_def bindm_def
      reads_def thenm_def modifies_def)
  ultimately show ?thesis by blast
qed



end
