(* ===== verification/Http_Requests.thy ===== *)
theory Http_Requests
  imports Exn_Monad Js_Value
begin

text \<open>
  The small requests of \<open>lib/http-client.js\<close>: how a refusal is read, which are permanent, the metadata
  requests, and the encrypted session with its single retry. The framework's \<open>request\<close> and its
  encrypted wrapper are parameters: what they answer is a reply, one per submission.
\<close>

section \<open>Refusals\<close>

definition pick_text :: "js \<Rightarrow> string list \<Rightarrow> string" where
  "pick_text json keys = (case List.find (\<lambda>k. is_string (field json k) \<and> field json k \<noteq> JStr []) keys of
     None \<Rightarrow> [] | Some k \<Rightarrow> (case field json k of JStr s \<Rightarrow> s | _ \<Rightarrow> []))"

definition error_text :: "js \<Rightarrow> bool \<Rightarrow> string" where
  "error_text json with_title =
     pick_text json (if with_title then [''detail'', ''error'', ''title''] else [''detail'', ''error''])"

text \<open>The three facts of an error its callers read: the status, whether a retry is pointless, a code.\<close>

record req_error =
  re_status :: "int option"
  re_permanent :: bool
  re_code :: "string option"
  re_text :: string

definition plain_error :: "string \<Rightarrow> req_error" where
  "plain_error t = \<lparr>re_status = None, re_permanent = False, re_code = None, re_text = t\<rparr>"

definition permanent_status :: "int \<Rightarrow> bool" where
  "permanent_status n \<longleftrightarrow> n \<ge> 400 \<and> n < 500 \<and> n \<noteq> 408 \<and> n \<noteq> 429"

definition upload_refused :: "int \<Rightarrow> string \<Rightarrow> req_error" where
  "upload_refused status reason = \<lparr>re_status = Some status, re_permanent = permanent_status status,
     re_code = None,
     re_text = ''Upload failed: HTTP '' @ int_str status @ (if reason \<noteq> [] then '': '' @ reason else [])\<rparr>"

section \<open>The plain request\<close>

text \<open>
  What \<open>b.httpClient.request\<close> does: it resolves with a status and a body, or throws; of the error the
  client reads its class, its status, its code and its message.
\<close>

datatype framework_reply =
    Resolved int string
  | Thrown bool "int option" "string option" string

definition status_error_body :: "int \<Rightarrow> string \<Rightarrow> string" where
  "status_error_body n msg = (let p = ''HTTP '' @ int_str n @ '': '' in
     if starts_with msg p then drop (length p) msg else [])"

definition raw_request :: "framework_reply \<Rightarrow> req_error + (int \<times> string)" where
  "raw_request r = (case r of
     Resolved status body \<Rightarrow> Inr (status, body)
   | Thrown ours status code msg \<Rightarrow>
       (case status of
          Some n \<Rightarrow> if ours \<and> n \<noteq> 0 \<and> code = Some ''http-client/http-error''
                    then Inr (n, status_error_body n msg)
                    else Inl \<lparr>re_status = Some n, re_permanent = False, re_code = code, re_text = msg\<rparr>
        | None \<Rightarrow> Inl \<lparr>re_status = None, re_permanent = False, re_code = code, re_text = msg\<rparr>))"

text \<open>\<open>_jsonRequest\<close>: \<open>parse\<close> is the framework's \<open>safeJson.parse\<close>; a failure gives \<open>null\<close>.\<close>

type_synonym json_parser = "string \<Rightarrow> js option"

definition safe_parse :: "json_parser \<Rightarrow> string \<Rightarrow> js" where
  "safe_parse parse body = (case parse body of None \<Rightarrow> JNull | Some v \<Rightarrow> v)"

definition json_request :: "json_parser \<Rightarrow> framework_reply \<Rightarrow> req_error + (int \<times> js)" where
  "json_request parse r = (case raw_request r of
     Inl e \<Rightarrow> Inl e | Inr (status, body) \<Rightarrow> Inr (status, safe_parse parse body))"

section \<open>Metadata requests\<close>

definition get_bundle_metadata :: "json_parser \<Rightarrow> framework_reply \<Rightarrow> req_error + js" where
  "get_bundle_metadata parse r = (case json_request parse r of
     Inl e \<Rightarrow> Inl e
   | Inr (status, json) \<Rightarrow>
       if status < 200 \<or> status \<ge> 300 then
         if status = 401 \<or> status = 403 then Inl (plain_error ''Bundle metadata request denied'')
         else let detail = error_text json False in
           Inl (plain_error (if detail \<noteq> [] then detail
             else ''Bundle metadata fetch failed: HTTP '' @ int_str status))
       else Inr json)"

definition delete_file :: "json_parser \<Rightarrow> framework_reply \<Rightarrow> req_error + unit" where
  "delete_file parse r = (case json_request parse r of
     Inl e \<Rightarrow> Inl e
   | Inr (status, json) \<Rightarrow>
       if status \<noteq> 200 \<and> status \<noteq> 204 \<and> status \<noteq> 404 then
         let detail = error_text json True in
           Inl (plain_error (''Delete failed: HTTP '' @ int_str status @
             (if detail \<noteq> [] then '': '' @ detail else [])))
       else Inr ())"

definition health_check :: "framework_reply \<Rightarrow> req_error + bool" where
  "health_check r = (case raw_request r of Inl e \<Rightarrow> Inl e | Inr (status, _) \<Rightarrow> Inr (status = 200))"

definition renew_cert :: "json_parser \<Rightarrow> framework_reply \<Rightarrow> req_error + js" where
  "renew_cert parse r = (case raw_request r of
     Inl e \<Rightarrow> Inl e
   | Inr (status, body) \<Rightarrow> (case parse body of
       None \<Rightarrow> Inl (plain_error (''Invalid JSON from /sync/renew-cert (HTTP '' @ int_str status @ '')''))
     | Some data \<Rightarrow>
         if status \<noteq> 200 \<or> \<not> js_truthy (field data ''success'')
         then Inl (plain_error (let t = error_text data False in
                if t \<noteq> [] then t else ''Renewal failed with HTTP '' @ int_str status))
         else Inr data))"

section \<open>The encrypted session\<close>

text \<open>
  A session is named by the number of the bootstrap that opened it. \<open>es_sent\<close> records the session of
  every submission, for the proofs.
\<close>

type_synonym session = nat

record enc_state =
  es_client :: "session option"       \<comment> \<open>\<open>_encClient\<close>\<close>
  es_promise :: "session option"      \<comment> \<open>\<open>_encClientPromise\<close>, resolved\<close>
  es_boots :: nat
  es_sent :: "session list"

datatype enc_reply = EncResponse int js | EncThrown "string option"

text \<open>What the server answers to each key fetch and to each submission on a session.\<close>

record enc_env =
  key_reply :: "nat \<Rightarrow> framework_reply"
  enc_reply :: "session \<Rightarrow> nat \<Rightarrow> enc_reply"
  enc_parse :: json_parser

type_synonym 'a encm = "(enc_state, req_error, 'a) prog"

definition new_session :: enc_state where
  "new_session = \<lparr>es_client = None, es_promise = None, es_boots = 0, es_sent = []\<rparr>"

definition bootstrap :: "enc_env \<Rightarrow> session encm" where
  "bootstrap E = bindm (reads es_boots) (\<lambda>n. thenm
     (modifies (\<lambda>s. s\<lparr>es_boots := es_boots s + 1\<rparr>))
     (case json_request (enc_parse E) (key_reply E n) of
        Inl e \<Rightarrow> throw e
      | Inr (status, json) \<Rightarrow>
          if status \<noteq> 200 \<or> \<not> js_truthy json
          then throw (plain_error (''Failed to fetch /.well-known/blamejs-pubkey: HTTP '' @ int_str status))
          else thenm (modifies (\<lambda>s. s\<lparr>es_client := Some n, es_promise := Some n\<rparr>)) (ret n)))"

definition get_enc_client :: "enc_env \<Rightarrow> session encm" where
  "get_enc_client E = bindm (reads id) (\<lambda>s. case es_client s of
     Some c \<Rightarrow> ret c
   | None \<Rightarrow> (case es_promise s of
       Some c \<Rightarrow> ret c
     | None \<Rightarrow> try_catch (bootstrap E)
         (\<lambda>e. thenm (modifies (\<lambda>s. s\<lparr>es_promise := None\<rparr>)) (throw e))))"

definition reset_enc_client :: "unit encm" where
  "reset_enc_client = modifies (\<lambda>s. s\<lparr>es_client := None, es_promise := None\<rparr>)"

definition submit :: "enc_env \<Rightarrow> session \<Rightarrow> enc_reply encm" where
  "submit E c = bindm (reads es_sent) (\<lambda>sent. thenm
     (modifies (\<lambda>s. s\<lparr>es_sent := es_sent s @ [c]\<rparr>)) (ret (enc_reply E c (length sent))))"

text \<open>\<open>resp.body && (resp.body.error || resp.body.detail)\<close>, when it is a string.\<close>

definition session_code :: "js \<Rightarrow> string option" where
  "session_code body = (let v = (if js_truthy (field body ''error'') then field body ''error'' else field body ''detail'')
     in case v of JStr s \<Rightarrow> Some s | _ \<Rightarrow> None)"

text \<open>The replies after which the cached session is dead: a client-side counter mismatch, a session the
  server does not know, and a session key sealed to an old public key.\<close>

definition integrity_trip :: "string option \<Rightarrow> bool" where
  "integrity_trip code \<longleftrightarrow> code = Some ''api-encrypt/client-response-sid'' \<or>
     code = Some ''api-encrypt/client-response-replay''"

definition session_torn :: "int \<Rightarrow> js \<Rightarrow> bool" where
  "session_torn status body \<longleftrightarrow> status = 401 \<and>
     session_code body \<in> {Some ''session-unknown'', Some ''session-expired'', Some ''session-rotation-required''}"

definition payload_rejected :: "int \<Rightarrow> js \<Rightarrow> bool" where
  "payload_rejected status body \<longleftrightarrow> status = 400 \<and> session_code body = Some ''encrypted-payload-rejected''"

definition coded_error :: "string \<Rightarrow> bool \<Rightarrow> req_error" where
  "coded_error code permanent = \<lparr>re_status = None, re_permanent = permanent, re_code = Some code, re_text = []\<rparr>"

function encrypted_once :: "enc_env \<Rightarrow> bool \<Rightarrow> (int \<times> js) encm" where
  "encrypted_once E retried = bindm (get_enc_client E) (\<lambda>c. bindm (submit E c) (\<lambda>r. case r of
     EncThrown code \<Rightarrow>
       if code = Some ''ETIMEDOUT'' then throw (coded_error ''ENC_WALL_CLOCK_TIMEOUT'' False)
       else if \<not> retried \<and> integrity_trip code
       then thenm reset_enc_client (encrypted_once E True)
       else if code = Some ''api-encrypt/client-response-not-json''
       then throw (coded_error ''ENC_RESPONSE_NOT_JSON'' False)
       else throw \<lparr>re_status = None, re_permanent = False, re_code = code, re_text = []\<rparr>
   | EncResponse status body \<Rightarrow>
       if \<not> retried \<and> session_torn status body
       then thenm reset_enc_client (encrypted_once E True)
       else if payload_rejected status body
       then if \<not> retried then thenm reset_enc_client (encrypted_once E True)
            else throw (coded_error ''ENC_PAYLOAD_REJECTED'' False)
       else ret (status, body)))"
  by pat_completeness auto
termination
  by (relation "measure (\<lambda>(E, retried). if retried then 0 else 1)") simp_all

declare encrypted_once.simps [simp del]

text \<open>The requests of the chain run one after the other, whatever the outcome of the one before.\<close>

definition encrypted_request :: "enc_env \<Rightarrow> (int \<times> js) encm" where
  "encrypted_request E = encrypted_once E False"

definition rename_refused :: "int \<Rightarrow> js \<Rightarrow> req_error" where
  "rename_refused status body = (let detail = (if is_string body then [] else error_text body False) in
     \<lparr>re_status = Some status, re_permanent = permanent_status status, re_code = None,
      re_text = (if detail \<noteq> [] then detail else ''Rename failed: HTTP '' @ int_str status)\<rparr>)"

definition rename_request :: "enc_env \<Rightarrow> js encm" where
  "rename_request E = bindm (encrypted_request E) (\<lambda>(status, body).
     if status < 200 \<or> status \<ge> 300 then throw (rename_refused status body)
     else ret (if js_truthy body then body else JObj []))"

section \<open>At most one retry, on a fresh session\<close>

text \<open>The client and the promise never point at a session other than the last one opened.\<close>

definition session_ok :: "enc_state \<Rightarrow> bool" where
  "session_ok s \<longleftrightarrow> (\<forall>c. es_client s = Some c \<or> es_promise s = Some c \<longrightarrow> c < es_boots s) \<and>
     (\<forall>c \<in> set (es_sent s). c < es_boots s)"

definition dead_session :: "enc_reply \<Rightarrow> bool" where
  "dead_session r = (case r of EncThrown code \<Rightarrow> integrity_trip code
     | EncResponse status body \<Rightarrow> session_torn status body \<or> payload_rejected status body)"

lemma session_ok_new: "session_ok new_session"
  by (simp add: session_ok_def new_session_def)

lemma get_enc_client_fresh:
  assumes "session_ok s"
  shows "wp (get_enc_client E)
    (\<lambda>c s'. session_ok s' \<and> c < es_boots s' \<and> es_sent s' = es_sent s \<and> es_boots s \<le> es_boots s' \<and>
       (es_client s = None \<and> es_promise s = None \<longrightarrow> c = es_boots s))
    (\<lambda>_ s'. session_ok s' \<and> es_sent s' = es_sent s \<and> es_boots s \<le> es_boots s') s"
proof -
  have boot: "wp (bootstrap E)
      (\<lambda>c s'. session_ok s' \<and> c < es_boots s' \<and> es_sent s' = es_sent s \<and> es_boots s \<le> es_boots s' \<and> c = es_boots s)
      (\<lambda>_ s'. session_ok s' \<and> es_sent s' = es_sent s \<and> es_boots s \<le> es_boots s') s"
    using assms by (auto simp: bootstrap_def wp_rules session_ok_def split: sum.split intro: less_SucI)
  show ?thesis
  proof (cases "es_client s = None \<and> es_promise s = None")
    case True
    then show ?thesis unfolding get_enc_client_def
      by (simp add: wp_bindm wp_reads wp_try_catch) (rule wp_conseq [OF boot], auto simp: wp_rules session_ok_def)
  next
    case False
    with assms show ?thesis
      by (auto simp: get_enc_client_def wp_rules session_ok_def split: option.split)
  qed
qed

lemma wp_submit: "wp (submit E c) Q R = (\<lambda>s. Q (enc_reply E c (length (es_sent s))) (s\<lparr>es_sent := es_sent s @ [c]\<rparr>))"
  by (simp add: submit_def wp_rules)

lemma session_ok_sent:
  "session_ok s \<Longrightarrow> c < es_boots s \<Longrightarrow> es_sent s = xs \<Longrightarrow> session_ok (s\<lparr>es_sent := xs @ [c]\<rparr>)"
  by (auto simp: session_ok_def)

text \<open>The second pass, after a reset.\<close>

lemma encrypted_once_retried:
  "encrypted_once E True = bindm (get_enc_client E) (\<lambda>c. bindm (submit E c) (\<lambda>r. case r of
     EncThrown code \<Rightarrow>
       if code = Some ''ETIMEDOUT'' then throw (coded_error ''ENC_WALL_CLOCK_TIMEOUT'' False)
       else if code = Some ''api-encrypt/client-response-not-json''
       then throw (coded_error ''ENC_RESPONSE_NOT_JSON'' False)
       else throw \<lparr>re_status = None, re_permanent = False, re_code = code, re_text = []\<rparr>
   | EncResponse status body \<Rightarrow>
       if payload_rejected status body then throw (coded_error ''ENC_PAYLOAD_REJECTED'' False)
       else ret (status, body)))"
  by (subst encrypted_once.simps, intro arg_cong2 [where f = bindm] refl ext) (simp split: enc_reply.split)

lemma retried_once:
  assumes "session_ok s" and "es_client s = None" and "es_promise s = None"
  shows "wp (encrypted_once E True)
    (\<lambda>x s'. session_ok s' \<and> es_sent s' = es_sent s @ [es_boots s] \<and>
       enc_reply E (es_boots s) (length (es_sent s)) = EncResponse (fst x) (snd x) \<and> \<not> payload_rejected (fst x) (snd x))
    (\<lambda>_ s'. session_ok s' \<and> (es_sent s' = es_sent s \<or> es_sent s' = es_sent s @ [es_boots s])) s"
  unfolding encrypted_once_retried wp_bindm
  by (rule wp_conseq [OF get_enc_client_fresh [OF assms(1)]])
    (use assms(2,3) in \<open>auto simp: wp_rules wp_submit session_ok_sent split: enc_reply.split\<close>)

definition resent_ok :: "enc_env \<Rightarrow> enc_state \<Rightarrow> enc_state \<Rightarrow> bool" where
  "resent_ok E s s' \<longleftrightarrow> session_ok s' \<and> (\<exists>sent. es_sent s' = es_sent s @ sent \<and> length sent \<le> 2 \<and>
     (length sent = 2 \<longrightarrow> dead_session (enc_reply E (sent ! 0) (length (es_sent s))) \<and> sent ! 0 < sent ! 1))"

definition answered_by :: "enc_env \<Rightarrow> enc_state \<Rightarrow> enc_state \<Rightarrow> int \<times> js \<Rightarrow> bool" where
  "answered_by E s s' x \<longleftrightarrow> es_sent s' \<noteq> es_sent s \<and>
     enc_reply E (last (es_sent s')) (length (es_sent s') - 1) = EncResponse (fst x) (snd x) \<and>
     \<not> payload_rejected (fst x) (snd x)"

lemma encrypted_request_wp:
  assumes "session_ok s"
  shows "wp (encrypted_request E) (\<lambda>x s'. resent_ok E s s' \<and> answered_by E s s' x) (\<lambda>_. resent_ok E s) s"
proof -
  let ?Q = "\<lambda>x s'. resent_ok E s s' \<and> answered_by E s s' x"
  have again: "wp (thenm reset_enc_client (encrypted_once E True)) ?Q (\<lambda>_. resent_ok E s) s1"
    if "session_ok s0" "c < es_boots s0" "s1 = s0\<lparr>es_sent := es_sent s @ [c]\<rparr>"
      "dead_session (enc_reply E c (length (es_sent s)))" "es_sent s0 = es_sent s" for s0 s1 c
  proof -
    let ?s = "s1\<lparr>es_client := None, es_promise := None\<rparr>"
    have ok: "session_ok ?s" using that(1-3,5) by (auto simp: session_ok_def)
    have b: "es_boots ?s = es_boots s0" "es_sent ?s = es_sent s @ [c]" using that(3) by simp_all
    show ?thesis unfolding wp_thenm reset_enc_client_def wp_modifies
      by (rule wp_conseq [OF retried_once [OF ok]])
        (use that(2,4) b in \<open>auto simp: resent_ok_def answered_by_def nth_append\<close>)
  qed
  show ?thesis unfolding encrypted_request_def encrypted_once.simps [of E False] wp_bindm
  proof (rule wp_conseq [OF get_enc_client_fresh [OF assms]], goal_cases)
    case (1 c s0)
    let ?s = "s0\<lparr>es_sent := es_sent s0 @ [c]\<rparr>" and ?r = "enc_reply E c (length (es_sent s0))"
    have s: "session_ok s0" "c < es_boots s0" "es_sent s0 = es_sent s" "session_ok ?s"
      using 1 by (auto simp: session_ok_def)
    have one: "resent_ok E s ?s" using s(3,4) by (auto simp: resent_ok_def)
    have red: "wp (thenm reset_enc_client (encrypted_once E True)) ?Q (\<lambda>_. resent_ok E s) ?s" if "dead_session ?r"
      by (rule again [OF s(1,2)]) (use that s(3) in simp_all)
    show ?case unfolding wp_submit
      by (cases ?r) (use red one s(3) in
        \<open>auto simp: wp_if wp_throw wp_ret dead_session_def answered_by_def simp del: not_None_eq\<close>)
  next
    case (2 e s0)
    then show ?case by (auto simp: resent_ok_def)
  qed
qed

text \<open>Property C19: an encrypted request is submitted at most twice, and a second time only after a reply
  that shows the session dead, on a session opened after it; what it returns is the reply to the last
  submission. So a rename the server has applied is never re-sent on an ordinary failure.\<close>

theorem encrypted_request_resent_only_when_dead:
  assumes "session_ok s"
  shows "case encrypted_request E s of (res, s') \<Rightarrow>
    (\<exists>sent. es_sent s' = es_sent s @ sent \<and> length sent \<le> 2 \<and>
       (length sent = 2 \<longrightarrow> dead_session (enc_reply E (sent ! 0) (length (es_sent s))) \<and> sent ! 0 < sent ! 1) \<and>
       (\<forall>status body. res = Inr (status, body) \<longrightarrow> sent \<noteq> [] \<and>
          enc_reply E (last sent) (length (es_sent s') - 1) = EncResponse status body))"
proof -
  obtain res s' where run: "encrypted_request E s = (res, s')" by fastforce
  with encrypted_request_wp [OF assms, of E]
  have "resent_ok E s s'" "\<And>x. res = Inr x \<Longrightarrow> answered_by E s s' x"
    by (cases res; simp add: wp_def)+
  with run show ?thesis by (fastforce simp: resent_ok_def answered_by_def)
qed

definition lost_session_env :: enc_env where
  "lost_session_env = \<lparr>key_reply = (\<lambda>_. Resolved 200 ''k''),
     enc_reply = (\<lambda>c n. if c = 0 then EncResponse 401 (JObj [(''error'', JStr ''session-expired'')])
       else EncResponse 200 (JObj [])),
     enc_parse = (\<lambda>_. Some (JObj []))\<rparr>"

lemma encrypted_request_resent_only_when_dead_witness:
  "es_sent (final (encrypted_request lost_session_env) new_session) = [0, 1] \<and>
     dead_session (enc_reply lost_session_env 0 0)"
proof -
  have run: "encrypted_request lost_session_env new_session =
      (Inr (200, JObj []), \<lparr>es_client = Some 1, es_promise = Some 1, es_boots = 2, es_sent = [0, 1]\<rparr>)"
    by code_simp
  with encrypted_request_resent_only_when_dead [OF session_ok_new, of lost_session_env]
  show ?thesis by (auto simp: final_def new_session_def)
qed

lemma session_errors_transient:
  "wp (get_enc_client E) (\<lambda>_ _. True) (\<lambda>e _. \<not> re_permanent e) s"
  by (auto simp: get_enc_client_def bootstrap_def json_request_def raw_request_def plain_error_def wp_rules
      split: option.split sum.split framework_reply.split)

lemma encrypted_errors_transient: "wp (encrypted_request E) (\<lambda>_ _. True) (\<lambda>e _. \<not> re_permanent e) s"
proof -
  have t: "wp (encrypted_once E True) (\<lambda>_ _. True) (\<lambda>e _. \<not> re_permanent e) s" for s
    unfolding encrypted_once_retried wp_bindm
    by (rule wp_conseq [OF session_errors_transient])
      (auto simp: wp_rules wp_submit coded_error_def split: enc_reply.split)
  show ?thesis
    unfolding encrypted_request_def encrypted_once.simps [of E False] wp_bindm
    by (rule wp_conseq [OF session_errors_transient])
      (auto simp: wp_rules wp_submit coded_error_def reset_enc_client_def t split: enc_reply.split)
qed

text \<open>A rename succeeds only on a 2xx answer to its last submission, and is reported as
  permanently refused only on a 4xx other than 408 and 429; every other failure may be retried.\<close>

theorem rename_request_verdict:
  assumes "session_ok s"
  shows "case rename_request E s of (res, s') \<Rightarrow>
    (let answer = enc_reply E (last (es_sent s')) (length (es_sent s') - 1) in
     case res of
       Inr _ \<Rightarrow> (\<exists>status body. answer = EncResponse status body \<and> 200 \<le> status \<and> status < 300)
     | Inl e \<Rightarrow> (if re_permanent e
         then \<exists>status body. answer = EncResponse status body \<and> re_status e = Some status \<and> permanent_status status
         else True))"
proof -
  let ?a = "\<lambda>s'. enc_reply E (last (es_sent s')) (length (es_sent s') - 1)"
  have "wp (encrypted_request E) (\<lambda>x s'. ?a s' = EncResponse (fst x) (snd x)) (\<lambda>e _. \<not> re_permanent e) s"
    by (rule wp_conseq [OF wp_conj [OF encrypted_request_wp [OF assms] encrypted_errors_transient]])
      (simp_all add: answered_by_def)
  then have "wp (rename_request E)
      (\<lambda>_ s'. \<exists>status body. ?a s' = EncResponse status body \<and> 200 \<le> status \<and> status < 300)
      (\<lambda>e s'. re_permanent e \<longrightarrow>
         (\<exists>status body. ?a s' = EncResponse status body \<and> re_status e = Some status \<and> permanent_status status)) s"
    unfolding rename_request_def wp_bindm
    by (rule wp_conseq) (auto simp: wp_rules rename_refused_def Let_def split: prod.split)
  then show ?thesis by (auto simp: wp_def Let_def split: prod.splits sum.splits)
qed

lemma rename_request_verdict_witness:
  "fst (rename_request lost_session_env new_session) = Inr (JObj []) \<and>
     (\<exists>status body. enc_reply lost_session_env 1 1 = EncResponse status body \<and> 200 \<le> status \<and> status < 300)"
proof -
  have run: "rename_request lost_session_env new_session =
      (Inr (JObj []), \<lparr>es_client = Some 1, es_promise = Some 1, es_boots = 2, es_sent = [0, 1]\<rparr>)"
    by code_simp
  with rename_request_verdict [OF session_ok_new, of lost_session_env] show ?thesis
    by (simp add: Let_def)
qed

section \<open>Status errors of the framework\<close>

lemma raw_request_status:
  "n \<noteq> 0 \<Longrightarrow> raw_request (Thrown True (Some n) (Some ''http-client/http-error'') (''HTTP '' @ int_str n @ '': '' @ body)) =
     Inr (n, body)"
  by (simp add: raw_request_def status_error_body_def Let_def)

text \<open>A body cut short carries the status it interrupted and stays an error.\<close>

lemma truncated_body_fails:
  "raw_request (Thrown True (Some 200) (Some ''http-client/truncated-body'') msg) =
     Inl \<lparr>re_status = Some 200, re_permanent = False, re_code = Some ''http-client/truncated-body'', re_text = msg\<rparr>"
  by (simp add: raw_request_def)

text \<open>An empty bundle is reported only by a server that answered with one.\<close>

lemma bundle_metadata_faithful:
  "get_bundle_metadata parse r = Inr json \<Longrightarrow>
     \<exists>status body. 200 \<le> status \<and> status < 300 \<and> raw_request r = Inr (status, body) \<and> json = safe_parse parse body"
  by (auto simp: get_bundle_metadata_def json_request_def Let_def split: sum.splits prod.splits if_splits)

end
