(* ===== verification/Http_Upload.thy ===== *)
theory Http_Upload
  imports Http_Requests
begin

text \<open>
  \<open>uploadFile\<close> of \<open>lib/http-client.js\<close>: the checks before the first byte, the multipart framing, and the
  streaming phase as a machine over the events of the source stream, the request and the response.
\<close>

section \<open>Before the first byte\<close>

text \<open>A file is its bytes. \<open>utf8\<close> is \<open>Buffer.from\<close> of a string, \<open>up_guard\<close> whether the address of the server
  could be pinned, and \<open>up_token\<close> the random part of the boundary.\<close>

record upload_io =
  up_opens :: bool
  up_stat :: "nat option"          \<comment> \<open>\<open>fstat\<close>: the size, or a failure\<close>
  up_guard_refuses :: bool
  up_token :: string
  utf8 :: "string \<Rightarrow> string"
  up_max_bytes :: nat
  up_json :: json_parser

definition has_control :: "string \<Rightarrow> bool" where
  "has_control p \<longleftrightarrow> (\<exists>c \<in> set p. of_char c < (32 :: nat))"

definition permanent_error :: "string \<Rightarrow> req_error" where
  "permanent_error t = (plain_error t)\<lparr>re_permanent := True\<rparr>"

section \<open>Framing\<close>

abbreviation crlf :: string where "crlf \<equiv> [CHR 0x0D, CHR 0x0A]"
abbreviation quote :: char where "quote \<equiv> CHR 0x22"

definition safe_filename :: "string \<Rightarrow> string" where
  "safe_filename rel = map (\<lambda>c. if c = quote \<or> c = backslash then CHR ''_'' else c) (basename rel)"

definition upload_boundary :: "upload_io \<Rightarrow> string" where
  "upload_boundary U = ''----HermitStash'' @ up_token U"

definition rel_path_part :: "upload_io \<Rightarrow> string \<Rightarrow> string" where
  "rel_path_part U rel = utf8 U (''--'' @ upload_boundary U @ crlf @
     ''Content-Disposition: form-data; name='' @ [quote] @ ''relativePath'' @ [quote] @ crlf @ crlf @ rel @ crlf)"

definition file_header :: "upload_io \<Rightarrow> string \<Rightarrow> string" where
  "file_header U rel = utf8 U (''--'' @ upload_boundary U @ crlf @
     ''Content-Disposition: form-data; name='' @ [quote] @ ''file'' @ [quote] @ ''; filename='' @ [quote] @
     safe_filename rel @ [quote] @ crlf @ ''Content-Type: application/octet-stream'' @ crlf @ crlf)"

definition file_footer :: "upload_io \<Rightarrow> string" where
  "file_footer U = utf8 U (crlf @ ''--'' @ upload_boundary U @ ''--'' @ crlf)"

definition content_length :: "upload_io \<Rightarrow> string \<Rightarrow> nat \<Rightarrow> nat" where
  "content_length U rel sz = length (rel_path_part U rel) + length (file_header U rel) + sz + length (file_footer U)"

section \<open>The streaming phase\<close>

text \<open>
  The source stream delivers chunks to the length guard, which passes them to the throttle (the queue
  \<open>us_queue\<close>), which passes them to the request. \<open>us_closes\<close> counts the calls of \<open>closeSync\<close>. The promise
  settles with its first outcome. The guard's own error reaches no listener: \<open>pipe\<close> re-throws an error
  of its destination that nobody listens for, and the process ends (\<open>us_crashed\<close>).
\<close>

type_synonym upload_outcome = "req_error + js"

record upload_state =
  us_queue :: "string list"
  us_streamed :: nat
  us_eof :: bool
  us_wire :: string
  us_sent :: bool                     \<comment> \<open>the footer is written and the request ended\<close>
  us_torn :: bool                     \<comment> \<open>the streams are destroyed\<close>
  us_src_closed :: bool
  us_closes :: nat
  us_pending :: "req_error option"    \<comment> \<open>\<open>req.destroy(err)\<close>: its \<open>error\<close> event is on its way\<close>
  us_outcome :: "upload_outcome option"
  us_crashed :: bool

definition begin_stream :: "upload_io \<Rightarrow> string \<Rightarrow> upload_state" where
  "begin_stream U rel = \<lparr>us_queue = [], us_streamed = 0, us_eof = False,
     us_wire = rel_path_part U rel @ file_header U rel, us_sent = False, us_torn = False,
     us_src_closed = False, us_closes = 0, us_pending = None, us_outcome = None, us_crashed = False\<rparr>"

definition cleanup_src :: "upload_state \<Rightarrow> upload_state" where
  "cleanup_src s = (let s = s\<lparr>us_torn := True\<rparr> in
     if \<not> us_src_closed s then s\<lparr>us_src_closed := True, us_closes := us_closes s + 1\<rparr> else s)"

definition settle :: "upload_outcome \<Rightarrow> upload_state \<Rightarrow> upload_state" where
  "settle r s = (if us_outcome s = None then s\<lparr>us_outcome := Some r\<rparr> else s)"

definition destroy_request :: "req_error \<Rightarrow> upload_state \<Rightarrow> upload_state" where
  "destroy_request e s = (if us_pending s = None then s\<lparr>us_pending := Some e\<rparr> else s)"

datatype upload_event =
    SourceData string          \<comment> \<open>a chunk reaches the length guard\<close>
  | SourceEnd
  | SourceError
  | ThrottlePass               \<comment> \<open>the throttle passes its oldest chunk on\<close>
  | ThrottleEnd
  | RequestError               \<comment> \<open>the request's \<open>error\<close> event, from the network or from \<open>destroy\<close>\<close>
  | RequestTimeout
  | Answered int "string option"   \<comment> \<open>status and body, or a body that could not be read\<close>

definition length_guard :: "nat \<Rightarrow> string \<Rightarrow> upload_state \<Rightarrow> upload_state" where
  "length_guard declared c s = (let s = s\<lparr>us_streamed := us_streamed s + length c\<rparr> in
     if us_streamed s > declared then s\<lparr>us_crashed := True\<rparr>
     else s\<lparr>us_queue := us_queue s @ [c]\<rparr>)"

definition throttle_end :: "upload_io \<Rightarrow> nat \<Rightarrow> upload_state \<Rightarrow> upload_state" where
  "throttle_end U declared s =
     (if us_streamed s \<noteq> declared
      then destroy_request (plain_error ''file shrank during upload'') (cleanup_src s)
      else s\<lparr>us_wire := us_wire s @ file_footer U, us_sent := True\<rparr>)"

definition ok_status :: "int \<Rightarrow> bool" where
  "ok_status n \<longleftrightarrow> n = 200 \<or> n = 201"

definition answered :: "upload_io \<Rightarrow> int \<Rightarrow> string option \<Rightarrow> upload_outcome" where
  "answered U status body = (case body of
     Some text \<Rightarrow>
       if \<not> ok_status status
       then Inl (upload_refused status (let t = error_text (safe_parse (up_json U) text) True in
              if t \<noteq> [] then t else text))
       else (case up_json U text of
         None \<Rightarrow> Inl (plain_error ''Upload response parse error'') | Some v \<Rightarrow> Inr v)
   | None \<Rightarrow>
       if \<not> ok_status status then Inl (upload_refused status ''error body not read'')
       else Inl (plain_error ''Upload response read failed''))"

text \<open>An event the streams can no longer deliver changes nothing.\<close>

definition upload_step :: "upload_io \<Rightarrow> nat \<Rightarrow> upload_event \<Rightarrow> upload_state \<Rightarrow> upload_state" where
  "upload_step U declared ev s = (if us_crashed s then s else case ev of
     SourceData c \<Rightarrow> if us_torn s \<or> us_eof s then s else length_guard declared c s
   | SourceEnd \<Rightarrow> if us_torn s then s else s\<lparr>us_eof := True\<rparr>
   | SourceError \<Rightarrow> if us_torn s then s
       else destroy_request (plain_error ''read error'') (cleanup_src s)
   | ThrottlePass \<Rightarrow> (if us_torn s then s else case us_queue s of
       [] \<Rightarrow> s | c # cs \<Rightarrow> s\<lparr>us_queue := cs, us_wire := us_wire s @ c\<rparr>)
   | ThrottleEnd \<Rightarrow> if us_torn s \<or> \<not> us_eof s \<or> us_queue s \<noteq> [] \<or> us_sent s then s
       else throttle_end U declared s
   | RequestError \<Rightarrow> settle (Inl (case us_pending s of Some e \<Rightarrow> e | None \<Rightarrow> plain_error ''network'')) (cleanup_src s)
   | RequestTimeout \<Rightarrow> destroy_request (plain_error ''Request timeout'') (cleanup_src s)
   | Answered status body \<Rightarrow> settle (answered U status body) (cleanup_src s))"

definition stream_upload :: "upload_io \<Rightarrow> string \<Rightarrow> nat \<Rightarrow> upload_event list \<Rightarrow> upload_state" where
  "stream_upload U rel declared evs = fold (upload_step U declared) evs (begin_stream U rel)"

text \<open>The whole method: an early refusal closes the descriptor and throws.\<close>

datatype upload_run = NotOpened req_error | Refused req_error nat | Streamed upload_state

definition upload_run :: "upload_io \<Rightarrow> string \<Rightarrow> upload_event list \<Rightarrow> upload_run" where
  "upload_run U rel evs =
     (if \<not> up_opens U then NotOpened (plain_error ''open'')
      else case up_stat U of
        None \<Rightarrow> Refused (plain_error ''fstat'') 1
      | Some sz \<Rightarrow>
          if sz > up_max_bytes U then Refused (permanent_error ''exceeds the size limit'') 1
          else if has_control rel then Refused (permanent_error ''path contains control characters'') 1
          else if up_guard_refuses U then Refused (plain_error ''ssrf'') 1
          else Streamed (stream_upload U rel sz evs))"

section \<open>The wire\<close>

definition source_data :: "upload_event list \<Rightarrow> string" where
  "source_data evs = concat (map (\<lambda>ev. case ev of SourceData c \<Rightarrow> c | _ \<Rightarrow> []) evs)"

definition upload_prologue :: "upload_io \<Rightarrow> string \<Rightarrow> string" where
  "upload_prologue U rel = rel_path_part U rel @ file_header U rel"

text \<open>What the streams have carried so far, and the descriptor.\<close>

definition wire_ok :: "upload_io \<Rightarrow> string \<Rightarrow> nat \<Rightarrow> string \<Rightarrow> upload_state \<Rightarrow> bool" where
  "wire_ok U rel declared data s \<longleftrightarrow> (\<exists>body.
     us_wire s = upload_prologue U rel @ body @ (if us_sent s then file_footer U else []) \<and>
     prefix (body @ concat (us_queue s)) data \<and> length (body @ concat (us_queue s)) \<le> declared \<and>
     (\<not> us_crashed s \<longrightarrow> us_streamed s = length (body @ concat (us_queue s))) \<and>
     (\<not> us_crashed s \<and> \<not> us_torn s \<and> \<not> us_eof s \<longrightarrow> body @ concat (us_queue s) = data) \<and>
     (us_sent s \<longrightarrow> us_eof s \<and> us_queue s = [] \<and> length body = declared))"

definition fd_ok :: "upload_state \<Rightarrow> bool" where
  "fd_ok s \<longleftrightarrow> us_torn s = us_src_closed s \<and> us_closes s = (if us_src_closed s then 1 else 0) \<and>
     (us_outcome s \<noteq> None \<or> us_pending s \<noteq> None \<longrightarrow> us_src_closed s)"

lemma fd_ok_step: "fd_ok s \<Longrightarrow> fd_ok (upload_step U n ev s)"
  by (cases ev) (auto simp: upload_step_def length_guard_def throttle_end_def destroy_request_def
      cleanup_src_def settle_def fd_ok_def Let_def split: list.split)

lemma wire_ok_more: "wire_ok U rel n data s \<Longrightarrow> us_torn s \<or> us_eof s \<or> us_crashed s \<Longrightarrow> wire_ok U rel n (data @ c) s"
  unfolding wire_ok_def by (auto intro: prefix_order.trans)

lemma wire_ok_frame:
  assumes "wire_ok U rel n data s" and "us_wire s' = us_wire s" "us_queue s' = us_queue s" "us_sent s' = us_sent s"
    "us_streamed s' = us_streamed s" "us_crashed s' = us_crashed s" "us_torn s \<longrightarrow> us_torn s'" "us_eof s \<longrightarrow> us_eof s'"
  shows "wire_ok U rel n data s'"
  using assms unfolding wire_ok_def by (elim exE) (rule_tac x = body in exI, auto)

lemma wire_ok_step:
  assumes "wire_ok U rel n data s"
  shows "wire_ok U rel n (data @ source_data [ev]) (upload_step U n ev s)"
proof (cases "us_crashed s")
  case True
  with assms show ?thesis by (simp add: upload_step_def wire_ok_more)
next
  case False
  note live = False
  show ?thesis
  proof (cases ev)
    case (SourceData c)
    show ?thesis
    proof (cases "us_torn s \<or> us_eof s")
      case True
      with assms live SourceData show ?thesis by (auto simp: upload_step_def intro: wire_ok_more)
    next
      case False
      with assms live obtain body where
        "us_wire s = upload_prologue U rel @ body" "body @ concat (us_queue s) = data" "length data \<le> n"
        "us_streamed s = length data" "\<not> us_sent s"
        by (auto simp: wire_ok_def)
      with SourceData False live show ?thesis
        by (auto simp: upload_step_def length_guard_def source_data_def wire_ok_def Let_def intro!: exI [of _ body])
    qed
  next
    case ThrottlePass
    show ?thesis
    proof (cases "us_torn s \<or> us_queue s = []")
      case True
      with assms live ThrottlePass show ?thesis by (auto simp: upload_step_def source_data_def split: list.split)
    next
      case False
      then obtain c cs where q: "us_queue s = c # cs" by (cases "us_queue s") auto
      from assms obtain body where b: "us_wire s = upload_prologue U rel @ body @ (if us_sent s then file_footer U else [])"
        "prefix (body @ concat (us_queue s)) data" "length (body @ concat (us_queue s)) \<le> n"
        "us_streamed s = length (body @ concat (us_queue s))"
        "\<not> us_torn s \<and> \<not> us_eof s \<longrightarrow> body @ concat (us_queue s) = data" "\<not> us_sent s"
        using live q by (auto simp: wire_ok_def)
      with False q live ThrottlePass show ?thesis
        by (auto simp: upload_step_def source_data_def wire_ok_def intro!: exI [of _ "body @ c"])
    qed
  next
    case ThrottleEnd
    show ?thesis
    proof (cases "us_torn s \<or> \<not> us_eof s \<or> us_queue s \<noteq> [] \<or> us_sent s \<or> us_streamed s \<noteq> n")
      case True
      have "wire_ok U rel n data (upload_step U n ev s)"
        by (rule wire_ok_frame [OF assms])
          (use True live ThrottleEnd in \<open>auto simp: upload_step_def throttle_end_def destroy_request_def cleanup_src_def Let_def\<close>)
      then show ?thesis by (simp add: ThrottleEnd source_data_def)
    next
      case False
      with assms live obtain body where
        "us_wire s = upload_prologue U rel @ body" "prefix body data" "length body = n"
        by (auto simp: wire_ok_def)
      with False live ThrottleEnd show ?thesis
        by (auto simp: upload_step_def throttle_end_def source_data_def wire_ok_def intro!: exI [of _ body])
    qed
  qed (use live in \<open>auto simp: upload_step_def destroy_request_def cleanup_src_def settle_def Let_def source_data_def
      intro!: wire_ok_frame [OF assms]\<close>)
qed

lemma stream_upload_ok:
  "wire_ok U rel n (source_data evs) (stream_upload U rel n evs) \<and> fd_ok (stream_upload U rel n evs)"
proof -
  have "wire_ok U rel n data s \<and> fd_ok s \<Longrightarrow>
      wire_ok U rel n (data @ source_data evs) (fold (upload_step U n) evs s) \<and> fd_ok (fold (upload_step U n) evs s)" for data s
  proof (induction evs arbitrary: data s)
    case (Cons ev evs)
    from Cons.IH [of "data @ source_data [ev]" "upload_step U n ev s"] Cons.prems wire_ok_step fd_ok_step
    show ?case by (fastforce simp: source_data_def)
  qed (simp add: source_data_def)
  moreover have "wire_ok U rel n [] (begin_stream U rel) \<and> fd_ok (begin_stream U rel)"
    by (simp add: begin_stream_def wire_ok_def fd_ok_def upload_prologue_def)
  ultimately show ?thesis
    unfolding stream_upload_def using append_Nil by metis
qed

lemma wire_when_sent:
  assumes "us_sent (stream_upload U rel declared evs)"
  shows "declared \<le> length (source_data evs)"
    and "us_wire (stream_upload U rel declared evs) =
      upload_prologue U rel @ take declared (source_data evs) @ file_footer U"
proof -
  let ?s = "stream_upload U rel declared evs"
  from stream_upload_ok [of U rel declared evs] assms obtain body where
    "us_wire ?s = upload_prologue U rel @ body @ file_footer U" "prefix body (source_data evs)" "length body = declared"
    by (auto simp: wire_ok_def)
  then show "declared \<le> length (source_data evs)"
    and "us_wire ?s = upload_prologue U rel @ take declared (source_data evs) @ file_footer U"
    by (auto simp: prefix_def)
qed

lemma wire_when_open:
  assumes "\<not> us_sent (stream_upload U rel declared evs)"
  shows "prefix (us_wire (stream_upload U rel declared evs)) (upload_prologue U rel @ take declared (source_data evs))"
proof -
  let ?s = "stream_upload U rel declared evs"
  from stream_upload_ok [of U rel declared evs] assms obtain body where
    "us_wire ?s = upload_prologue U rel @ body" "prefix (body @ concat (us_queue ?s)) (source_data evs)"
    "length (body @ concat (us_queue ?s)) \<le> declared"
    by (auto simp: wire_ok_def)
  then show ?thesis by (auto simp: prefix_def)
qed

text \<open>Property C8: whatever the source, the network and the server do, the request never carries more than
  its declared length; and a request that was ended carries exactly it: the framing around exactly the
  declared number of bytes of the source, in order.\<close>

theorem upload_wire_exact:
  "let s = stream_upload U rel declared evs;
       data = source_data evs;
       prologue = rel_path_part U rel @ file_header U rel
   in if us_sent s
      then declared \<le> length data \<and> us_wire s = prologue @ take declared data @ file_footer U \<and>
        length (us_wire s) = content_length U rel declared
      else prefix (us_wire s) (prologue @ take declared data)"
  using wire_when_sent [of U rel declared evs] wire_when_open [of U rel declared evs]
  by (simp add: Let_def upload_prologue_def content_length_def)

text \<open>The descriptor of the source is closed exactly once on every path that ends the upload,
  and never twice, however the failures of the streams and of the request interleave.\<close>

theorem upload_descriptor_closed_once:
  "case upload_run U rel evs of
     NotOpened e \<Rightarrow> True
   | Refused e closes \<Rightarrow> closes = 1
   | Streamed s \<Rightarrow> us_closes s \<le> 1 \<and> (case us_outcome s of None \<Rightarrow> True | Some r \<Rightarrow> us_closes s = 1)"
proof -
  have "us_closes s \<le> 1 \<and> (case us_outcome s of None \<Rightarrow> True | Some r \<Rightarrow> us_closes s = 1)" if "fd_ok s" for s
    using that by (auto simp: fd_ok_def split: option.split)
  with stream_upload_ok show ?thesis
    by (auto simp: upload_run_def split: option.split)
qed

section \<open>A file that changes while it is sent\<close>

text \<open>A source that delivers more than the size it had when it was opened ends the process: the guard's
  error has no listener, and the promise never settles.\<close>

theorem grown_file_crashes:
  assumes "length c > declared"
  shows "us_crashed (stream_upload U rel declared [SourceData c]) \<and>
    us_outcome (stream_upload U rel declared (SourceData c # evs)) = None"
proof -
  have "us_crashed (stream_upload U rel declared [SourceData c])"
    using assms by (simp add: stream_upload_def begin_stream_def upload_step_def length_guard_def Let_def)
  moreover have stuck: "us_crashed s \<Longrightarrow> fold (upload_step U declared) evs s = s" for s
    by (induction evs) (simp_all add: upload_step_def)
  ultimately show ?thesis
    using assms by (simp add: stream_upload_def begin_stream_def upload_step_def length_guard_def Let_def)
qed

lemma grown_file_crashes_witness:
  "us_crashed (stream_upload \<lparr>up_opens = True, up_stat = Some 1, up_guard_refuses = False, up_token = ''0'',
     utf8 = (\<lambda>s. s), up_max_bytes = 10, up_json = (\<lambda>_. None)\<rparr> ''a'' 1 [SourceData ''xy''])"
  using grown_file_crashes [of 1 "''xy''"] by simp

text \<open>A file that shrank is a transient failure, once the request's error arrives.\<close>

lemma shrunk_file_fails:
  "length c < declared \<Longrightarrow>
     us_outcome (stream_upload U rel declared [SourceData c, ThrottlePass, SourceEnd, ThrottleEnd, RequestError]) =
       Some (Inl (plain_error ''file shrank during upload''))"
  by (simp add: stream_upload_def begin_stream_def upload_step_def length_guard_def throttle_end_def
      destroy_request_def cleanup_src_def settle_def Let_def)

end
