(* ===== verification/Text_Search.thy ===== *)
theory Text_Search
  imports HS_Prelude
begin

text \<open>The first occurrence of a text in another, and replacing every occurrence.\<close>

section \<open>Searching\<close>

text \<open>What precedes and what follows the first occurrence of a text.\<close>

fun break_at :: "string \<Rightarrow> string \<Rightarrow> (string \<times> string) option" where
  "break_at d [] = (if d = [] then Some ([], []) else None)"
| "break_at d (c # cs) =
     (if prefix d (c # cs) then Some ([], drop (length d) (c # cs))
      else map_option (\<lambda>(a, b). (c # a, b)) (break_at d cs))"

lemma break_at_length: "break_at d s = Some (a, b) \<Longrightarrow> length s = length a + length d + length b"
  by (induction s arbitrary: a) (auto split: if_splits dest: prefix_length_le)

lemma break_at_here: "d \<noteq> [] \<Longrightarrow> break_at d (d @ s) = Some ([], s)"
  by (cases d) auto

lemma break_at_skip:
  "d \<noteq> [] \<Longrightarrow> hd d \<notin> set x \<Longrightarrow> break_at d (x @ s) = map_option (\<lambda>(a, b). (x @ a, b)) (break_at d s)"
proof (induction x)
  case Nil
  then show ?case by (cases "break_at d s") auto
next
  case (Cons c x)
  then have "\<not> prefix d (c # x @ s)" by (cases d) auto
  with Cons show ?case by (cases "break_at d s") auto
qed

lemma break_at_first:
  assumes "x \<notin> set ds" and "\<not> sublist (x # ds) a"
  shows "break_at (x # ds) (a @ (x # ds) @ s) = Some (a, s)"
  using assms(2)
proof (induction a)
  case Nil
  show ?case using break_at_here [of "x # ds" s] by simp
next
  case (Cons c cs)
  have "\<not> prefix (x # ds) (c # cs @ (x # ds) @ s)"
  proof
    assume p: "prefix (x # ds) (c # cs @ (x # ds) @ s)"
    show False
    proof (cases "length (x # ds) \<le> length (c # cs)")
      case True
      with p have "prefix (x # ds) (c # cs)"
        by (intro prefix_length_prefix [OF p]) simp_all
      with Cons.prems show False using prefix_imp_sublist by blast
    next
      case False
      then have l: "length cs < length ds" by simp
      from p have "(x # ds) ! length (c # cs) = ((c # cs) @ (x # ds) @ s) ! length (c # cs)"
        using l by (metis Suc_less_eq append_Cons length_Cons nth_append prefixE)
      then have "ds ! length cs = x" by (simp add: nth_append)
      with l assms(1) show False using nth_mem by blast
    qed
  qed
  moreover have "\<not> sublist (x # ds) cs" using Cons.prems by (meson sublist_Cons_right)
  ultimately show ?case using Cons.IH by simp
qed

lemma break_at_some: "break_at d s = Some (a, b) \<Longrightarrow> s = a @ d @ b"
  by (induction s arbitrary: a) (auto split: if_splits simp: prefix_def)

lemma break_at_none: "break_at d s = None \<Longrightarrow> \<not> sublist d s"
  by (induction s) (auto split: if_splits simp: sublist_Cons_right)

lemma break_at_before:
  assumes "break_at d s = Some (a, b)" and "d \<noteq> []"
  shows "\<not> sublist d a"
  using assms
proof (induction s arbitrary: a)
  case (Cons c cs)
  show ?case
  proof (cases "prefix d (c # cs)")
    case True
    with Cons.prems show ?thesis by simp
  next
    case False
    with Cons.prems obtain a' where a: "a = c # a'" "break_at d cs = Some (a', b)" by auto
    have "\<not> prefix d a"
    proof
      assume "prefix d a"
      with Cons.prems(1) break_at_some [of d "c # cs" a b] have "prefix d (c # cs)"
        by (metis prefix_order.trans prefixI)
      with False show False by simp
    qed
    with Cons.IH [OF a(2)] Cons.prems(2) a(1) show ?thesis by (simp add: sublist_Cons_right)
  qed
qed simp

section \<open>Replacing\<close>

definition redacted :: string where
  "redacted = ''[REDACTED]''"

text \<open>\<open>s.split(lit).join(r)\<close> for a literal that is not empty.\<close>

function replace_with :: "string \<Rightarrow> string \<Rightarrow> string \<Rightarrow> string" where
  "replace_with r lit s = (if lit = [] then s else case break_at lit s of
     None \<Rightarrow> s | Some (a, b) \<Rightarrow> a @ r @ replace_with r lit b)"
  by pat_completeness auto
termination
  by (relation "measure (\<lambda>(r, lit, s). length s)") (auto dest!: break_at_length simp: length_greater_0_conv)

declare replace_with.simps [simp del]

abbreviation replace_all :: "string \<Rightarrow> string \<Rightarrow> string" where
  "replace_all \<equiv> replace_with redacted"

text \<open>A literal the replacement text cannot take part in.\<close>

definition plain_literal :: "string \<Rightarrow> bool" where
  "plain_literal l \<longleftrightarrow> l \<noteq> [] \<and> CHR ''['' \<notin> set l \<and> CHR '']'' \<notin> set l \<and> \<not> sublist l ''REDACTED''"

lemma sublist_split_at:
  assumes "x \<notin> set l" and "sublist l (a @ x # b)"
  shows "sublist l a \<or> sublist l b"
proof -
  have tail: "prefix l' (x # b) \<Longrightarrow> set l' \<subseteq> set l \<Longrightarrow> l' = []" for l'
    using assms(1) by (cases l') auto
  from assms(2) consider "sublist l a" | "sublist l (x # b)" | l1 l2 where "l = l1 @ l2" "suffix l1 a" "prefix l2 (x # b)"
    by (auto simp: sublist_append)
  then show ?thesis
  proof cases
    case 2
    then show ?thesis using tail [of l] by (auto simp: sublist_Cons_right)
  next
    case 3
    then have "l2 = []" using tail [of l2] by simp
    with 3 show ?thesis by (simp add: suffix_imp_sublist)
  qed simp
qed

lemma plain_literal_redacted:
  assumes "plain_literal l" and "sublist l (a @ redacted @ b)"
  shows "sublist l a \<or> sublist l b"
proof -
  from assms(1) have l: "CHR ''['' \<notin> set l" "CHR '']'' \<notin> set l" "\<not> sublist l ''REDACTED''"
    by (simp_all add: plain_literal_def)
  from assms(2) have "sublist l (a @ CHR ''['' # ''REDACTED'' @ CHR '']'' # b)" by (simp add: redacted_def)
  from sublist_split_at [OF l(1) this] sublist_split_at [OF l(2), of "''REDACTED''" b] l(3)
  show ?thesis by auto
qed

lemma replace_all_removes: "plain_literal l \<Longrightarrow> \<not> sublist l (replace_all l s)"
proof (induction redacted l s rule: replace_with.induct)
  case (1 l s)
  then have l: "l \<noteq> []" by (simp add: plain_literal_def)
  show ?case
  proof (cases "break_at l s")
    case None
    with l break_at_none show ?thesis by (subst replace_with.simps) auto
  next
    case (Some ab)
    obtain a b where ab: "ab = (a, b)" by (cases ab)
    from Some ab have br: "break_at l s = Some (a, b)" by simp
    have "\<not> sublist l (replace_all l b)" using "1.hyps"(1) [OF l br refl] "1.prems" by simp
    with break_at_before [OF br l] plain_literal_redacted [OF "1.prems", of a "replace_all l b"] br l
    show ?thesis by (subst replace_with.simps) auto
  qed
qed

lemma replace_all_keeps: "plain_literal m \<Longrightarrow> \<not> sublist m s \<Longrightarrow> \<not> sublist m (replace_all l s)"
proof (induction redacted l s rule: replace_with.induct)
  case (1 l s)
  show ?case
  proof (cases "l = [] \<or> break_at l s = None")
    case True
    with "1.prems"(2) show ?thesis by (subst replace_with.simps) auto
  next
    case False
    then obtain a b where br: "break_at l s = Some (a, b)" and l: "l \<noteq> []" by auto
    from br have "s = a @ l @ b" by (rule break_at_some)
    with "1.prems"(2) have ab: "\<not> sublist m a" "\<not> sublist m b"
      by (auto simp: sublist_append)
    have "\<not> sublist m (replace_all l b)" using "1.hyps"(1) [OF l br refl] "1.prems"(1) ab(2) by simp
    with ab(1) plain_literal_redacted [OF "1.prems"(1), of a "replace_all l b"] br l
    show ?thesis by (subst replace_with.simps) auto
  qed
qed

text \<open>One literal after the other.\<close>

lemma fold_replace_all:
  "plain_literal m \<Longrightarrow> m \<in> set ls \<or> \<not> sublist m s \<Longrightarrow> \<not> sublist m (fold replace_all ls s)"
proof (induction ls arbitrary: s)
  case (Cons l ls)
  then show ?case using replace_all_removes replace_all_keeps by (cases "m = l") auto
qed simp

end
