(* ===== verification/Upload_Framing.thy ===== *)
theory Upload_Framing
  imports Http_Upload Text_Search
begin

text \<open>
  The multipart body against a reference reader of \<open>multipart/form-data\<close>: a part ends at the first
  delimiter line, its header at the first blank line. What \<open>uploadFile\<close> writes reads back as the path
  and the bytes, whatever the name of the file is, because names with control characters are refused.
\<close>

section \<open>The reference reader\<close>

definition delimiter :: "string \<Rightarrow> string" where
  "delimiter b = crlf @ ''--'' @ b"

function read_parts :: "string \<Rightarrow> string \<Rightarrow> (string \<times> string) list option" where
  "read_parts b s = (case break_at (crlf @ crlf) s of
     None \<Rightarrow> None
   | Some (header, rest) \<Rightarrow> (case break_at (delimiter b) rest of
       None \<Rightarrow> None
     | Some (body, after) \<Rightarrow>
         if after = ''--'' @ crlf then Some [(header, body)]
         else if prefix crlf after
         then map_option (Cons (header, body)) (read_parts b (drop 2 after))
         else None))"
  by pat_completeness auto
termination
  by (relation "measure (length \<circ> snd)") (auto dest!: break_at_length simp: delimiter_def)

declare read_parts.simps [simp del]

definition read_multipart :: "string \<Rightarrow> string \<Rightarrow> (string \<times> string) list option" where
  "read_multipart b s = (let start = ''--'' @ b @ crlf in
     if prefix start s then read_parts b (drop (length start) s) else None)"

section \<open>Encoding\<close>

definition ascii :: "string \<Rightarrow> bool" where
  "ascii s \<longleftrightarrow> (\<forall>c \<in> set s. of_char c < (128 :: nat))"

text \<open>UTF-8: concatenation is respected, ASCII is itself, and every other character gives bytes above it.\<close>

definition utf8_ok :: "upload_io \<Rightarrow> bool" where
  "utf8_ok U \<longleftrightarrow> (\<forall>a b. utf8 U (a @ b) = utf8 U a @ utf8 U b) \<and>
     (\<forall>c. if of_char c < (128 :: nat) then utf8 U [c] = [c]
          else \<forall>x \<in> set (utf8 U [c]). \<not> of_char x < (128 :: nat))"

lemma utf8_append: "utf8_ok U \<Longrightarrow> utf8 U (a @ b) = utf8 U a @ utf8 U b"
  by (simp add: utf8_ok_def)

lemma utf8_Nil: "utf8_ok U \<Longrightarrow> utf8 U [] = []"
  using utf8_append [of U "[]" "[]"] by simp

lemma utf8_ascii:
  assumes "utf8_ok U"
  shows "ascii s \<Longrightarrow> utf8 U s = s"
proof (induction s)
  case (Cons c s)
  then have "utf8 U [c] = [c]" using assms by (auto simp: utf8_ok_def ascii_def)
  with Cons show ?case using utf8_append [OF assms, of "[c]" s] by (simp add: ascii_def)
qed (simp add: utf8_Nil assms)

lemma utf8_ascii_mem:
  assumes "utf8_ok U" and "of_char x < (128 :: nat)"
  shows "x \<in> set (utf8 U s) \<Longrightarrow> x \<in> set s"
proof (induction s)
  case (Cons c s)
  have "x = c" if "x \<in> set (utf8 U [c])"
  proof (cases "of_char c < (128 :: nat)")
    case True
    then have "utf8 U [c] = [c]" using assms(1) by (auto simp: utf8_ok_def)
    with that show ?thesis by simp
  next
    case False
    with that assms show ?thesis by (auto simp: utf8_ok_def split: if_splits)
  qed
  with Cons show ?case using utf8_append [OF assms(1), of "[c]" s] by auto
qed (simp add: utf8_Nil assms)

section \<open>Round trip\<close>

abbreviation cr :: char where "cr \<equiv> CHR 0x0D"

lemma header_break:
  assumes "cr \<notin> set h" and "cr \<notin> set t" and "t \<noteq> []" and "hd t \<noteq> cr"
  shows "break_at (crlf @ crlf) (h @ crlf @ t @ crlf @ crlf @ s) = Some (h @ crlf @ t, s)"
proof -
  have "break_at (crlf @ crlf) (t @ crlf @ crlf @ s) = Some (t, s)"
    using break_at_skip [of "crlf @ crlf" t "crlf @ crlf @ s"] assms(2) break_at_here [of "crlf @ crlf" s] by simp
  moreover obtain c t' where "t = c # t'" "c \<noteq> cr" using assms(3,4) by (cases t) auto
  ultimately have "break_at (crlf @ crlf) (crlf @ t @ crlf @ crlf @ s) = Some (crlf @ t, s)" by simp
  with break_at_skip [of "crlf @ crlf" h "crlf @ t @ crlf @ crlf @ s"] assms(1) show ?thesis by simp
qed

lemma read_last:
  assumes "break_at (crlf @ crlf) s = Some (h, body @ delimiter b @ ''--'' @ crlf)"
    and "cr \<notin> set b" and "\<not> sublist (delimiter b) body"
  shows "read_parts b s = Some [(h, body)]"
proof -
  have "break_at (delimiter b) (body @ delimiter b @ ''--'' @ crlf) = Some (body, ''--'' @ crlf)"
    using break_at_first [of cr "CHR 0x0A # ''--'' @ b" body "''--'' @ crlf"] assms(2,3)
    by (simp add: delimiter_def)
  with assms(1) show ?thesis by (subst read_parts.simps) simp
qed

lemma read_next:
  assumes "break_at (crlf @ crlf) s = Some (h, body @ delimiter b @ crlf @ rest)" and "cr \<notin> set body"
  shows "read_parts b s = map_option (Cons (h, body)) (read_parts b rest)"
proof -
  have "break_at (delimiter b) (body @ delimiter b @ crlf @ rest) = Some (body, crlf @ rest)"
    using break_at_skip [of "delimiter b" body "delimiter b @ crlf @ rest"] break_at_here [of "delimiter b" "crlf @ rest"] assms(2)
    by (simp add: delimiter_def)
  with assms(1) show ?thesis by (subst read_parts.simps) simp
qed

definition path_header :: string where
  "path_header = ''Content-Disposition: form-data; name='' @ [quote] @ ''relativePath'' @ [quote]"

definition name_header :: string where
  "name_header = ''Content-Disposition: form-data; name='' @ [quote] @ ''file'' @ [quote] @ ''; filename='' @ [quote]"

definition type_header :: string where
  "type_header = ''Content-Type: application/octet-stream''"

lemma ascii_append [simp]: "ascii (a @ b) \<longleftrightarrow> ascii a \<and> ascii b"
  by (auto simp: ascii_def)

lemma headers_ascii:
  "ascii path_header" "ascii name_header" "ascii type_header" "ascii crlf" "ascii ''--''" "ascii [quote]"
  "cr \<notin> set path_header" "cr \<notin> set name_header" "cr \<notin> set type_header" "type_header \<noteq> []" "hd type_header \<noteq> cr"
  by (simp_all add: ascii_def path_header_def name_header_def type_header_def)

lemma boundary_ascii: "ascii (up_token U) \<Longrightarrow> ascii (upload_boundary U)"
  by (simp add: upload_boundary_def) (simp add: ascii_def)

lemma rel_path_part_eq:
  assumes "utf8_ok U" and "ascii (up_token U)"
  shows "rel_path_part U rel =
    ''--'' @ upload_boundary U @ crlf @ path_header @ crlf @ crlf @ utf8 U rel @ crlf"
proof -
  have "rel_path_part U rel =
      utf8 U ((''--'' @ upload_boundary U @ crlf @ path_header @ crlf @ crlf) @ rel @ crlf)"
    by (simp add: rel_path_part_def path_header_def)
  also have "\<dots> = utf8 U (''--'' @ upload_boundary U @ crlf @ path_header @ crlf @ crlf) @ utf8 U rel @ utf8 U crlf"
    by (simp only: utf8_append [OF assms(1)])
  finally show ?thesis
    using assms by (simp only: utf8_ascii boundary_ascii headers_ascii ascii_append simp_thms append_assoc)
qed

lemma file_header_eq:
  assumes "utf8_ok U" and "ascii (up_token U)"
  shows "file_header U rel = ''--'' @ upload_boundary U @ crlf @
    (name_header @ utf8 U (safe_filename rel) @ [quote]) @ crlf @ type_header @ crlf @ crlf"
proof -
  have "file_header U rel = utf8 U ((''--'' @ upload_boundary U @ crlf @ name_header) @ safe_filename rel @
      [quote] @ crlf @ type_header @ crlf @ crlf)"
    by (simp add: file_header_def name_header_def type_header_def)
  also have "\<dots> = utf8 U (''--'' @ upload_boundary U @ crlf @ name_header) @ utf8 U (safe_filename rel) @
      utf8 U ([quote] @ crlf @ type_header @ crlf @ crlf)"
    by (simp only: utf8_append [OF assms(1)])
  finally show ?thesis
    using assms by (simp only: utf8_ascii boundary_ascii headers_ascii ascii_append simp_thms append_assoc)
qed

lemma file_footer_eq:
  assumes "utf8_ok U" and "ascii (up_token U)"
  shows "file_footer U = delimiter (upload_boundary U) @ ''--'' @ crlf"
  using assms by (simp only: file_footer_def delimiter_def utf8_ascii boundary_ascii headers_ascii ascii_append
      simp_thms append_assoc)

lemma no_cr:
  assumes "utf8_ok U" and "\<not> has_control rel"
  shows "cr \<notin> set (utf8 U rel) \<and> cr \<notin> set (utf8 U (safe_filename rel))"
proof -
  have "cr \<notin> set rel" using assms(2) by (auto simp: has_control_def)
  moreover then have "cr \<notin> set (safe_filename rel)"
    using set_basename [of rel] by (auto simp: safe_filename_def)
  ultimately show ?thesis using utf8_ascii_mem [OF assms(1), of cr] by auto
qed

text \<open>Property C24: a complete upload reads back as what it was meant to carry: the relative path, and the
  bytes of the file, as many as its size when it was opened, under a quoted name that the path cannot
  break out of. The random boundary is assumed not to occur in the file.\<close>

theorem upload_reads_back:
  assumes "upload_run U rel evs = Streamed s" and "us_sent s"
    and "utf8_ok U" and "ascii (up_token U)" and "cr \<notin> set (up_token U)"
    and "\<not> sublist (delimiter (upload_boundary U)) (source_data evs)"
  shows "\<exists>body. read_multipart (upload_boundary U) (us_wire s) =
      Some [(path_header, utf8 U rel),
            (name_header @ utf8 U (safe_filename rel) @ [quote] @ crlf @ type_header, body)] \<and>
    up_stat U = Some (length body) \<and> prefix body (source_data evs)"
proof -
  let ?b = "upload_boundary U" and ?h = "name_header @ utf8 U (safe_filename rel) @ [quote]"
  from assms(1) obtain sz where sz: "up_stat U = Some sz" "s = stream_upload U rel sz evs" "\<not> has_control rel"
    by (auto simp: upload_run_def split: if_splits option.splits)
  let ?body = "take sz (source_data evs)"
  from wire_when_sent [of U rel sz evs] assms(2) sz(2)
  have w: "us_wire s = (rel_path_part U rel @ file_header U rel) @ ?body @ file_footer U" "sz \<le> length (source_data evs)"
    by (simp_all add: upload_prologue_def)
  have cr: "cr \<notin> set (utf8 U rel)" "cr \<notin> set ?h" "cr \<notin> set ?b"
    using no_cr [OF assms(3) sz(3)] headers_ascii(8) assms(5) by (auto simp: upload_boundary_def)
  have "\<not> sublist (delimiter ?b) ?body"
    using assms(6) by (meson sublist_order.order_trans prefix_imp_sublist take_is_prefix)
  then have last: "read_parts ?b (?h @ crlf @ type_header @ crlf @ crlf @ ?body @ delimiter ?b @ ''--'' @ crlf) =
      Some [(?h @ crlf @ type_header, ?body)]"
    by (intro read_last header_break cr headers_ascii)
  have "break_at (crlf @ crlf) (path_header @ crlf @ crlf @ t) = Some (path_header, t)" for t
    using break_at_skip [of "crlf @ crlf" path_header "crlf @ crlf @ t"] break_at_here [of "crlf @ crlf" t] headers_ascii(7)
    by simp
  from read_next [OF this cr(1), of ?b] last
  have parts: "read_parts ?b (path_header @ crlf @ crlf @ utf8 U rel @ delimiter ?b @ crlf @
      ?h @ crlf @ type_header @ crlf @ crlf @ ?body @ delimiter ?b @ ''--'' @ crlf) =
      Some [(path_header, utf8 U rel), (?h @ crlf @ type_header, ?body)]"
    by simp
  have "us_wire s = (''--'' @ ?b @ crlf) @ path_header @ crlf @ crlf @ utf8 U rel @ delimiter ?b @ crlf @
      ?h @ crlf @ type_header @ crlf @ crlf @ ?body @ delimiter ?b @ ''--'' @ crlf"
    unfolding w(1) rel_path_part_eq [OF assms(3,4)] file_header_eq [OF assms(3,4)] file_footer_eq [OF assms(3,4)]
    by (simp add: delimiter_def)
  then have "read_multipart ?b (us_wire s) =
      Some [(path_header, utf8 U rel), (?h @ crlf @ type_header, ?body)]"
    using parts by (simp add: read_multipart_def Let_def)
  with w(2) sz(1) show ?thesis
    by (intro exI [of _ ?body]) (simp add: take_is_prefix)
qed

lemma upload_reads_back_witness:
  "\<exists>body. read_multipart ''----HermitStash0f''
     (us_wire (stream_upload \<lparr>up_opens = True, up_stat = Some 2, up_guard_refuses = False, up_token = ''0f'',
        utf8 = (\<lambda>s. s), up_max_bytes = 10, up_json = (\<lambda>_. None)\<rparr> ''d/a.txt'' 2
        [SourceData ''xy'', ThrottlePass, SourceEnd, ThrottleEnd])) =
      Some [(path_header, ''d/a.txt''), (name_header @ ''a.txt'' @ [quote] @ crlf @ type_header, body)] \<and>
    length body = 2"
proof -
  let ?U = "\<lparr>up_opens = True, up_stat = Some 2, up_guard_refuses = False, up_token = ''0f'',
        utf8 = (\<lambda>s. s), up_max_bytes = 10, up_json = (\<lambda>_. None)\<rparr>"
  let ?evs = "[SourceData ''xy'', ThrottlePass, SourceEnd, ThrottleEnd]"
  let ?s = "stream_upload ?U ''d/a.txt'' 2 ?evs"
  have "upload_run ?U ''d/a.txt'' ?evs = Streamed ?s" by (simp add: upload_run_def has_control_def)
  moreover have "us_sent ?s" by code_simp
  moreover have "utf8_ok ?U" "ascii (up_token ?U)" "cr \<notin> set (up_token ?U)"
    by (simp_all add: utf8_ok_def ascii_def)
  moreover have "\<not> sublist (delimiter (upload_boundary ?U)) (source_data ?evs)"
    by (auto dest: sublist_length_le simp: delimiter_def upload_boundary_def source_data_def)
  ultimately have "\<exists>body. read_multipart (upload_boundary ?U) (us_wire ?s) =
      Some [(path_header, utf8 ?U ''d/a.txt''),
            (name_header @ utf8 ?U (safe_filename ''d/a.txt'') @ [quote] @ crlf @ type_header, body)] \<and>
    up_stat ?U = Some (length body) \<and> prefix body (source_data ?evs)"
    by (rule upload_reads_back)
  moreover have "upload_boundary ?U = ''----HermitStash0f''" by (simp add: upload_boundary_def)
  moreover have "utf8 ?U ''d/a.txt'' = ''d/a.txt''" "utf8 ?U (safe_filename ''d/a.txt'') = ''a.txt''"
    by code_simp+
  ultimately show ?thesis by (simp only: upload_io.simps) auto
qed

end
