(* ===== verification/Config.thy ===== *)
theory Config
  imports Js_Value Path_Filter
begin

text \<open>
  The client's settings (\<open>lib/config.js\<close>): reading \<open>config.json\<close>, the overlay of environment variables,
  validation, and the ignore and include patterns. A configuration is the association list of the
  object's own properties. The file system, the environment and the framework's URL parser and loopback
  test are parameters.
\<close>

section \<open>The host\<close>

datatype file_read = FileMissing | FileRefused string | FileText string

record cfg_host =
  host_env :: "string \<Rightarrow> string option"
  host_exists :: "path \<Rightarrow> bool"
  host_read :: "path \<Rightarrow> file_read"                       \<comment> \<open>\<open>fdSafeReadSync\<close>\<close>
  host_json :: "string \<Rightarrow> js option"                     \<comment> \<open>\<open>safeJson.parse\<close>, or it throws\<close>
  host_url :: "string \<Rightarrow> (string \<times> string) option"      \<comment> \<open>protocol and host name, or it throws\<close>
  host_loopback :: "string \<Rightarrow> bool option"               \<comment> \<open>\<open>isExactLoopbackName\<close>, or it throws\<close>
  host_config_file :: path

type_synonym props = "(string \<times> js) list"

fun put :: "string \<Rightarrow> js \<Rightarrow> props \<Rightarrow> props" where
  "put k v [] = [(k, v)]"
| "put k v ((k', v') # ps) = (if k = k' then (k, v) # ps else (k', v') # put k v ps)"

definition get_prop :: "props \<Rightarrow> string \<Rightarrow> js" where
  "get_prop ps k = field (JObj ps) k"

lemma get_prop_put [simp]: "get_prop (put k v ps) k' = (if k = k' then v else get_prop ps k')"
  by (induction ps) (auto simp: get_prop_def split: if_splits)

text \<open>A loaded configuration: its properties, and which variable set which of them.\<close>

record config =
  props :: props
  env_sources :: "(string \<times> string) list"

abbreviation conf :: "config \<Rightarrow> string \<Rightarrow> js" where "conf c k \<equiv> get_prop (props c) k"

section \<open>Loading\<close>

definition config_defaults :: props where
  "config_defaults = [
     (''server'', JStr []), (''bundleId'', JStr []), (''shareId'', JStr []), (''syncFolder'', JStr []),
     (''apiKeyRef'', JStr ''keychain:hermitstash-sync''), (''mtls'', JNull), (''ignore'', JArr []),
     (''include'', JArr []), (''pinnedServerSpki'', JArr []), (''tunnelMode'', JBool False),
     (''maxFileSize'', JInt 0), (''logLevel'', JStr ''info''), (''autoUpdate'', JBool True),
     (''autoUpdateChannel'', JStr ''stable''), (''uploadConcurrency'', JInt 4),
     (''uploadBytesPerSec'', JInt 0), (''downloadBytesPerSec'', JInt 0)]"

text \<open>One variable of the overlay: the value it gives, if it gives one.\<close>

definition clean_integer :: "string \<Rightarrow> bool" where
  "clean_integer s = (let ds = (case s of [] \<Rightarrow> [] | c # cs \<Rightarrow> if c = CHR ''+'' \<or> c = CHR ''-'' then cs else s)
     in ds \<noteq> [] \<and> (\<forall>c \<in> set ds. is_digit c))"

definition env_int :: "string \<Rightarrow> js option" where
  "env_int v = (let raw = js_trim v in
     if raw = [] then None
     else if clean_integer raw then map_option js_number (parse_int raw) else Some (JStr v))"

definition env_bool :: "string \<Rightarrow> js option" where
  "env_bool v = (let raw = js_trim v in
     if raw = [] then None
     else Some (JBool (ascii_lower raw \<notin> {''0'', ''false'', ''no'', ''off''})))"

definition env_str :: "string \<Rightarrow> js option" where
  "env_str v = (if v = [] then None else Some (JStr v))"

definition env_csv :: "string \<Rightarrow> js option" where
  "env_csv v = (let parts = filter (\<lambda>s. s \<noteq> []) (map js_trim (split_on (CHR '','') v)) in
     if parts = [] then None else Some (JArr (map JStr parts)))"

definition overlay_table :: "(string \<times> (string \<Rightarrow> js option) \<times> string) list" where
  "overlay_table = [
     (''HERMITSTASH_UPLOAD_CONCURRENCY'', env_int, ''uploadConcurrency''),
     (''HERMITSTASH_UPLOAD_BYTES_PER_SEC'', env_int, ''uploadBytesPerSec''),
     (''HERMITSTASH_DOWNLOAD_BYTES_PER_SEC'', env_int, ''downloadBytesPerSec''),
     (''HERMITSTASH_AUTO_UPDATE'', env_bool, ''autoUpdate''),
     (''HERMITSTASH_TUNNEL_MODE'', env_bool, ''tunnelMode''),
     (''HERMITSTASH_AUTO_UPDATE_CHANNEL'', env_str, ''autoUpdateChannel''),
     (''HERMITSTASH_LOG_LEVEL'', env_str, ''logLevel''),
     (''HERMITSTASH_PINNED_SERVER_SPKI'', env_csv, ''pinnedServerSpki''),
     (''HERMITSTASH_INCLUDE'', env_csv, ''include''),
     (''HERMITSTASH_IGNORE'', env_csv, ''ignore'')]"

definition overlay_one ::
    "cfg_host \<Rightarrow> string \<times> (string \<Rightarrow> js option) \<times> string \<Rightarrow> config \<Rightarrow> config" where
  "overlay_one H row c = (case row of (name, conv, key) \<Rightarrow>
     (case Option.bind (host_env H name) conv of
        None \<Rightarrow> c
      | Some v \<Rightarrow> c\<lparr>props := put key v (props c), env_sources := (key, name) # env_sources c\<rparr>))"

definition apply_env_overlay :: "cfg_host \<Rightarrow> props \<Rightarrow> config" where
  "apply_env_overlay H ps = fold (overlay_one H) overlay_table \<lparr>props = ps, env_sources = []\<rparr>"

datatype load_error = NotFound | Unreadable string | NotJson | NotAnObject

definition load_config :: "cfg_host \<Rightarrow> load_error + config" where
  "load_config H = (case host_read H (host_config_file H) of
     FileMissing \<Rightarrow> Inl NotFound
   | FileRefused kind \<Rightarrow> Inl (Unreadable kind)
   | FileText raw \<Rightarrow> (case host_json H raw of
       None \<Rightarrow> Inl NotJson
     | Some (JObj parsed) \<Rightarrow> Inr (apply_env_overlay H (fold (\<lambda>(k, v). put k v) parsed config_defaults))
     | Some _ \<Rightarrow> Inl NotAnObject))"

section \<open>Validation\<close>

text \<open>An error names the variable that set the value, or else the property.\<close>

datatype config_error =
    Required string | MustBeString string | BadUrl | PlaintextRefused | FolderMissing
  | MtlsShape string | MtlsIncomplete string "string list" | MtlsNotString string | MtlsFileMissing string
  | NotNatural string | BadChannel string | NotBoolean string | NotAnArray string
  | EntryNotString string nat | PinsNotArray string | BadPin string nat | BadLogLevel string
  | TunnelUnpinned

definition label :: "config \<Rightarrow> string \<Rightarrow> string" where
  "label c k = (case map_of (env_sources c) k of Some name \<Rightarrow> name | None \<Rightarrow> k)"

definition is_loopback_host :: "cfg_host \<Rightarrow> string \<Rightarrow> bool" where
  "is_loopback_host H h = (case host_loopback H h of None \<Rightarrow> False | Some b \<Rightarrow> b)"

definition allow_plaintext :: "cfg_host \<Rightarrow> bool" where
  "allow_plaintext H \<longleftrightarrow> host_env H ''HERMITSTASH_ALLOW_PLAINTEXT'' \<in> {Some ''1'', Some ''true'', Some ''yes''}"

definition check :: "bool \<Rightarrow> config_error \<Rightarrow> config_error list" where
  "check bad e = (if bad then [e] else [])"

definition validate_required :: "config \<Rightarrow> config_error list" where
  "validate_required c =
     check (\<not> js_truthy (conf c ''server'')) (Required ''server'') @
     check (\<not> js_truthy (conf c ''syncFolder'')) (Required ''syncFolder'') @
     check (\<not> js_truthy (conf c ''bundleId'') \<and> \<not> js_truthy (conf c ''shareId'')) (Required ''bundleId or shareId'') @
     concat (map (\<lambda>k. check (\<not> absent (conf c k) \<and> \<not> is_string (conf c k)) (MustBeString (label c k)))
       [''server'', ''syncFolder'', ''bundleId'', ''shareId''])"

definition validate_server :: "cfg_host \<Rightarrow> config \<Rightarrow> config_error list" where
  "validate_server H c = (case conf c ''server'' of
     JStr s \<Rightarrow> if s = [] then [] else (case host_url H s of
         None \<Rightarrow> [BadUrl]
       | Some (protocol, h) \<Rightarrow>
           check (protocol = ''http:'' \<and> \<not> is_loopback_host H h \<and> \<not> allow_plaintext H) PlaintextRefused)
   | _ \<Rightarrow> [])"

definition validate_folder :: "cfg_host \<Rightarrow> config \<Rightarrow> config_error list" where
  "validate_folder H c = (case conf c ''syncFolder'' of
     JStr s \<Rightarrow> check (s \<noteq> [] \<and> \<not> host_exists H s) FolderMissing | _ \<Rightarrow> [])"

definition mtls_keys :: "string list" where
  "mtls_keys = [''cert'', ''key'', ''ca'']"

definition validate_mtls :: "cfg_host \<Rightarrow> config \<Rightarrow> config_error list" where
  "validate_mtls H c = (let m = conf c ''mtls'' in
     if absent m then []
     else if \<not> is_object m then [MtlsShape (label c ''mtls'')]
     else (let missing = filter (\<lambda>k. absent (field m k)) mtls_keys in
       check (missing \<noteq> [] \<and> length missing < 3) (MtlsIncomplete (label c ''mtls'') missing) @
       concat (map (\<lambda>k. case field m k of
           JStr v \<Rightarrow> check (\<not> host_exists H v) (MtlsFileMissing k)
         | v \<Rightarrow> check (\<not> absent v) (MtlsNotString k)) mtls_keys)))"

definition natural :: "js \<Rightarrow> bool" where
  "natural v = (case v of JInt n \<Rightarrow> n \<ge> 0 | _ \<Rightarrow> False)"

definition int_gte_0 :: "config \<Rightarrow> string \<Rightarrow> config_error list" where
  "int_gte_0 c k = check (conf c k \<noteq> JUndef \<and> \<not> natural (conf c k)) (NotNatural (label c k))"

definition is_boolean :: "js \<Rightarrow> bool" where
  "is_boolean v = (case v of JBool b \<Rightarrow> True | _ \<Rightarrow> False)"

fun entry_errors :: "(js \<Rightarrow> bool) \<Rightarrow> (nat \<Rightarrow> config_error) \<Rightarrow> nat \<Rightarrow> js list \<Rightarrow> config_error list" where
  "entry_errors good e i [] = []"
| "entry_errors good e i (v # vs) = check (\<not> good v) (e i) @ entry_errors good e (i + 1) vs"

definition string_array :: "config \<Rightarrow> string \<Rightarrow> config_error list" where
  "string_array c k = (case conf c k of
     JUndef \<Rightarrow> []
   | JArr vs \<Rightarrow> entry_errors is_string (EntryNotString (label c k)) 0 vs
   | _ \<Rightarrow> [NotAnArray (label c k)])"

definition base64_char :: "char \<Rightarrow> bool" where
  "base64_char c \<longleftrightarrow> is_digit c \<or> (65 :: nat) \<le> of_char c \<and> of_char c \<le> (90 :: nat) \<or>
     (97 :: nat) \<le> of_char c \<and> of_char c \<le> (122 :: nat) \<or> c = CHR ''+'' \<or> c = slash"

definition pin_shape :: "js \<Rightarrow> bool" where
  "pin_shape v = (case v of
     JStr s \<Rightarrow> starts_with s ''sha256/'' \<and> length s = 51 \<and> last s = CHR ''='' \<and>
       (\<forall>c \<in> set (take 43 (drop 7 s)). base64_char c)
   | _ \<Rightarrow> False)"

definition validate_pins :: "config \<Rightarrow> config_error list" where
  "validate_pins c = (case conf c ''pinnedServerSpki'' of
     JUndef \<Rightarrow> []
   | JArr vs \<Rightarrow> entry_errors pin_shape (BadPin (label c ''pinnedServerSpki'')) 0 vs
   | _ \<Rightarrow> [PinsNotArray (label c ''pinnedServerSpki'')])"

definition validate_config :: "cfg_host \<Rightarrow> config \<Rightarrow> config_error list" where
  "validate_config H c =
     validate_required c @ validate_server H c @ validate_folder H c @ validate_mtls H c @
     concat (map (int_gte_0 c) [''uploadConcurrency'', ''uploadBytesPerSec'', ''downloadBytesPerSec'', ''maxFileSize'']) @
     check (conf c ''autoUpdateChannel'' \<notin> {JUndef, JStr ''stable'', JStr ''beta''})
       (BadChannel (label c ''autoUpdateChannel'')) @
     check (conf c ''autoUpdate'' \<noteq> JUndef \<and> \<not> is_boolean (conf c ''autoUpdate'')) (NotBoolean (label c ''autoUpdate'')) @
     string_array c ''include'' @ string_array c ''ignore'' @ validate_pins c @
     check (conf c ''logLevel'' \<notin> {JUndef, JStr ''debug'', JStr ''info'', JStr ''warn'', JStr ''error''})
       (BadLogLevel (label c ''logLevel'')) @
     check (conf c ''tunnelMode'' \<noteq> JUndef \<and> \<not> is_boolean (conf c ''tunnelMode'')) (NotBoolean (label c ''tunnelMode'')) @
     check (conf c ''tunnelMode'' = JBool True \<and>
         (case conf c ''pinnedServerSpki'' of JArr vs \<Rightarrow> vs = [] | _ \<Rightarrow> True)) TunnelUnpinned"

section \<open>Patterns\<close>

datatype pattern_error = PatternFileUnreadable path

definition comment_line :: "string \<Rightarrow> bool" where
  "comment_line l \<longleftrightarrow> starts_with l ''#''"

definition read_pattern_file :: "cfg_host \<Rightarrow> path \<Rightarrow> pattern_error + string list" where
  "read_pattern_file H f = (case host_read H f of
     FileMissing \<Rightarrow> Inr []
   | FileRefused kind \<Rightarrow> Inl (PatternFileUnreadable f)
   | FileText raw \<Rightarrow> Inr (filter (\<lambda>l. l \<noteq> [] \<and> \<not> comment_line l) (map js_trim (split_on (CHR 0x0A) raw))))"

fun array_items :: "js \<Rightarrow> js list" where
  "array_items (JArr vs) = vs"
| "array_items _ = []"

fun strings_of :: "js list \<Rightarrow> string list" where
  "strings_of [] = []"
| "strings_of (JStr s # vs) = s # strings_of vs"
| "strings_of (_ # vs) = strings_of vs"

text \<open>\<open>[...new Set(xs)]\<close> keeps the first of equal elements.\<close>

fun first_of_each :: "string list \<Rightarrow> string list \<Rightarrow> string list" where
  "first_of_each seen [] = []"
| "first_of_each seen (x # xs) =
     (if x \<in> set seen then first_of_each seen xs else x # first_of_each (x # seen) xs)"

lemma first_of_each_set: "set (first_of_each seen xs) = set xs - set seen \<and> distinct (first_of_each seen xs)"
  by (induction seen xs rule: first_of_each.induct) auto

lemma strings_of_set: "set (strings_of vs) = {s. JStr s \<in> set vs}"
  by (induction vs rule: strings_of.induct) auto

definition with_pattern_file ::
    "cfg_host \<Rightarrow> config \<Rightarrow> string \<Rightarrow> js list \<Rightarrow> pattern_error + string list" where
  "with_pattern_file H c name pats =
     (let collect = (\<lambda>lines. Inr (first_of_each [] (strings_of pats @ lines)))
      in case conf c ''syncFolder'' of
        JStr folder \<Rightarrow> if folder = [] then collect [] else
          (case read_pattern_file H (folder @ [slash] @ name) of Inl e \<Rightarrow> Inl e | Inr lines \<Rightarrow> collect lines)
      | _ \<Rightarrow> collect [])"

definition get_ignore_patterns :: "cfg_host \<Rightarrow> config \<Rightarrow> pattern_error + string list" where
  "get_ignore_patterns H c =
     with_pattern_file H c ''.hermitstash-ignore'' (map JStr default_ignores @ array_items (conf c ''ignore''))"

definition get_include_patterns :: "cfg_host \<Rightarrow> config \<Rightarrow> pattern_error + string list" where
  "get_include_patterns H c = with_pattern_file H c ''.hermitstash-include'' (array_items (conf c ''include''))"

text \<open>\<open>warnUnsupportedPatterns\<close> returns the entries it warned about; the advice depends on their shape.\<close>

datatype pattern_help =
    HelpNotString | HelpLeadingSlash string | HelpTrailingSlash string | HelpRange | HelpQuestion
  | HelpNegation | HelpDoubleStar | HelpStar | HelpShape

fun unsupported_pattern_help :: "js_pattern \<Rightarrow> pattern_help" where
  "unsupported_pattern_help PNonStr = HelpNotString"
| "unsupported_pattern_help (PStr p) =
     (if starts_with p ''/'' then HelpLeadingSlash (dropWhile (\<lambda>c. c = slash) p)
      else if ends_with p ''/'' then HelpTrailingSlash (p @ ''**'')
      else if CHR ''['' \<in> set p \<or> CHR '']'' \<in> set p then HelpRange
      else if CHR ''?'' \<in> set p then HelpQuestion
      else if CHR ''!'' \<in> set p then HelpNegation
      else if sublist ''**'' p then HelpDoubleStar
      else if star \<in> set p then HelpStar
      else HelpShape)"

definition warn_unsupported_patterns :: "text_ops \<Rightarrow> js_pattern list \<Rightarrow> (js_pattern \<times> pattern_help) list" where
  "warn_unsupported_patterns T ps =
     map (\<lambda>p. (p, unsupported_pattern_help p)) (filter (\<lambda>p. classify_pattern T p = Unsupported) ps)"

end
