(* ===== verification/Config_Safety.thy ===== *)
theory Config_Safety
  imports Config
begin

text \<open>
  What loading and validating a configuration guarantees: an accepted one has the types the rest of the
  client relies on, every value is the variable's, the file's or the default, in that order, and no
  pattern the user wrote is dropped.
\<close>

section \<open>Accepted configurations\<close>

definition list_of :: "(js \<Rightarrow> bool) \<Rightarrow> js \<Rightarrow> bool" where
  "list_of good v \<longleftrightarrow> (\<exists>vs. v = JArr vs \<and> (\<forall>x \<in> set vs. good x))"

definition server_typed :: "cfg_host \<Rightarrow> js \<Rightarrow> bool" where
  "server_typed H v \<longleftrightarrow> (\<exists>s protocol h. v = JStr s \<and> s \<noteq> [] \<and> host_url H s = Some (protocol, h) \<and>
     (protocol = ''http:'' \<longrightarrow> host_loopback H h = Some True \<or> allow_plaintext H))"

definition folder_typed :: "cfg_host \<Rightarrow> js \<Rightarrow> bool" where
  "folder_typed H v \<longleftrightarrow> (\<exists>s. v = JStr s \<and> s \<noteq> [] \<and> host_exists H s)"

definition share_typed :: "js \<Rightarrow> js \<Rightarrow> bool" where
  "share_typed b s \<longleftrightarrow> (absent b \<or> is_string b) \<and> (absent s \<or> is_string s) \<and> (js_truthy b \<or> js_truthy s)"

definition mtls_typed :: "cfg_host \<Rightarrow> js \<Rightarrow> bool" where
  "mtls_typed H m \<longleftrightarrow> absent m \<or> is_object m \<and>
     ((\<forall>k \<in> set mtls_keys. absent (field m k)) \<or>
      (\<forall>k \<in> set mtls_keys. \<exists>f. field m k = JStr f \<and> host_exists H f))"

definition config_typed :: "cfg_host \<Rightarrow> config \<Rightarrow> bool" where
  "config_typed H c \<longleftrightarrow>
     server_typed H (conf c ''server'') \<and> folder_typed H (conf c ''syncFolder'') \<and>
     share_typed (conf c ''bundleId'') (conf c ''shareId'') \<and> mtls_typed H (conf c ''mtls'') \<and>
     (\<forall>k \<in> {''uploadConcurrency'', ''uploadBytesPerSec'', ''downloadBytesPerSec'', ''maxFileSize''}.
        conf c k = JUndef \<or> natural (conf c k)) \<and>
     conf c ''autoUpdateChannel'' \<in> {JUndef, JStr ''stable'', JStr ''beta''} \<and>
     (conf c ''autoUpdate'' = JUndef \<or> is_boolean (conf c ''autoUpdate'')) \<and>
     (conf c ''include'' = JUndef \<or> list_of is_string (conf c ''include'')) \<and>
     (conf c ''ignore'' = JUndef \<or> list_of is_string (conf c ''ignore'')) \<and>
     (conf c ''pinnedServerSpki'' = JUndef \<or> list_of pin_shape (conf c ''pinnedServerSpki'')) \<and>
     conf c ''logLevel'' \<in> {JUndef, JStr ''debug'', JStr ''info'', JStr ''warn'', JStr ''error''} \<and>
     (conf c ''tunnelMode'' = JUndef \<or> is_boolean (conf c ''tunnelMode'')) \<and>
     (conf c ''tunnelMode'' = JBool True \<longrightarrow> (\<exists>p ps. conf c ''pinnedServerSpki'' = JArr (p # ps)))"

lemma check_Nil [simp]: "check b e = [] \<longleftrightarrow> \<not> b"
  by (simp add: check_def)

lemma entry_errors_Nil [simp]: "entry_errors good e i vs = [] \<longleftrightarrow> (\<forall>v \<in> set vs. good v)"
  by (induction good e i vs rule: entry_errors.induct) auto

lemma string_array_Nil: "string_array c k = [] \<longleftrightarrow> conf c k = JUndef \<or> list_of is_string (conf c k)"
  by (auto simp: string_array_def list_of_def split: js.split)

lemma validate_pins_Nil:
  "validate_pins c = [] \<longleftrightarrow> conf c ''pinnedServerSpki'' = JUndef \<or> list_of pin_shape (conf c ''pinnedServerSpki'')"
  by (auto simp: validate_pins_def list_of_def split: js.split)

lemma validate_mtls_Nil: "validate_mtls H c = [] \<longleftrightarrow> mtls_typed H (conf c ''mtls'')"
proof (cases "absent (conf c ''mtls'') \<or> \<not> is_object (conf c ''mtls'')")
  case True
  then show ?thesis by (auto simp: validate_mtls_def mtls_typed_def Let_def)
next
  case False
  let ?f = "field (conf c ''mtls'')"
  have each: "(case ?f k of JStr v \<Rightarrow> check (\<not> host_exists H v) (MtlsFileMissing k)
      | v \<Rightarrow> check (\<not> absent v) (MtlsNotString k)) = [] \<longleftrightarrow>
      absent (?f k) \<or> (\<exists>v. ?f k = JStr v \<and> host_exists H v)" for k
    by (auto simp: absent_def split: js.split)
  have str: "?f k = JStr v \<Longrightarrow> \<not> absent (?f k)" for k v by (simp add: absent_def)
  from False show ?thesis
    by (auto simp: validate_mtls_def mtls_typed_def Let_def each mtls_keys_def split: if_splits dest: str)
qed

lemma validate_server_Nil:
  "conf c ''server'' = JStr s \<Longrightarrow> s \<noteq> [] \<Longrightarrow> validate_server H c = [] \<longleftrightarrow> server_typed H (conf c ''server'')"
  by (auto simp: validate_server_def server_typed_def is_loopback_host_def split: option.splits)

lemma truthy_string: "js_truthy v \<Longrightarrow> absent v \<or> is_string v \<Longrightarrow> \<exists>s. v = JStr s \<and> s \<noteq> []"
  by (cases v) (auto simp: absent_def)

lemma validate_required_Nil:
  "validate_required c = [] \<longleftrightarrow>
     (\<exists>s. conf c ''server'' = JStr s \<and> s \<noteq> []) \<and> (\<exists>s. conf c ''syncFolder'' = JStr s \<and> s \<noteq> []) \<and>
     share_typed (conf c ''bundleId'') (conf c ''shareId'')"
  using truthy_string [of "conf c ''server''"] truthy_string [of "conf c ''syncFolder''"]
  by (auto simp: validate_required_def share_typed_def)

lemma limits_Nil:
  "concat (map (int_gte_0 c) ks) = [] \<longleftrightarrow> (\<forall>k \<in> set ks. conf c k = JUndef \<or> natural (conf c k))"
  by (auto simp: int_gte_0_def)

lemma boolean_Nil: "check (v \<noteq> JUndef \<and> \<not> is_boolean v) e = [] \<longleftrightarrow> v = JUndef \<or> is_boolean v"
  by auto

lemma choice_Nil: "check (v \<notin> S) e = [] \<longleftrightarrow> v \<in> S"
  by simp

lemma tunnel_Nil:
  "check (t = JBool True \<and> (case pins of JArr vs \<Rightarrow> vs = [] | _ \<Rightarrow> True)) e = [] \<longleftrightarrow>
     (t = JBool True \<longrightarrow> (\<exists>p ps. pins = JArr (p # ps)))"
  by (auto simp: neq_Nil_conv split: js.split)

lemma conj_insert: "D \<Longrightarrow> (R \<and> A \<and> B \<and> C \<and> X) = (R \<and> A \<and> B \<and> D \<and> C \<and> X)"
  by blast

lemma validated_config_typed_iff: "validate_config H c = [] \<longleftrightarrow> config_typed H c"
proof (cases "validate_required c = []")
  case False
  have "validate_required c = []" if "config_typed H c"
  proof -
    from that have "server_typed H (conf c ''server'')" "folder_typed H (conf c ''syncFolder'')"
      "share_typed (conf c ''bundleId'') (conf c ''shareId'')"
      unfolding config_typed_def by - (elim conjE, assumption)+
    then show ?thesis by (auto simp: validate_required_Nil server_typed_def folder_typed_def)
  qed
  with False show ?thesis by (auto simp: validate_config_def)
next
  case True
  then obtain s f where s: "conf c ''server'' = JStr s" "s \<noteq> []" "conf c ''syncFolder'' = JStr f" "f \<noteq> []"
    and share: "share_typed (conf c ''bundleId'') (conf c ''shareId'')"
    by (auto simp: validate_required_Nil)
  have folder: "validate_folder H c = [] \<longleftrightarrow> folder_typed H (conf c ''syncFolder'')"
    using s by (simp add: validate_folder_def folder_typed_def)
  have limits: "set [''uploadConcurrency'', ''uploadBytesPerSec'', ''downloadBytesPerSec'', ''maxFileSize''] =
      {''uploadConcurrency'', ''uploadBytesPerSec'', ''downloadBytesPerSec'', ''maxFileSize''}"
    by (simp only: list.set)
  have "validate_config H c = [] \<longleftrightarrow> validate_required c = [] \<and> config_typed H c"
    unfolding validate_config_def config_typed_def append_is_Nil_conv validate_server_Nil [OF s(1,2)] folder
      validate_mtls_Nil string_array_Nil validate_pins_Nil limits_Nil limits boolean_Nil choice_Nil tunnel_Nil
    by (rule conj_insert [OF share])
  with True show ?thesis by simp
qed

text \<open>Property C25: a configuration passes validation exactly when every setting has the type and range the
  client relies on: server, folder and share are non-empty text, the server is not reached in clear
  unless it is this machine or the operator allows it, the certificate files come together and exist,
  limits are natural numbers, patterns and pins are lists of text of the right shape, and tunnel mode
  comes with a pin.\<close>

theorem validated_config_typed: "validate_config H c = [] \<longleftrightarrow> config_typed H c"
  by (rule validated_config_typed_iff)

section \<open>Where a value comes from\<close>

definition overlay_value :: "cfg_host \<Rightarrow> string \<Rightarrow> js option" where
  "overlay_value H k = (case List.find (\<lambda>(name, conv, key). key = k) overlay_table of
     None \<Rightarrow> None | Some (name, conv, key) \<Rightarrow> Option.bind (host_env H name) conv)"

lemma overlay_fold:
  "distinct (map (snd \<circ> snd) rows) \<Longrightarrow> conf (fold (overlay_one H) rows c) k =
     (case List.find (\<lambda>(name, conv, key). key = k) rows of
        None \<Rightarrow> conf c k
      | Some (name, conv, key) \<Rightarrow> (case Option.bind (host_env H name) conv of None \<Rightarrow> conf c k | Some v \<Rightarrow> v))"
proof (induction rows arbitrary: c)
  case (Cons row rows)
  obtain name conv key where r: "row = (name, conv, key)" by (cases row)
  have none: "key = k \<Longrightarrow> List.find (\<lambda>(name, conv, key). key = k) rows = None"
    using Cons.prems r by (force simp: find_None_iff)
  have one: "conf (overlay_one H (name, conv, key) c) k =
      (if key = k then (case Option.bind (host_env H name) conv of None \<Rightarrow> conf c k | Some v \<Rightarrow> v) else conf c k)"
    by (auto simp: overlay_one_def split: option.split)
  show ?case using Cons.IH [of "overlay_one H (name, conv, key) c"] Cons.prems none one
    by (auto simp: r split: option.splits)
qed simp

lemma put_fold:
  "get_prop (fold (\<lambda>(k, v). put k v) kvs ps) k = (case map_of (rev kvs) k of None \<Rightarrow> get_prop ps k | Some v \<Rightarrow> v)"
  by (induction kvs arbitrary: ps) (auto simp: map_add_def split: option.split)

text \<open>Every setting of a loaded configuration is the environment variable's value if there is
  one, else the file's, else the default; a blank variable leaves the setting alone.\<close>

theorem loaded_value_precedence:
  assumes "load_config H = Inr c"
  shows "\<exists>raw parsed. host_read H (host_config_file H) = FileText raw \<and> host_json H raw = Some (JObj parsed) \<and>
    (\<forall>k. conf c k = (case overlay_value H k of
       Some v \<Rightarrow> v
     | None \<Rightarrow> (case map_of (rev parsed) k of Some v \<Rightarrow> v | None \<Rightarrow> get_prop config_defaults k)))"
proof -
  have d: "distinct (map (snd \<circ> snd) overlay_table)" by (simp add: overlay_table_def)
  from assms obtain raw parsed where r: "host_read H (host_config_file H) = FileText raw" "host_json H raw = Some (JObj parsed)"
    and c: "c = apply_env_overlay H (fold (\<lambda>(k, v). put k v) parsed config_defaults)"
    by (auto simp: load_config_def split: file_read.splits option.splits js.splits)
  have "conf c k = (case overlay_value H k of
       Some v \<Rightarrow> v
     | None \<Rightarrow> (case map_of (rev parsed) k of Some v \<Rightarrow> v | None \<Rightarrow> get_prop config_defaults k))" for k
    unfolding c apply_env_overlay_def overlay_fold [OF d]
    by (auto simp: overlay_value_def put_fold split: option.split)
  with r show ?thesis by blast
qed

lemma blank_variable_ignored:
  "js_trim v = [] \<Longrightarrow> env_int v = None \<and> env_bool v = None"
  by (simp add: env_int_def env_bool_def)

definition sample_host :: cfg_host where
  "sample_host = \<lparr>host_env = [''HERMITSTASH_LOG_LEVEL'' \<mapsto> ''debug'', ''HERMITSTASH_AUTO_UPDATE'' \<mapsto> ''''],
     host_exists = (\<lambda>p. p = ''/d''),
     host_read = (\<lambda>p. if p = ''/c'' then FileText ''x'' else FileMissing),
     host_json = (\<lambda>_. Some (JObj [(''server'', JStr ''https://s''), (''bundleId'', JStr ''b''),
       (''syncFolder'', JStr ''/d''), (''autoUpdate'', JBool False)])),
     host_url = (\<lambda>_. Some (''https:'', ''s'')), host_loopback = (\<lambda>_. Some False), host_config_file = ''/c''\<rparr>"

lemma loaded_value_precedence_witness:
  "\<exists>c. load_config sample_host = Inr c \<and> conf c ''logLevel'' = JStr ''debug'' \<and>
     conf c ''autoUpdate'' = JBool False \<and> conf c ''apiKeyRef'' = JStr ''keychain:hermitstash-sync''"
proof -
  obtain c where c: "load_config sample_host = Inr c" by (simp add: load_config_def sample_host_def)
  have doc: "host_json sample_host raw = Some (JObj [(''server'', JStr ''https://s''), (''bundleId'', JStr ''b''),
      (''syncFolder'', JStr ''/d''), (''autoUpdate'', JBool False)])" for raw
    by (simp add: sample_host_def)
  have "overlay_value sample_host ''logLevel'' = Some (JStr ''debug'')"
    "overlay_value sample_host ''autoUpdate'' = None" "overlay_value sample_host ''apiKeyRef'' = None"
    by code_simp+
  with loaded_value_precedence [OF c] doc have "conf c ''logLevel'' = JStr ''debug'' \<and>
      conf c ''autoUpdate'' = JBool False \<and> conf c ''apiKeyRef'' = get_prop config_defaults ''apiKeyRef''"
    by fastforce
  moreover have "get_prop config_defaults ''apiKeyRef'' = JStr ''keychain:hermitstash-sync''" by code_simp
  ultimately show ?thesis using c by simp
qed

section \<open>Patterns\<close>

definition pattern_lines :: "string \<Rightarrow> string set" where
  "pattern_lines raw = {l. l \<noteq> [] \<and> \<not> comment_line l \<and> l \<in> js_trim ` set (split_on (CHR 0x0A) raw)}"

definition file_patterns :: "cfg_host \<Rightarrow> js \<Rightarrow> string \<Rightarrow> string set" where
  "file_patterns H folder name = (case folder of
     JStr f \<Rightarrow> if f = [] then {} else (case host_read H (f @ [slash] @ name) of FileText raw \<Rightarrow> pattern_lines raw | _ \<Rightarrow> {})
   | _ \<Rightarrow> {})"

lemma with_pattern_file_set:
  "with_pattern_file H c name pats = Inr ps \<Longrightarrow> distinct ps \<and>
     set ps = {s. JStr s \<in> set pats} \<union> file_patterns H (conf c ''syncFolder'') name"
  by (auto simp: with_pattern_file_def file_patterns_def Let_def first_of_each_set strings_of_set read_pattern_file_def
      pattern_lines_def split: js.splits if_splits sum.splits file_read.splits)

text \<open>The ignore patterns are the defaults, the configured ones and the lines of the pattern
  file, each once and none dropped. A pattern file that exists but cannot be read is an error, never an
  empty list, so a file meant to be excluded is not uploaded because its rule was unreadable.\<close>

theorem ignore_patterns_complete:
  "case get_ignore_patterns H c of
     Inl (PatternFileUnreadable f) \<Rightarrow> (\<exists>kind. host_read H f = FileRefused kind)
   | Inr ps \<Rightarrow> distinct ps \<and> set ps = set default_ignores \<union> {s. JStr s \<in> set (array_items (conf c ''ignore''))} \<union>
       file_patterns H (conf c ''syncFolder'') ''.hermitstash-ignore'' \<and>
       (\<nexists>f kind. conf c ''syncFolder'' = JStr f \<and> f \<noteq> [] \<and>
          host_read H (f @ [slash] @ ''.hermitstash-ignore'') = FileRefused kind)"
proof (cases "get_ignore_patterns H c")
  case (Inl e)
  then show ?thesis
    by (auto simp: get_ignore_patterns_def with_pattern_file_def read_pattern_file_def Let_def
        split: js.splits if_splits sum.splits file_read.splits pattern_error.split)
next
  case (Inr ps)
  from with_pattern_file_set [OF Inr [unfolded get_ignore_patterns_def]]
  have "distinct ps" "set ps = set default_ignores \<union> {s. JStr s \<in> set (array_items (conf c ''ignore''))} \<union>
      file_patterns H (conf c ''syncFolder'') ''.hermitstash-ignore''"
    by auto
  moreover have "host_read H (f @ [slash] @ ''.hermitstash-ignore'') \<noteq> FileRefused kind"
    if "conf c ''syncFolder'' = JStr f" "f \<noteq> []" for f kind
    using Inr that by (auto simp: get_ignore_patterns_def with_pattern_file_def read_pattern_file_def Let_def
        split: sum.splits file_read.splits)
  then have "\<nexists>f kind. conf c ''syncFolder'' = JStr f \<and> f \<noteq> [] \<and>
      host_read H (f @ [slash] @ ''.hermitstash-ignore'') = FileRefused kind" by blast
  ultimately show ?thesis using Inr by (simp only: sum.case) blast
qed

text \<open>The warning names exactly the patterns that are classified as matching nothing.\<close>

lemma warned_iff: "p \<in> fst ` set (warn_unsupported_patterns T ps) \<longleftrightarrow> p \<in> set ps \<and> classify_pattern T p = Unsupported"
  by (force simp: warn_unsupported_patterns_def)

end
