(* ===== verification/Server_Trust.thy ===== *)
theory Server_Trust
  imports Config_Safety
begin

text \<open>
  How the client decides that it talks to its server (\<open>lib/http-client.js\<close>, and the TLS options of
  \<open>lib/ws-client.js\<close>): the post-quantum floor, the identity check with pins and tunnel mode, the trust
  roots, the pinned address, and the limits of a transfer. Node's own checks, the digest of a public
  key and the resolver are parameters.
\<close>

section \<open>The post-quantum floor\<close>

text \<open>\<open>getEphemeralKeyInfo()\<close>: absent on a socket without TLS, throwing on a closed one, else its fields.\<close>

datatype key_info = NoKeyInfo | KeyInfoThrows | KeyInfo "string option" "string option"

definition allow_classical_tls :: "cfg_host \<Rightarrow> bool" where
  "allow_classical_tls H \<longleftrightarrow> host_env H ''HERMITSTASH_ALLOW_CLASSICAL_TLS'' \<in> {Some ''1'', Some ''true'', Some ''yes''}"

definition names_mlkem :: "string option \<Rightarrow> bool" where
  "names_mlkem g = (case g of None \<Rightarrow> False | Some n \<Rightarrow> sublist ''mlkem'' (ascii_lower n))"

text \<open>\<open>assertNegotiatedGroupPqc\<close>: whether it destroyed the socket. An empty name is no name.\<close>

definition assert_group_pqc :: "cfg_host \<Rightarrow> bool \<Rightarrow> key_info \<Rightarrow> bool" where
  "assert_group_pqc H enforce info = (case info of
     NoKeyInfo \<Rightarrow> False
   | KeyInfoThrows \<Rightarrow> False
   | KeyInfo kind grp \<Rightarrow>
       if kind = Some ''TLSGroup'' \<or> names_mlkem grp then False
       else if grp = None \<or> grp = Some [] then enforce \<and> \<not> allow_classical_tls H
       else enforce \<and> \<not> allow_classical_tls H)"

section \<open>The identity check\<close>

text \<open>Node's own name check (\<open>None\<close> for success) and \<open>spkiPin\<close>.\<close>

record 'cert tls_lib =
  default_identity :: "string \<Rightarrow> 'cert \<Rightarrow> string option"
  spki_pin :: "'cert \<Rightarrow> string option"

datatype identity_error =
    NameMismatch string | TunnelWithoutPin | SpkiUnreadable | PinMismatch string

definition pins_of :: "js \<Rightarrow> js list" where
  "pins_of v = array_items v"

text \<open>\<open>_buildCheckServerIdentity\<close>: \<open>None\<close> leaves Node's check in place.\<close>

definition build_check_identity ::
    "'cert tls_lib \<Rightarrow> js \<Rightarrow> bool \<Rightarrow> (string \<Rightarrow> 'cert \<Rightarrow> identity_error option) option" where
  "build_check_identity L pin_list relax = (let pins = pins_of pin_list in
     if pins = [] \<and> \<not> relax then None
     else Some (\<lambda>hostname cert.
       case (if relax then (if pins = [] then Some TunnelWithoutPin else None)
             else (case default_identity L hostname cert of Some e \<Rightarrow> Some (NameMismatch e) | None \<Rightarrow> None)) of
         Some e \<Rightarrow> Some e
       | None \<Rightarrow>
           if pins = [] then None
           else (case spki_pin L cert of
             None \<Rightarrow> Some SpkiUnreadable
           | Some observed \<Rightarrow>
               if observed = [] then Some SpkiUnreadable
               else if JStr observed \<notin> set pins then Some (PinMismatch observed) else None)))"

definition identity_verdict :: "'cert tls_lib \<Rightarrow> config \<Rightarrow> string \<Rightarrow> 'cert \<Rightarrow> identity_error option" where
  "identity_verdict L c hostname cert =
     (case build_check_identity L (conf c ''pinnedServerSpki'') (js_truthy (conf c ''tunnelMode'')) of
        Some f \<Rightarrow> f hostname cert
      | None \<Rightarrow> (case default_identity L hostname cert of Some e \<Rightarrow> Some (NameMismatch e) | None \<Rightarrow> None))"

text \<open>A socket of the agent that is handed to a request: the handshake passed the identity check, and the
  floor did not destroy it.\<close>

definition socket_usable :: "cfg_host \<Rightarrow> 'cert tls_lib \<Rightarrow> config \<Rightarrow> string \<Rightarrow> 'cert \<Rightarrow> key_info \<Rightarrow> bool" where
  "socket_usable H L c hostname cert info \<longleftrightarrow>
     identity_verdict L c hostname cert = None \<and> \<not> assert_group_pqc H True info"

section \<open>The WebSocket's TLS options\<close>

datatype 'cert tls_opt =
    OptText string | OptGiven js | OptCheck "string \<Rightarrow> 'cert \<Rightarrow> identity_error option"

fun put_opt :: "string \<Rightarrow> 'cert tls_opt \<Rightarrow> (string \<times> 'cert tls_opt) list \<Rightarrow> (string \<times> 'cert tls_opt) list" where
  "put_opt k v [] = [(k, v)]"
| "put_opt k v ((k', v') # os) = (if k = k' then (k, v) # os else (k', v') # put_opt k v os)"

definition allow_insecure_tls :: "cfg_host \<Rightarrow> bool" where
  "allow_insecure_tls H = (case host_env H ''HERMITSTASH_ALLOW_INSECURE_TLS'' of
     None \<Rightarrow> False | Some v \<Rightarrow> ascii_lower (js_trim v) \<in> {''1'', ''true'', ''yes'', ''on''})"

definition config_tls_overrides :: "cfg_host \<Rightarrow> js \<Rightarrow> (string \<times> js) list" where
  "config_tls_overrides H raw = (case raw of
     JObj kvs \<Rightarrow> if kvs = [] then [] else if allow_insecure_tls H then kvs else []
   | _ \<Rightarrow> [])"

definition tls_groups :: string where
  "tls_groups = ''SecP384r1MLKEM1024:X25519MLKEM768:SecP256r1MLKEM768:X25519''"

definition ws_tls_options ::
    "cfg_host \<Rightarrow> 'cert tls_lib \<Rightarrow> config \<Rightarrow> (string \<times> 'cert tls_opt) list \<Rightarrow> (string \<times> 'cert tls_opt) list" where
  "ws_tls_options H L c material =
     fold (\<lambda>(k, v). put_opt k (OptGiven v)) (config_tls_overrides H (conf c ''tls''))
       ([(''ecdhCurve'', OptText tls_groups), (''minVersion'', OptText ''TLSv1.3'')] @ material @
        (case build_check_identity L (conf c ''pinnedServerSpki'') (js_truthy (conf c ''tunnelMode'')) of
           None \<Rightarrow> [] | Some f \<Rightarrow> [(''checkServerIdentity'', OptCheck f)]))"

section \<open>Roots, address and limits\<close>

definition build_ca_bundle :: "string list \<Rightarrow> file_read option \<Rightarrow> string option \<Rightarrow> string list" where
  "build_ca_bundle roots extra mtls_ca =
     roots @ (case extra of Some (FileText pem) \<Rightarrow> [pem] | _ \<Rightarrow> []) @ (case mtls_ca of None \<Rightarrow> [] | Some pem \<Rightarrow> [pem])"

text \<open>\<open>_pinnedServerLookup\<close>: the guard resolves with addresses, or throws with a code.\<close>

datatype guard_reply = GuardAddresses "string list" | GuardThrows "string option"

definition pinned_server_lookup :: "guard_reply \<Rightarrow> string + string list option" where
  "pinned_server_lookup r = (case r of
     GuardAddresses ips \<Rightarrow> Inr (if ips = [] then None else Some ips)
   | GuardThrows None \<Rightarrow> Inr None
   | GuardThrows (Some code) \<Rightarrow> if starts_with code ''ssrf-guard/'' then Inl code else Inr None)"

text \<open>\<open>_coerceRate\<close> and the per-file ceiling on a setting that is an integer or absent.\<close>

definition coerce_rate :: "js \<Rightarrow> int" where
  "coerce_rate v = (case v of JInt n \<Rightarrow> if n > 0 then n else 0 | _ \<Rightarrow> 0)"

definition max_file_bytes :: "int \<Rightarrow> js \<Rightarrow> int" where
  "max_file_bytes process_max v = (case v of JInt n \<Rightarrow> if n > 0 then min n process_max else process_max | _ \<Rightarrow> process_max)"

definition throttled_idle_timeout :: "int \<Rightarrow> int" where
  "throttled_idle_timeout rate = (let base = 30 * 1000 in
     if rate \<le> 0 then base else max base ((65536 * 1000 + rate - 1) div rate + base))"

section \<open>Lemmas\<close>

lemma build_check_accepts:
  assumes "build_check_identity L pin_list relax = Some f" and "f hostname cert = None"
  shows "(if relax then pins_of pin_list \<noteq> [] else default_identity L hostname cert = None) \<and>
    (pins_of pin_list \<noteq> [] \<longrightarrow> (\<exists>p. spki_pin L cert = Some p \<and> JStr p \<in> set (pins_of pin_list)))"
  using assms by (auto simp: build_check_identity_def Let_def split: if_splits option.splits)

lemma identity_accepted:
  assumes "identity_verdict L c hostname cert = None"
  shows "(default_identity L hostname cert = None \<or>
      js_truthy (conf c ''tunnelMode'') \<and> pins_of (conf c ''pinnedServerSpki'') \<noteq> []) \<and>
    (pins_of (conf c ''pinnedServerSpki'') \<noteq> [] \<longrightarrow>
      (\<exists>p. spki_pin L cert = Some p \<and> JStr p \<in> set (pins_of (conf c ''pinnedServerSpki''))))"
proof (cases "build_check_identity L (conf c ''pinnedServerSpki'') (js_truthy (conf c ''tunnelMode''))")
  case None
  with assms show ?thesis
    by (auto simp: identity_verdict_def build_check_identity_def Let_def split: option.splits if_splits)
next
  case (Some f)
  with assms have "f hostname cert = None" by (simp add: identity_verdict_def)
  from build_check_accepts [OF Some this] show ?thesis by (auto split: if_splits)
qed

text \<open>Property C9: a socket carries a request only when the server's certificate names the configured host,
  or tunnel mode replaced that check by a pin; when pins are configured its key is one of them; and a
  reported key exchange is post-quantum unless the operator allows a classical one. Tunnel mode without
  a pin accepts no server at all, whether or not the configuration was validated.\<close>

theorem server_identity_bound:
  assumes "socket_usable H L c hostname cert info"
  shows "(default_identity L hostname cert = None \<or>
      js_truthy (conf c ''tunnelMode'') \<and> pins_of (conf c ''pinnedServerSpki'') \<noteq> []) \<and>
    (pins_of (conf c ''pinnedServerSpki'') \<noteq> [] \<longrightarrow>
      (\<exists>p. spki_pin L cert = Some p \<and> JStr p \<in> set (pins_of (conf c ''pinnedServerSpki'')))) \<and>
    (\<forall>kind grp. info = KeyInfo kind grp \<longrightarrow>
      kind = Some ''TLSGroup'' \<or> names_mlkem grp \<or> allow_classical_tls H)"
  using identity_accepted [of L c hostname cert] assms
  by (auto simp: socket_usable_def assert_group_pqc_def split: key_info.splits if_splits)

definition pinned_config :: config where
  "pinned_config = \<lparr>props = [(''tunnelMode'', JBool True), (''pinnedServerSpki'', JArr [JStr ''sha256/k''])],
     env_sources = []\<rparr>"

lemma server_identity_bound_witness:
  "let L = \<lparr>default_identity = (\<lambda>h (c :: nat). Some ''name''), spki_pin = (\<lambda>c. Some ''sha256/k'')\<rparr> in
   socket_usable sample_host L pinned_config ''t.ts.net'' 0 (KeyInfo (Some ''TLSGroup'') None) \<and>
   JStr ''sha256/k'' \<in> set (pins_of (conf pinned_config ''pinnedServerSpki''))"
proof -
  let ?L = "\<lparr>default_identity = (\<lambda>h (c :: nat). Some ''name''), spki_pin = (\<lambda>c. Some ''sha256/k'')\<rparr>"
  have u: "socket_usable sample_host ?L pinned_config ''t.ts.net'' 0 (KeyInfo (Some ''TLSGroup'') None)"
    by code_simp
  have "pins_of (conf pinned_config ''pinnedServerSpki'') \<noteq> []" by code_simp
  with server_identity_bound [OF u] have "JStr ''sha256/k'' \<in> set (pins_of (conf pinned_config ''pinnedServerSpki''))"
    by auto
  with u show ?thesis by (simp only: Let_def)
qed

text \<open>The WebSocket dials with the same identity check, whatever TLS options the configuration carries.\<close>

lemma ws_options_fixed:
  "\<not> allow_insecure_tls H \<Longrightarrow> ws_tls_options H L c material =
     [(''ecdhCurve'', OptText tls_groups), (''minVersion'', OptText ''TLSv1.3'')] @ material @
     (case build_check_identity L (conf c ''pinnedServerSpki'') (js_truthy (conf c ''tunnelMode'')) of
        None \<Rightarrow> [] | Some f \<Rightarrow> [(''checkServerIdentity'', OptCheck f)])"
  by (auto simp: ws_tls_options_def config_tls_overrides_def split: js.split)

text \<open>A validated configuration reaches a server without the name check only in tunnel mode with a pin
  that is well-formed.\<close>

lemma validated_tunnel_pinned:
  assumes "validate_config H c = []" and "js_truthy (conf c ''tunnelMode'')"
  shows "\<exists>p ps. pins_of (conf c ''pinnedServerSpki'') = p # ps \<and> (\<forall>q \<in> set (p # ps). pin_shape q)"
proof -
  from assms have t: "config_typed H c" by (simp add: validated_config_typed_iff)
  then have mode: "conf c ''tunnelMode'' = JUndef \<or> is_boolean (conf c ''tunnelMode'')"
    and pins: "conf c ''pinnedServerSpki'' = JUndef \<or> list_of pin_shape (conf c ''pinnedServerSpki'')"
    and some: "conf c ''tunnelMode'' = JBool True \<longrightarrow> (\<exists>p ps. conf c ''pinnedServerSpki'' = JArr (p # ps))"
    unfolding config_typed_def by blast+
  from mode assms(2) have "conf c ''tunnelMode'' = JBool True"
    by (auto simp: is_boolean_def split: js.splits)
  with some obtain p ps where "conf c ''pinnedServerSpki'' = JArr (p # ps)" by blast
  with pins show ?thesis by (simp add: list_of_def pins_of_def)
qed

text \<open>A throttled transfer that makes progress is never cut off: one chunk at the configured rate waits
  less than the window.\<close>

lemma throttle_window:
  assumes "rate > 0"
  shows "65536 * 1000 \<le> (throttled_idle_timeout rate - 30 * 1000) * rate"
proof -
  have "65536 * 1000 \<le> ((65536 * 1000 + rate - 1) div rate) * rate"
    using assms by (smt (verit, ccfv_SIG) minus_mod_eq_div_mult pos_mod_bound)
  then show ?thesis
    using assms by (auto simp: throttled_idle_timeout_def Let_def max_def pos_imp_zdiv_nonneg_iff)
qed

lemma max_file_bytes_le: "max_file_bytes m v \<le> m"
  by (auto simp: max_file_bytes_def split: js.split)

end
