(* ===== verification/Updater.thy ===== *)
theory Updater
  imports HS_Prelude
begin

text \<open>
  The self-updater (\<open>lib/updater.js\<close>): one check from the poll to the hand-off, the installation with
  its probation marker, and the decision at the next boot. A file is its bytes. The release poll, the
  signature verifier, the digest and \<open>spawn\<close> are parameters; \<open>swap\<close> is the framework's, as its source
  documents it. Every file operation can fail.
\<close>

type_synonym image = string
type_synonym files = "path \<Rightarrow> image option"

record marker =
  mk_version :: string
  mk_prev :: path                    \<comment> \<open>\<open>prevBinaryPath\<close>; empty when absent\<close>
  mk_installed :: "int option"       \<comment> \<open>\<open>Number(installedAt)\<close> when finite\<close>
  mk_graceful :: bool                \<comment> \<open>\<open>gracefulAt\<close> is set\<close>
  mk_hash :: string                  \<comment> \<open>\<open>expectedHash\<close>; empty when absent\<close>

record updater =
  u_files :: files
  u_marker :: "marker option"        \<comment> \<open>what \<open>readMarker\<close> returns\<close>
  u_spawned :: "image option list"   \<comment> \<open>what was at the executable's path at each spawn\<close>
  u_timer :: bool

record upd_host =
  digest :: "image \<Rightarrow> string"
  verify_sig :: "image \<Rightarrow> image \<Rightarrow> string option"
  windows :: bool
  exec_path :: path
  this_version :: string
  probation_ms :: int
  now_ms :: int

section \<open>Paths and marker\<close>

text \<open>\<open>extname\<close>: from the last dot of the last segment, unless that is its first character.\<close>

definition ext_name :: "path \<Rightarrow> string" where
  "ext_name p = (let b = basename p; r = takeWhile (\<lambda>c. c \<noteq> CHR ''.'') (rev b) in
     if length r = length b \<or> length r + 1 = length b \<or> b = ''..'' then [] else CHR ''.'' # rev r)"

definition suffixed_path :: "string \<Rightarrow> path \<Rightarrow> path" where
  "suffixed_path tag p = take (length p - length (ext_name p)) p @ tag @ ext_name p"

definition prev_path_for :: "path \<Rightarrow> path" where
  "prev_path_for p = suffixed_path ''.prev'' p"

definition old_path_for :: "path \<Rightarrow> path" where
  "old_path_for p = suffixed_path ''.old'' p"

definition backup_path :: "upd_host \<Rightarrow> path" where
  "backup_path H = (if windows H then old_path_for (exec_path H) else prev_path_for (exec_path H))"

definition write_marker :: "upd_host \<Rightarrow> string \<Rightarrow> path \<Rightarrow> string \<Rightarrow> updater \<Rightarrow> updater" where
  "write_marker H version prev hash u = u\<lparr>u_marker := Some \<lparr>mk_version = version, mk_prev = prev,
     mk_installed = Some (now_ms H), mk_graceful = False, mk_hash = hash\<rparr>\<rparr>"

definition delete_marker :: "updater \<Rightarrow> updater" where
  "delete_marker u = u\<lparr>u_marker := None\<rparr>"

definition unlink_path :: "path \<Rightarrow> updater \<Rightarrow> updater" where
  "unlink_path p u = u\<lparr>u_files := (u_files u)(p := None)\<rparr>"

definition mark_graceful_shutdown :: "upd_host \<Rightarrow> bool \<Rightarrow> updater \<Rightarrow> updater" where
  "mark_graceful_shutdown H write_fails u = (case u_marker u of
     None \<Rightarrow> u
   | Some m \<Rightarrow> if mk_version m \<noteq> this_version H \<or> mk_graceful m \<or> write_fails then u
               else u\<lparr>u_marker := Some (m\<lparr>mk_graceful := True\<rparr>)\<rparr>)"

section \<open>The check\<close>

text \<open>What an attempt at a download gives: the bytes, or an error with a status or a transience flag.\<close>

datatype fetch = Fetched image | FetchStatus int | FetchFailed bool | ResolveFailed

definition fetch_retryable :: "fetch \<Rightarrow> bool" where
  "fetch_retryable f = (case f of FetchStatus n \<Rightarrow> n = 403 \<or> n = 410 | FetchFailed t \<Rightarrow> t | _ \<Rightarrow> False)"

text \<open>\<open>downloadTo\<close>: at most three attempts, and another one only after a retryable failure.\<close>

fun download_attempts :: "nat \<Rightarrow> fetch list \<Rightarrow> image option" where
  "download_attempts 0 fs = None"
| "download_attempts (Suc n) [] = None"
| "download_attempts (Suc n) (f # fs) = (case f of Fetched i \<Rightarrow> Some i
     | _ \<Rightarrow> if fetch_retryable f then download_attempts n fs else None)"

definition download_to :: "fetch list \<Rightarrow> image option" where
  "download_to fs = download_attempts 3 fs"

datatype poll = PollFails | PollNothing | PollAvailable string "string option" "string option"

record check_env =
  ce_pubkey :: bool
  ce_sea :: bool
  ce_poll :: poll
  ce_tmp :: bool                     \<comment> \<open>\<open>mkdtemp\<close> succeeds\<close>
  ce_asset :: "fetch list"
  ce_sig :: "fetch list"

datatype check_status = Disabled | CheckError | UpToDate | SourceNotify | Ready

definition strip_v :: "string \<Rightarrow> string" where
  "strip_v t = (case t of [] \<Rightarrow> [] | c # cs \<Rightarrow> if c = CHR ''v'' then cs else t)"

text \<open>\<open>checkOnce\<close>: the status, and the installation it hands off: version, bytes, verified digest.\<close>

definition check_once :: "upd_host \<Rightarrow> check_env \<Rightarrow> check_status \<times> (string \<times> image \<times> string) option" where
  "check_once H E =
     (if \<not> ce_pubkey E then (Disabled, None)
      else case ce_poll E of
        PollFails \<Rightarrow> (CheckError, None)
      | PollNothing \<Rightarrow> (UpToDate, None)
      | PollAvailable tag asset sig \<Rightarrow>
          if \<not> ce_sea E then (SourceNotify, None)
          else (case (asset, sig) of
            (Some a, Some s) \<Rightarrow>
              if s \<noteq> a @ ''.sig'' then (CheckError, None)
              else if \<not> ce_tmp E then (CheckError, None)
              else (case download_to (ce_asset E) of
                None \<Rightarrow> (CheckError, None)
              | Some img \<Rightarrow> (case download_to (ce_sig E) of
                  None \<Rightarrow> (CheckError, None)
                | Some sigbytes \<Rightarrow> (case verify_sig H img sigbytes of
                    None \<Rightarrow> (CheckError, None)
                  | Some hash \<Rightarrow> (Ready, Some (strip_v tag, img, hash)))))
          | _ \<Rightarrow> (CheckError, None)))"

section \<open>Installation\<close>

datatype swap_fault = SwapFine | SwapReadFails | SwapBackupFails | SwapWriteFails | SwapRollbackFails

text \<open>\<open>b.selfUpdate.swap\<close>: refuse unless the digest matches, move the target aside, write the bytes; put
  the target back when the write fails.\<close>

definition swap :: "upd_host \<Rightarrow> swap_fault \<Rightarrow> image option \<Rightarrow> path \<Rightarrow> path \<Rightarrow> string \<Rightarrow> files \<Rightarrow> bool \<times> files" where
  "swap H fault from target backup expected fs = (case from of
     None \<Rightarrow> (False, fs)
   | Some img \<Rightarrow>
       if fault = SwapReadFails \<or> digest H img \<noteq> expected then (False, fs)
       else (let moved = (case fs target of None \<Rightarrow> fs | Some old \<Rightarrow> fs(target := None, backup := Some old)) in
         case fault of
           SwapBackupFails \<Rightarrow> if fs target = None then (True, fs(target := Some img)) else (False, fs)
         | SwapWriteFails \<Rightarrow> (False, case fs target of None \<Rightarrow> fs | Some old \<Rightarrow> fs(backup := None))
         | SwapRollbackFails \<Rightarrow> (False, moved)
         | _ \<Rightarrow> (True, moved(target := Some img))))"

record install_env =
  ie_marker_fails :: bool
  ie_asset :: "image option"         \<comment> \<open>the asset file when \<open>swap\<close> reads it\<close>
  ie_swap :: swap_fault
  ie_spawn_fails :: bool

definition perform_install :: "upd_host \<Rightarrow> install_env \<Rightarrow> string \<Rightarrow> string \<Rightarrow> updater \<Rightarrow> bool \<times> updater" where
  "perform_install H E version expected u =
     (if ie_marker_fails E then (False, u)
      else let u = unlink_path (backup_path H) (write_marker H version (backup_path H) expected u);
               (ok, fs) = swap H (ie_swap E) (ie_asset E) (exec_path H) (backup_path H) expected (u_files u);
               u = u\<lparr>u_files := fs\<rparr>
           in if \<not> ok then (False, u)
              else (True, if ie_spawn_fails E then delete_marker u
                else u\<lparr>u_spawned := u_spawned u @ [u_files u (exec_path H)]\<rparr>))"

section \<open>The next boot\<close>

datatype rollback_result =
    NoMarker | StaleCleared | Probation | ProbationComplete | RolledBack | RollbackFailed

text \<open>The failures of \<open>_windowsRollback\<close>, in its order; each of its clean-ups is best-effort.\<close>

record rollback_env =
  re_hash_fails :: bool
  re_read_fails :: bool              \<comment> \<open>POSIX: the backup cannot be read (a symlink, too large)\<close>
  re_write_fails :: bool             \<comment> \<open>POSIX: the atomic write fails\<close>
  re_away_fails :: bool              \<comment> \<open>Windows: renaming the running image away\<close>
  re_back_fails :: bool              \<comment> \<open>Windows: renaming the backup into place\<close>
  re_cross_device :: bool            \<comment> \<open>... with \<open>EXDEV\<close>\<close>
  re_copy_fails :: bool
  re_undo_fails :: bool              \<comment> \<open>putting the running image back fails\<close>
  re_respawn_fails :: bool

definition failed_path :: "upd_host \<Rightarrow> path" where
  "failed_path H = exec_path H @ ''.new-failed''"

definition windows_rollback :: "upd_host \<Rightarrow> rollback_env \<Rightarrow> path \<Rightarrow> files \<Rightarrow> bool \<times> files" where
  "windows_rollback H E backup fs =
     (let cur = exec_path H; failed = failed_path H; fs = fs(failed := None) in
      if re_away_fails E \<or> fs cur = None then (False, fs)
      else (let fs1 = fs(cur := None, failed := fs cur);
                undo = (if re_undo_fails E then fs1 else fs1(failed := None, cur := fs1 failed)) in
        if \<not> re_back_fails E then (True, fs1(backup := None, cur := fs1 backup))
        else if re_cross_device E
        then (if re_copy_fails E then (False, undo) else (True, fs1(cur := fs1 backup, backup := None)))
        else (False, undo)))"

definition posix_rollback :: "upd_host \<Rightarrow> rollback_env \<Rightarrow> path \<Rightarrow> files \<Rightarrow> bool \<times> files" where
  "posix_rollback H E backup fs =
     (if re_read_fails E \<or> re_write_fails E then (False, fs)
      else (True, fs(exec_path H := fs backup, backup := None)))"

definition prune_backup :: "marker \<Rightarrow> updater \<Rightarrow> updater" where
  "prune_backup m u = (if mk_prev m = [] then u else unlink_path (mk_prev m) u)"

text \<open>The binary at the executable's path was replaced by something else.\<close>

definition replaced_since :: "upd_host \<Rightarrow> rollback_env \<Rightarrow> marker \<Rightarrow> updater \<Rightarrow> bool" where
  "replaced_since H E m u \<longleftrightarrow> mk_hash m \<noteq> [] \<and> \<not> re_hash_fails E \<and>
     (case u_files u (exec_path H) of None \<Rightarrow> False | Some i \<Rightarrow> digest H i \<noteq> [] \<and> digest H i \<noteq> mk_hash m)"

definition restore_backup :: "upd_host \<Rightarrow> rollback_env \<Rightarrow> marker \<Rightarrow> updater \<Rightarrow> rollback_result \<times> updater" where
  "restore_backup H E m u =
     (if mk_prev m = [] \<or> u_files u (mk_prev m) = None then (RollbackFailed, delete_marker u)
      else let (ok, fs) = (if windows H then windows_rollback else posix_rollback) H E (mk_prev m) (u_files u);
               u = delete_marker (u\<lparr>u_files := fs\<rparr>)
           in if \<not> ok then (RollbackFailed, u)
              else (RolledBack, if re_respawn_fails E then u
                else u\<lparr>u_spawned := u_spawned u @ [u_files u (exec_path H)]\<rparr>))"

definition check_rollback :: "upd_host \<Rightarrow> rollback_env \<Rightarrow> updater \<Rightarrow> rollback_result \<times> updater" where
  "check_rollback H E u = (case u_marker u of
     None \<Rightarrow> (NoMarker, u)
   | Some m \<Rightarrow>
       if mk_version m \<noteq> this_version H then (StaleCleared, delete_marker u)
       else (case mk_installed m of
         None \<Rightarrow> (StaleCleared, delete_marker u)
       | Some t \<Rightarrow>
           if t \<le> 0 then (StaleCleared, delete_marker u)
           else if now_ms H - t < probation_ms H then (Probation, u\<lparr>u_timer := True\<rparr>)
           else if mk_graceful m then (ProbationComplete, delete_marker (prune_backup m u))
           else if replaced_since H E m u then (ProbationComplete, delete_marker (prune_backup m u))
           else restore_backup H E m u))"

text \<open>The probation timer.\<close>

definition probation_timer :: "upd_host \<Rightarrow> updater \<Rightarrow> updater" where
  "probation_timer H u = (let u = u\<lparr>u_timer := False\<rparr> in case u_marker u of
     None \<Rightarrow> u
   | Some m \<Rightarrow> delete_marker (if mk_version m = this_version H then prune_backup m u else u))"

section \<open>Lemmas\<close>

lemma swap_done:
  "swap H fault from target backup expected fs = (True, fs') \<Longrightarrow> target \<noteq> backup \<Longrightarrow>
     \<exists>img. from = Some img \<and> digest H img = expected \<and> fs' target = Some img \<and>
       (case fs target of None \<Rightarrow> True | Some old \<Rightarrow> fs' backup = Some old)"
  by (auto simp: swap_def Let_def split: option.splits if_splits swap_fault.splits)

lemma swap_failed:
  "swap H fault from target backup expected fs = (False, fs') \<Longrightarrow> target \<noteq> backup \<Longrightarrow>
     fs' target = fs target \<or> fault = SwapRollbackFails \<and> fs' target = None \<and> fs' backup = fs target"
  by (auto simp: swap_def Let_def split: option.splits if_splits swap_fault.splits)

lemma suffixed_path_neq: "tag \<noteq> [] \<Longrightarrow> suffixed_path tag p \<noteq> p"
proof -
  assume "tag \<noteq> []"
  have "length (ext_name p) \<le> length p"
  proof -
    have "length (basename p) \<le> length p"
      by (simp add: basename_def strip_slashes_def)
        (metis length_rev length_takeWhile_le length_dropWhile_le order.trans)
    moreover have "length (takeWhile (\<lambda>c. c \<noteq> CHR ''.'') (rev (basename p))) \<le> length (basename p)"
      by (metis length_rev length_takeWhile_le)
    ultimately show ?thesis by (auto simp: ext_name_def Let_def)
  qed
  with \<open>tag \<noteq> []\<close> have "length (suffixed_path tag p) > length p"
    by (simp add: suffixed_path_def)
  then show ?thesis by auto
qed

lemma backup_path_neq [simp]: "backup_path H \<noteq> exec_path H" "exec_path H \<noteq> backup_path H"
  using suffixed_path_neq [of "''.prev''"] suffixed_path_neq [of "''.old''"]
  by (auto simp: backup_path_def prev_path_for_def old_path_for_def dest: sym)

end
