(* ===== verification/Updater_Safety.thy ===== *)
theory Updater_Safety
  imports Updater
begin

text \<open>
  What the updater guarantees: only verified bytes are installed, the running binary is not lost, a
  downgrade needs evidence of a crash, and an update that never stops cleanly is undone.
\<close>

section \<open>Installation\<close>

lemma download_attempts_source: "download_attempts n fs = Some i \<Longrightarrow> Fetched i \<in> set fs"
  by (induction n fs rule: download_attempts.induct) (auto split: fetch.splits if_splits)

lemma download_attempts_bound: "download_attempts n fs = download_attempts n (take n fs)"
  by (induction n fs rule: download_attempts.induct) (auto split: fetch.split)

lemma check_once_verified:
  "check_once H C = (st, Some (v, img, hash)) \<Longrightarrow>
     (\<exists>s. verify_sig H img s = Some hash \<and> Fetched s \<in> set (take 3 (ce_sig C))) \<and>
     Fetched img \<in> set (take 3 (ce_asset C)) \<and> ce_pubkey C \<and> ce_sea C"
  using download_attempts_bound [of 3 "ce_sig C"] download_attempts_bound [of 3 "ce_asset C"]
  by (fastforce simp: check_once_def download_to_def split: if_splits poll.splits option.splits
      dest: download_attempts_source)

lemma perform_install_files:
  assumes "perform_install H E v hash u = (ok, u')"
  shows "if ok then \<exists>i. ie_asset E = Some i \<and> u_files u' (exec_path H) = Some i \<and> digest H i = hash \<and>
      (case u_files u (exec_path H) of None \<Rightarrow> True | Some old \<Rightarrow> u_files u' (backup_path H) = Some old)
    else u_files u' (exec_path H) = u_files u (exec_path H) \<or>
      u_files u' (exec_path H) = None \<and> u_files u' (backup_path H) = u_files u (exec_path H)"
proof (cases "ie_marker_fails E")
  case True
  with assms show ?thesis by (simp add: perform_install_def)
next
  case False
  let ?fs = "(u_files u)(backup_path H := None)"
  obtain r fs where s: "swap H (ie_swap E) (ie_asset E) (exec_path H) (backup_path H) hash ?fs = (r, fs)"
    by fastforce
  with assms False have r: "ok = r" "u_files u' = fs"
    by (auto simp: perform_install_def unlink_path_def write_marker_def delete_marker_def Let_def split: if_splits)
  show ?thesis
  proof (cases r)
    case True
    with s have "swap H (ie_swap E) (ie_asset E) (exec_path H) (backup_path H) hash ?fs = (True, fs)" by simp
    from swap_done [OF this] r True show ?thesis by (auto split: option.split)
  next
    case False
    with s have "swap H (ie_swap E) (ie_asset E) (exec_path H) (backup_path H) hash ?fs = (False, fs)" by simp
    from swap_failed [OF this] r False show ?thesis by auto
  qed
qed


definition sample_upd :: upd_host where
  "sample_upd = \<lparr>digest = (\<lambda>i. ''h'' @ i), verify_sig = (\<lambda>i s. if s = ''ok'' then Some (''h'' @ i) else None),
     windows = False, exec_path = ''/b/hs'', this_version = ''1'', probation_ms = 100, now_ms = 1000\<rparr>"

definition sample_check :: check_env where
  "sample_check = \<lparr>ce_pubkey = True, ce_sea = True, ce_poll = PollAvailable ''v2'' (Some ''a'') (Some ''a.sig''),
     ce_tmp = True, ce_asset = [FetchStatus 403, Fetched ''new''], ce_sig = [Fetched ''ok'']\<rparr>"

definition sample_install :: install_env where
  "sample_install = \<lparr>ie_marker_fails = False, ie_asset = Some ''new'', ie_swap = SwapFine, ie_spawn_fails = False\<rparr>"

definition sample_updater :: updater where
  "sample_updater = \<lparr>u_files = [''/b/hs'' \<mapsto> ''old''], u_marker = None, u_spawned = [], u_timer = False\<rparr>"


section \<open>The decision at boot\<close>

definition crash_evidence :: "upd_host \<Rightarrow> rollback_env \<Rightarrow> updater \<Rightarrow> bool" where
  "crash_evidence H E u = (case u_marker u of None \<Rightarrow> False | Some m \<Rightarrow>
     mk_version m = this_version H \<and> \<not> mk_graceful m \<and> \<not> replaced_since H E m u \<and>
     (case mk_installed m of None \<Rightarrow> False | Some t \<Rightarrow> t > 0 \<and> now_ms H - t \<ge> probation_ms H))"

lemma failed_path_neq: "failed_path H \<noteq> exec_path H"
  by (simp add: failed_path_def)

lemma windows_rollback_files:
  assumes "windows_rollback H E backup fs = (ok, fs')" and "backup \<noteq> exec_path H" "backup \<noteq> failed_path H"
  shows "if ok then fs' (exec_path H) = fs backup else re_undo_fails E \<or> fs' (exec_path H) = fs (exec_path H)"
  using assms failed_path_neq [of H]
  by (auto simp: windows_rollback_def Let_def split: if_splits)

lemma restore_backup_files:
  assumes "restore_backup H E m u = (r, u')" and "mk_prev m \<noteq> exec_path H" "mk_prev m \<noteq> failed_path H"
  shows "(r = RolledBack \<and> u_files u (mk_prev m) \<noteq> None \<and> u_files u' (exec_path H) = u_files u (mk_prev m)) \<or>
    (r = RollbackFailed \<and> (windows H \<and> re_undo_fails E \<or> u_files u' (exec_path H) = u_files u (exec_path H)))"
proof (cases "mk_prev m = [] \<or> u_files u (mk_prev m) = None")
  case True
  with assms show ?thesis by (auto simp: restore_backup_def delete_marker_def)
next
  case False
  obtain ok fs where s: "(if windows H then windows_rollback else posix_rollback) H E (mk_prev m) (u_files u) = (ok, fs)"
    by fastforce
  with assms(1) False have r: "r = (if ok then RolledBack else RollbackFailed)" "u_files u' = fs"
    by (auto simp: restore_backup_def delete_marker_def Let_def split: if_splits)
  have "if ok then fs (exec_path H) = u_files u (mk_prev m)
      else windows H \<and> re_undo_fails E \<or> fs (exec_path H) = u_files u (exec_path H)"
  proof (cases "windows H")
    case True
    with s windows_rollback_files [OF _ assms(2,3)] show ?thesis by (auto split: if_splits)
  next
    case False
    with s assms(2) show ?thesis by (auto simp: posix_rollback_def split: if_splits)
  qed
  with r False show ?thesis by (auto split: if_splits)
qed

text \<open>Property C16: the next boot replaces the binary only on evidence of a crash: the marker names the
  running version, its window has passed without a clean stop, and the binary is the one that was
  installed. It is then the backup that is put in place, and when that fails the running binary stays,
  unless Windows also refuses to move it back.\<close>

theorem rollback_needs_crash:
  assumes "check_rollback H E u = (r, u')"
    and "\<And>m. u_marker u = Some m \<Longrightarrow> mk_prev m \<noteq> exec_path H \<and> mk_prev m \<noteq> failed_path H"
  shows "(if crash_evidence H E u
    then (r = RolledBack \<and> (\<exists>m. u_marker u = Some m \<and> u_files u (mk_prev m) \<noteq> None \<and>
            u_files u' (exec_path H) = u_files u (mk_prev m))) \<or>
      (r = RollbackFailed \<and> (windows H \<and> re_undo_fails E \<or> u_files u' (exec_path H) = u_files u (exec_path H)))
    else r \<notin> {RolledBack, RollbackFailed} \<and> u_files u' (exec_path H) = u_files u (exec_path H))"
proof (cases "crash_evidence H E u")
  case True
  then obtain m t where m: "u_marker u = Some m" "mk_version m = this_version H" "\<not> mk_graceful m"
    "\<not> replaced_since H E m u" "mk_installed m = Some t" "t > 0" "now_ms H - t \<ge> probation_ms H"
    by (auto simp: crash_evidence_def split: option.splits)
  then have "restore_backup H E m u = (r, u')" using assms(1) by (simp add: check_rollback_def)
  from restore_backup_files [OF this] assms(2) [OF m(1)] True m(1) show ?thesis by auto
next
  case False
  show ?thesis
  proof (cases "u_marker u")
    case None
    with assms(1) False show ?thesis by (auto simp: check_rollback_def)
  next
    case (Some m)
    with assms(2) have "mk_prev m \<noteq> exec_path H" by simp
    with Some assms(1) False show ?thesis
      by (auto simp: check_rollback_def crash_evidence_def delete_marker_def prune_backup_def unlink_path_def
          split: if_splits option.splits)
  qed
qed

definition calm :: rollback_env where
  "calm = \<lparr>re_hash_fails = False, re_read_fails = False, re_write_fails = False, re_away_fails = False,
     re_back_fails = False, re_cross_device = False, re_copy_fails = False, re_undo_fails = False,
     re_respawn_fails = False\<rparr>"

lemma rollback_needs_crash_witness:
  "let u = sample_updater\<lparr>u_files := [''/b/hs'' \<mapsto> ''new'', ''/b/hs.prev'' \<mapsto> ''old''],
        u_marker := Some \<lparr>mk_version = ''1'', mk_prev = ''/b/hs.prev'', mk_installed = Some 5, mk_graceful = False,
          mk_hash = ''hnew''\<rparr>\<rparr>
   in u_files (snd (check_rollback sample_upd calm u)) ''/b/hs'' = Some ''old''"
proof -
  let ?u = "sample_updater\<lparr>u_files := [''/b/hs'' \<mapsto> ''new'', ''/b/hs.prev'' \<mapsto> ''old''],
        u_marker := Some \<lparr>mk_version = ''1'', mk_prev = ''/b/hs.prev'', mk_installed = Some 5, mk_graceful = False,
          mk_hash = ''hnew''\<rparr>\<rparr>"
  have c: "crash_evidence sample_upd calm ?u" by code_simp
  obtain r u' where run: "check_rollback sample_upd calm ?u = (r, u')" by fastforce
  moreover have "mk_prev m \<noteq> exec_path sample_upd \<and> mk_prev m \<noteq> failed_path sample_upd" if "u_marker ?u = Some m" for m
    using that by (auto simp: failed_path_def sample_upd_def)
  ultimately have "(r = RolledBack \<and> (\<exists>m. u_marker ?u = Some m \<and> u_files ?u (mk_prev m) \<noteq> None \<and>
            u_files u' (exec_path sample_upd) = u_files ?u (mk_prev m))) \<or>
      (r = RollbackFailed \<and> (windows sample_upd \<and> re_undo_fails calm \<or>
         u_files u' (exec_path sample_upd) = u_files ?u (exec_path sample_upd)))"
    using rollback_needs_crash [of sample_upd calm ?u r u'] c by simp
  moreover have "fst (check_rollback sample_upd calm ?u) = RolledBack" by code_simp
  ultimately show ?thesis using run by (auto simp: Let_def sample_upd_def)
qed

section \<open>The life of an update\<close>

lemma perform_install_done:
  assumes "\<not> ie_marker_fails E" and "ie_asset E = Some new" and "digest H new = hash" and "ie_swap E = SwapFine"
    and "\<not> ie_spawn_fails E" and "u_files u (exec_path H) = Some old"
  shows "\<exists>u'. perform_install H E v hash u = (True, u') \<and> u_files u' (exec_path H) = Some new \<and>
    u_files u' (backup_path H) = Some old \<and> u_marker u' = Some \<lparr>mk_version = v, mk_prev = backup_path H,
      mk_installed = Some (now_ms H), mk_graceful = False, mk_hash = hash\<rparr>"
  using assms by (simp add: perform_install_def swap_def unlink_path_def write_marker_def Let_def)

text \<open>An installed update whose process never stops cleanly is undone at the first boot after
  its window, which puts the old binary back; one that was stopped cleanly in its window is kept.\<close>

theorem update_life:
  assumes "\<not> ie_marker_fails E" and "ie_asset E = Some new" and "digest H new = hash" and "ie_swap E = SwapFine"
    and "\<not> ie_spawn_fails E" and "u_files u (exec_path H) = Some old" and "now_ms H > 0"
    and "later \<ge> now_ms H + probation_ms H" and "\<not> windows H" and "backup_path H \<noteq> []"
    and "\<not> re_read_fails R" and "\<not> re_write_fails R"
  shows "let N = H\<lparr>this_version := v, now_ms := later\<rparr>;
      u' = snd (perform_install H E v hash u)
    in u_files (snd (check_rollback N R u')) (exec_path H) = Some old \<and>
       u_files (snd (check_rollback N R (mark_graceful_shutdown N False u'))) (exec_path H) = Some new"
proof -
  let ?N = "H\<lparr>this_version := v, now_ms := later\<rparr>"
  obtain u' where u: "perform_install H E v hash u = (True, u')" "u_files u' (exec_path H) = Some new"
    "u_files u' (backup_path H) = Some old" "u_marker u' = Some \<lparr>mk_version = v, mk_prev = backup_path H,
      mk_installed = Some (now_ms H), mk_graceful = False, mk_hash = hash\<rparr>"
    using perform_install_done [OF assms(1-6)] by blast
  have "check_rollback ?N R u' = restore_backup ?N R \<lparr>mk_version = v, mk_prev = backup_path H,
      mk_installed = Some (now_ms H), mk_graceful = False, mk_hash = hash\<rparr> u'"
    using u assms(3,7,8) by (simp add: check_rollback_def replaced_since_def)
  then have "u_files (snd (check_rollback ?N R u')) (exec_path H) = Some old"
    using u assms(9-12) by (simp add: restore_backup_def posix_rollback_def delete_marker_def Let_def)
  moreover have "u_files (snd (check_rollback ?N R (mark_graceful_shutdown ?N False u'))) (exec_path H) = Some new"
    using u assms(7,8) by (simp add: check_rollback_def mark_graceful_shutdown_def delete_marker_def prune_backup_def
        unlink_path_def)
  ultimately show ?thesis using u(1) by (simp add: Let_def)
qed

lemma update_life_witness:
  "let N = sample_upd\<lparr>this_version := ''2'', now_ms := 5000\<rparr>;
      u' = snd (perform_install sample_upd sample_install ''2'' ''hnew'' sample_updater)
    in u_files (snd (check_rollback N calm u')) ''/b/hs'' = Some ''old'' \<and>
       u_files (snd (check_rollback N calm (mark_graceful_shutdown N False u'))) ''/b/hs'' = Some ''new''"
proof -
  have e: "exec_path sample_upd = ''/b/hs''" by (simp add: sample_upd_def)
  have "backup_path sample_upd \<noteq> []" by code_simp
  then show ?thesis
    unfolding e [symmetric]
    by (intro update_life) (simp_all add: sample_install_def sample_upd_def sample_updater_def calm_def)
qed

end
