(* ===== verification/Diagnose.thy ===== *)
theory Diagnose
  imports Config Text_Search
begin

text \<open>
  The support bundle (\<open>lib/diagnose.js\<close>): which parts of the configuration, the certificate, the update
  marker and the logs leave the host, and how log text is scrubbed before it does. The framework's file
  reader, JSON, redaction and decompression and the certificate parser are parameters.
\<close>

section \<open>The host\<close>

datatype doc_read = DocMissing | DocRefused string | DocText string

record cert =
  cert_subject :: string
  cert_issuer :: string
  cert_facts :: props              \<comment> \<open>validity, serial number, fingerprint, SPKI pin\<close>

datatype cert_read = CertMissing | CertBad string | CertRead cert

record log_file =
  log_name :: string
  log_stat :: "(bool \<times> int) option"  \<comment> \<open>a regular file?, its size; \<open>None\<close>: \<open>lstat\<close> throws\<close>
  log_bytes :: "string option"      \<comment> \<open>\<open>fdSafeReadSync\<close>, or it throws\<close>

record support_host =
  sup_config :: doc_read
  sup_stats :: doc_read
  sup_marker :: doc_read
  sup_manifest :: doc_read
  sup_parse :: "string \<Rightarrow> string + js"         \<comment> \<open>\<open>safeJson.parse\<close>: the message it throws, or the value\<close>
  sup_stringify :: "js \<Rightarrow> string"
  sup_origin :: "string \<Rightarrow> string option"      \<comment> \<open>\<open>safeUrl.parse\<close>'s origin, or it throws\<close>
  sup_redact :: "props \<Rightarrow> props"               \<comment> \<open>\<open>redact\<close> of an object\<close>
  sup_redact_array :: "js list \<Rightarrow> js list"
  sup_redact_text :: "string \<Rightarrow> string"
  sup_cert :: "path \<Rightarrow> cert_read"
  sup_logs :: "log_file list"                  \<comment> \<open>the directory of the log file\<close>
  sup_log_base :: string
  sup_decode :: "string \<Rightarrow> string"             \<comment> \<open>UTF-8\<close>
  sup_gunzip :: "string \<Rightarrow> string option"      \<comment> \<open>\<open>safeDecompress\<close>, or it throws\<close>
  sup_facts :: props                           \<comment> \<open>versions, platform, pid, clock\<close>
  sup_cwd :: path
  sup_config_dir :: path
  sup_db_file :: path
  sup_db_exists :: bool
  sup_db_open :: bool                          \<comment> \<open>the process already holds a handle\<close>
  sup_db_refuses :: "string option"            \<comment> \<open>\<open>open\<close> throws\<close>
  sup_db_schema :: "string + js"               \<comment> \<open>\<open>dumpSchema\<close>\<close>

section \<open>Reading JSON files\<close>

definition read_error :: string where
  "read_error = ''_diagnose_read_error''"

text \<open>\<open>null\<close> for a missing file, an object carrying the message for an unreadable one.\<close>

definition read_json_if_present :: "support_host \<Rightarrow> doc_read \<Rightarrow> js" where
  "read_json_if_present E d = (case d of
     DocMissing \<Rightarrow> JNull
   | DocRefused msg \<Rightarrow> JObj [(read_error, JStr msg)]
   | DocText raw \<Rightarrow> (case sup_parse E raw of
       Inl msg \<Rightarrow> JObj [(read_error, JStr msg)]
     | Inr v \<Rightarrow> v))"

definition unreadable :: "js \<Rightarrow> bool" where
  "unreadable v \<longleftrightarrow> js_truthy (field v read_error)"

abbreviation raw_config :: "support_host \<Rightarrow> js" where
  "raw_config E \<equiv> read_json_if_present E (sup_config E)"

section \<open>The configuration\<close>

definition config_allowlist :: "string list" where
  "config_allowlist = [''logLevel'', ''autoUpdate'', ''autoUpdateChannel'', ''maxFileSize'',
     ''uploadConcurrency'', ''uploadBytesPerSec'', ''downloadBytesPerSec'']"

fun basename_or_null :: "js \<Rightarrow> js" where
  "basename_or_null (JStr p) = (if p = [] then JNull else JStr (basename p))"
| "basename_or_null _ = JNull"

fun array_length :: "js \<Rightarrow> nat" where
  "array_length (JArr vs) = length vs"
| "array_length _ = 0"

definition is_object_or_array :: "js \<Rightarrow> bool" where
  "is_object_or_array v \<longleftrightarrow> (case v of JObj kvs \<Rightarrow> True | JArr vs \<Rightarrow> True | _ \<Rightarrow> False)"

definition config_file_name :: string where
  "config_file_name = ''config.json''"

definition server_shown :: "support_host \<Rightarrow> js \<Rightarrow> props" where
  "server_shown E v = (case v of
     JStr s \<Rightarrow> if s = [] then [] else
       [(''server'', case sup_origin E s of Some origin \<Rightarrow> JStr origin | None \<Rightarrow> JObj [(''_invalid'', JBool True)])]
   | _ \<Rightarrow> [])"

definition mtls_shown :: "js \<Rightarrow> js" where
  "mtls_shown m = (if is_object_or_array m
     then JObj (map (\<lambda>k. (k, basename_or_null (field m k))) [''cert'', ''key'', ''ca''])
     else JNull)"

definition config_projection :: "support_host \<Rightarrow> js \<Rightarrow> props" where
  "config_projection E cfg =
     map (\<lambda>k. (k, field cfg k)) (filter (\<lambda>k. field cfg k \<noteq> JUndef) config_allowlist) @
     server_shown E (field cfg ''server'') @
     [(''syncFolder'', basename_or_null (field cfg ''syncFolder'')),
      (''mtls'', mtls_shown (field cfg ''mtls'')),
      (''bundleConfigured'', JBool (js_truthy (field cfg ''bundleId''))),
      (''shareConfigured'', JBool (js_truthy (field cfg ''shareId'')))]"

definition redacted_config :: "support_host \<Rightarrow> js" where
  "redacted_config E = (let cfg = raw_config E in
     if \<not> js_truthy cfg then JObj [(''_absent'', JBool True), (''path'', JStr config_file_name)]
     else if unreadable cfg
     then JObj [(''_unreadable'', JBool True), (''error'', field cfg read_error), (''path'', JStr config_file_name)]
     else JObj (fold (\<lambda>(k, v). put k v)
       [(''pinnedServerSpkiCount'', JInt (int (array_length (field cfg ''pinnedServerSpki'')))),
        (''tunnelMode'', JBool (field cfg ''tunnelMode'' = JBool True)),
        (''ignoreCount'', JInt (int (array_length (field cfg ''ignore'')))),
        (''includeCount'', JInt (int (array_length (field cfg ''include''))))]
       (sup_redact E (config_projection E cfg))))"

section \<open>The certificate\<close>

definition newline :: char where "newline = CHR 0x0A"

text \<open>\<open>/^CN=(.*)$/\<close> on a trimmed line; a dot does not match the line terminators.\<close>

definition cn_line :: "string \<Rightarrow> string option" where
  "cn_line l = (let t = js_trim l in
     if starts_with t ''CN='' \<and> CHR 0x0D \<notin> set t then Some (drop 3 t) else None)"

definition cn_of :: "string \<Rightarrow> js" where
  "cn_of dn = (case List.map_filter cn_line (split_on newline dn) of [] \<Rightarrow> JNull | cn # _ \<Rightarrow> JStr cn)"

text \<open>\<open>None\<close>: \<open>basename\<close> throws on a path that is not a string (\<open>existsSync\<close> is false for one).\<close>

definition cert_info :: "support_host \<Rightarrow> js \<Rightarrow> js option" where
  "cert_info E cfg = (let p = field (field cfg ''mtls'') ''cert'' in
     if \<not> js_truthy p then Some (JObj [(''_absent'', JBool True)])
     else case p of
       JStr path \<Rightarrow> Some (case sup_cert E path of
           CertMissing \<Rightarrow> JObj [(''_absent'', JBool True), (''path'', JStr (basename path))]
         | CertBad msg \<Rightarrow> JObj [(''_parse_error'', JStr msg)]
         | CertRead x \<Rightarrow> JObj ([(''subjectCN'', cn_of (cert_subject x)), (''issuerCN'', cn_of (cert_issuer x))] @
             cert_facts x))
     | _ \<Rightarrow> None)"

section \<open>Secrets to scrub\<close>

definition min_secret_len :: nat where
  "min_secret_len = 8"

fun escaped_end :: "char \<Rightarrow> bool" where
  "escaped_end c = (c \<noteq> newline \<and> c \<noteq> CHR 0x0D)"

text \<open>The items \<open>[^"\\\s] | \\.\<close> at the head of a text: how many, their characters, what follows.\<close>

fun quoted_items :: "string \<Rightarrow> nat \<times> string \<times> string" where
  "quoted_items [] = (0, [], [])"
| "quoted_items [c] = (if c = CHR 0x22 \<or> c = backslash \<or> js_space c then (0, [], [c]) else (1, [c], []))"
| "quoted_items (c # d # cs) =
     (if c = backslash then
        (if escaped_end d then case quoted_items cs of (n, v, rest) \<Rightarrow> (n + 1, c # d # v, rest)
         else (0, [], c # d # cs))
      else if c = CHR 0x22 \<or> js_space c then (0, [], c # d # cs)
      else case quoted_items (d # cs) of (n, v, rest) \<Rightarrow> (n + 1, c # v, rest))"

text \<open>A match of \<open>:\s*"((?:\<dots>){8,})"\<close> at the head: the captured value and what follows.\<close>

definition quoted_value :: "string \<Rightarrow> (string \<times> string) option" where
  "quoted_value s = (case s of
     [] \<Rightarrow> None
   | c # cs \<Rightarrow> if c \<noteq> CHR '':'' then None else (case dropWhile js_space cs of
       [] \<Rightarrow> None
     | q # rest \<Rightarrow> if q \<noteq> CHR 0x22 then None else (case quoted_items rest of (n, v, after) \<Rightarrow>
         (case after of
            [] \<Rightarrow> None
          | e # rest' \<Rightarrow> if e = CHR 0x22 \<and> n \<ge> 8 then Some (v, rest') else None))))"

lemma quoted_items_length: "quoted_items s = (n, v, rest) \<Longrightarrow> length rest \<le> length s"
  by (induction s arbitrary: n v rest rule: quoted_items.induct)
    (auto split: if_splits prod.splits dest: le_SucI)

lemma quoted_value_length: "quoted_value s = Some (v, rest) \<Longrightarrow> length rest < length s"
  using length_dropWhile_le [of js_space "tl s"]
  by (fastforce simp: quoted_value_def split: list.splits if_splits prod.splits dest!: quoted_items_length)

function harvest :: "string \<Rightarrow> string list" where
  "harvest s = (case quoted_value s of
     Some (v, rest) \<Rightarrow> v # harvest rest
   | None \<Rightarrow> (case s of [] \<Rightarrow> [] | c # cs \<Rightarrow> harvest cs))"
  by pat_completeness auto
termination
  by (relation "measure length") (auto dest: quoted_value_length)

declare harvest.simps [simp del]

definition harvest_raw_secret_literals :: "support_host \<Rightarrow> string list" where
  "harvest_raw_secret_literals E = (case sup_config E of
     DocText raw \<Rightarrow> first_of_each [] (filter (\<lambda>v. length v \<ge> min_secret_len) (harvest raw))
   | _ \<Rightarrow> [])"

definition known_secret_literals :: "support_host \<Rightarrow> string list" where
  "known_secret_literals E = (let cfg = raw_config E in
     if \<not> js_truthy cfg then []
     else if unreadable cfg then first_of_each [] (harvest_raw_secret_literals E)
     else first_of_each [] (filter (\<lambda>v. length v \<ge> min_secret_len)
       (strings_of (map (field cfg) [''apiKey'', ''apiKeyRef'', ''token'', ''password'']))))"

definition decoded_form :: "support_host \<Rightarrow> string \<Rightarrow> string" where
  "decoded_form E lit = (case sup_parse E ([CHR 0x22] @ lit @ [CHR 0x22]) of
     Inr (JStr d) \<Rightarrow> if d = [] then lit else d
   | _ \<Rightarrow> lit)"

definition expand_secret_forms :: "support_host \<Rightarrow> string list \<Rightarrow> string list" where
  "expand_secret_forms E lits = first_of_each []
     (filter (\<lambda>f. length f \<ge> min_secret_len)
       (concat (map (\<lambda>lit. let d = decoded_form E lit in [d, lit, butlast (tl (sup_stringify E (JStr d)))])
         (filter (\<lambda>lit. length lit \<ge> min_secret_len) lits))))"

section \<open>Bearer credentials\<close>

definition word_char :: "char \<Rightarrow> bool" where
  "word_char c \<longleftrightarrow> is_digit c \<or> (65 :: nat) \<le> of_char c \<and> of_char c \<le> (90 :: nat) \<or>
     (97 :: nat) \<le> of_char c \<and> of_char c \<le> (122 :: nat) \<or> c = CHR ''_''"

definition token_char :: "char \<Rightarrow> bool" where
  "token_char c \<longleftrightarrow> word_char c \<or> c \<in> set ''.~+/=-''"

text \<open>A match of \<open>/\b(bearer)\s+([A-Za-z0-9._~+\/=-]{8,})/i\<close> at a position: the keyword, the token and
  what follows. The character before the position decides \<open>\b\<close>.\<close>

definition bearer_at :: "char option \<Rightarrow> string \<Rightarrow> (string \<times> string \<times> string) option" where
  "bearer_at prev s = (let after = drop 6 s; body = dropWhile js_space after; tok = takeWhile token_char body in
     if (case prev of Some c \<Rightarrow> \<not> word_char c | None \<Rightarrow> True) \<and> ascii_lower (take 6 s) = ''bearer'' \<and>
        takeWhile js_space after \<noteq> [] \<and> length tok \<ge> 8
     then Some (take 6 s, tok, dropWhile token_char body) else None)"

lemma bearer_at_length: "bearer_at p s = Some (k, t, rest) \<Longrightarrow> length rest < length s"
proof -
  assume "bearer_at p s = Some (k, t, rest)"
  then have low: "ascii_lower (take 6 s) = ''bearer''"
    and rest: "rest = dropWhile token_char (dropWhile js_space (drop 6 s))"
    by (auto simp only: bearer_at_def Let_def split: if_splits)
  have "s \<noteq> []" using low by (auto simp: ascii_lower_def)
  moreover have "length rest \<le> length (drop 6 s)"
    unfolding rest using length_dropWhile_le le_trans by blast
  ultimately show ?thesis by (cases s) auto
qed

function scrub_bearer :: "char option \<Rightarrow> string \<Rightarrow> string" where
  "scrub_bearer prev s = (case bearer_at prev s of
     Some (k, tok, rest) \<Rightarrow> k @ '' '' @ redacted @ scrub_bearer (Some (last tok)) rest
   | None \<Rightarrow> (case s of [] \<Rightarrow> [] | c # cs \<Rightarrow> c # scrub_bearer (Some c) cs))"
  by pat_completeness auto
termination
  by (relation "measure (length \<circ> snd)") (auto dest: bearer_at_length)

declare scrub_bearer.simps [simp del]

definition scrub_bearer_credentials :: "string \<Rightarrow> string" where
  "scrub_bearer_credentials text = scrub_bearer None text"

section \<open>Logs\<close>

definition redact_record :: "support_host \<Rightarrow> js \<Rightarrow> js" where
  "redact_record E v = (case v of
     JObj kvs \<Rightarrow> (let r = sup_redact E kvs in
       JObj (case get_prop r ''message'' of
         JStr m \<Rightarrow> put ''message'' (JStr (sup_redact_text E m)) r | _ \<Rightarrow> r))
   | JArr vs \<Rightarrow> JArr (sup_redact_array E vs)
   | _ \<Rightarrow> v)"

definition redact_log_line :: "support_host \<Rightarrow> string list \<Rightarrow> string \<Rightarrow> string" where
  "redact_log_line E lits line =
     (let masked = (case sup_parse E line of
            Inr v \<Rightarrow> if is_object_or_array v then sup_stringify E (redact_record E v) else sup_redact_text E line
          | Inl _ \<Rightarrow> sup_redact_text E line)
      in scrub_bearer_credentials (fold replace_all lits masked))"

fun join_lines :: "string list \<Rightarrow> string" where
  "join_lines [] = []"
| "join_lines [l] = l"
| "join_lines (l # ls) = l @ newline # join_lines ls"

definition redact_log_text :: "support_host \<Rightarrow> string list \<Rightarrow> string \<Rightarrow> string" where
  "redact_log_text E lits text =
     join_lines (map (\<lambda>l. if l = [] then l else redact_log_line E lits l) (split_on newline text))"

text \<open>The text that is shipped (compressed again for a rotation); \<open>None\<close> drops the file.\<close>

definition redact_log_buffer :: "support_host \<Rightarrow> bool \<Rightarrow> string list \<Rightarrow> string \<Rightarrow> string option" where
  "redact_log_buffer E gz lits buf =
     map_option (\<lambda>raw. redact_log_text E lits (sup_decode E raw)) (if gz then sup_gunzip E buf else Some buf)"

definition is_log_name :: "string \<Rightarrow> string \<Rightarrow> bool" where
  "is_log_name base n \<longleftrightarrow> n = base @ ''.log'' \<or> starts_with n (base @ ''-'') \<and> ends_with n ''.log.gz''"

definition log_files :: "support_host \<Rightarrow> (log_file \<times> int) list" where
  "log_files E = List.map_filter (\<lambda>f.
     if \<not> is_log_name (sup_log_base E) (log_name f) then None
     else case log_stat f of Some (True, n) \<Rightarrow> Some (f, n) | _ \<Rightarrow> None) (sup_logs E)"

section \<open>The database\<close>

definition scrub_absolute_paths :: "support_host \<Rightarrow> string \<Rightarrow> string" where
  "scrub_absolute_paths E msg =
     fold (\<lambda>p. replace_with (basename p) p) [sup_db_file E, sup_config_dir E] msg"

text \<open>The entry, and whether the process holds a database handle afterwards.\<close>

definition state_db_schema :: "support_host \<Rightarrow> js \<times> bool" where
  "state_db_schema E =
     (if \<not> sup_db_exists E
      then (JObj [(''_absent'', JBool True), (''path'', JStr (basename (sup_db_file E)))], sup_db_open E)
      else let failed = (\<lambda>msg. JObj [(''error'', JStr (scrub_absolute_paths E msg))]);
               dump = (case sup_db_schema E of Inl msg \<Rightarrow> failed msg | Inr v \<Rightarrow> v)
           in if sup_db_open E then (dump, True)
              else case sup_db_refuses E of Some msg \<Rightarrow> (failed msg, False) | None \<Rightarrow> (dump, False))"

section \<open>The bundle\<close>

definition vendored_version :: "support_host \<Rightarrow> js" where
  "vendored_version E =
     (let v = field (field (field (read_json_if_present E (sup_manifest E)) ''packages'') ''blamejs'') ''version''
      in if js_truthy v then v else JNull)"

definition info :: "support_host \<Rightarrow> js" where
  "info E = JObj (sup_facts E @
     [(''cwd'', basename_or_null (JStr (sup_cwd E))),
      (''configDir'', basename_or_null (JStr (sup_config_dir E))),
      (''blamejsVendoredVersion'', vendored_version E),
      (''configUnreadable'', JBool (js_truthy (raw_config E) \<and> unreadable (raw_config E)))])"

definition marker_entry :: "support_host \<Rightarrow> js option" where
  "marker_entry E = (let m = read_json_if_present E (sup_marker E) in
     if \<not> js_truthy m then None
     else if unreadable m then Some (JObj [(''_unreadable'', JBool True), (''error'', field m read_error)])
     else Some (JObj (sup_redact E
       [(''newVersion'', field m ''newVersion''), (''installedAt'', field m ''installedAt''),
        (''gracefulAt'', field m ''gracefulAt''),
        (''prevBinaryPath'', basename_or_null (field m ''prevBinaryPath''))])))"

definition stats_entry :: "support_host \<Rightarrow> js option" where
  "stats_entry E = (let v = read_json_if_present E (sup_stats E) in if js_truthy v then Some v else None)"

datatype content = Json js | LogText bool string

definition optional_entry :: "string \<Rightarrow> js option \<Rightarrow> (string \<times> content) list" where
  "optional_entry n v = (case v of None \<Rightarrow> [] | Some v \<Rightarrow> [(n, Json v)])"

definition log_cap :: int where
  "log_cap = 50 * 1024 * 1024"

definition log_entry :: "support_host \<Rightarrow> string list \<Rightarrow> log_file \<times> int \<Rightarrow> (string \<times> content) option" where
  "log_entry E lits = (\<lambda>(f, n). let gz = ends_with (log_name f) ''.gz'' in
     if n > log_cap then None
     else map_option (\<lambda>text. (''log/'' @ log_name f, LogText gz text))
       (Option.bind (log_bytes f) (redact_log_buffer E gz lits)))"

text \<open>The entries of the archive in order, or \<open>None\<close> when building it throws.\<close>

definition build_bundle :: "support_host \<Rightarrow> (string \<times> content) list option" where
  "build_bundle E = (case cert_info E (raw_config E) of
     None \<Rightarrow> None
   | Some ci \<Rightarrow> Some (
       [(''info.json'', Json (info E)), (''config.redacted.json'', Json (redacted_config E)),
        (''cert-info.json'', Json ci), (''state-db-schema.json'', Json (fst (state_db_schema E)))] @
       optional_entry ''stats.json'' (stats_entry E) @
       optional_entry ''update-pending.json'' (marker_entry E) @
       List.map_filter (log_entry E (expand_secret_forms E (known_secret_literals E))) (log_files E)))"

end
