(* ===== verification/Diagnose_Safety.thy ===== *)
theory Diagnose_Safety
  imports Diagnose
begin

text \<open>What the support bundle cannot contain: configured secrets and bearer credentials in the logs, and
  anything of the configuration beyond its reduced view.\<close>

section \<open>Bearer credentials\<close>

text \<open>The scrubber's pattern matches nowhere in a text.\<close>

fun bearer_free :: "char option \<Rightarrow> string \<Rightarrow> bool" where
  "bearer_free p [] = True"
| "bearer_free p (c # cs) = (bearer_at p (c # cs) = None \<and> bearer_free (Some c) cs)"

lemma ascii_lower_simps [simp]:
  "ascii_lower [] = []" "ascii_lower (c # cs) = lower_char c # ascii_lower cs"
  by (simp_all add: ascii_lower_def)

lemma bearer_at_Some_iff:
  "bearer_at p s = Some (k, tok, rest) \<longleftrightarrow>
     (case p of Some c \<Rightarrow> \<not> word_char c | None \<Rightarrow> True) \<and> ascii_lower (take 6 s) = ''bearer'' \<and>
     takeWhile js_space (drop 6 s) \<noteq> [] \<and> length tok \<ge> 8 \<and> k = take 6 s \<and>
     tok = takeWhile token_char (dropWhile js_space (drop 6 s)) \<and>
     rest = dropWhile token_char (dropWhile js_space (drop 6 s))"
  by (auto simp: bearer_at_def Let_def split: if_splits)

lemma bearer_at_head: "lower_char c \<noteq> CHR ''b'' \<Longrightarrow> bearer_at p (c # cs) = None"
  by (simp add: bearer_at_def Let_def)

lemma scrub_bearer_Nil [simp]: "scrub_bearer p [] = []"
  by (subst scrub_bearer.simps) (simp add: bearer_at_def Let_def)

lemma scrub_bearer_match:
  "bearer_at p s = Some (k, tok, rest) \<Longrightarrow>
     scrub_bearer p s = k @ '' '' @ redacted @ scrub_bearer (Some (last tok)) rest"
  by (subst scrub_bearer.simps) simp

lemma scrub_bearer_skip: "bearer_at p (c # cs) = None \<Longrightarrow> scrub_bearer p (c # cs) = c # scrub_bearer (Some c) cs"
  by (subst scrub_bearer.simps) simp

lemma scrub_bearer_other: "lower_char c \<noteq> CHR ''b'' \<Longrightarrow> scrub_bearer p (c # cs) = c # scrub_bearer (Some c) cs"
  by (simp add: scrub_bearer_skip bearer_at_head)

lemma keyword_chars:
  assumes "ascii_lower k = ''bearer''"
  obtains c1 c2 c3 c4 c5 c6 where "k = [c1, c2, c3, c4, c5, c6]" "lower_char c1 = CHR ''b''"
    "lower_char c2 = CHR ''e''" "lower_char c3 = CHR ''a''" "lower_char c4 = CHR ''r''"
    "lower_char c5 = CHR ''e''" "lower_char c6 = CHR ''r''"
proof -
  have "length k = 6" using arg_cong [OF assms, of length] by (simp add: ascii_lower_def)
  then obtain c1 c2 c3 c4 c5 c6 where "k = [c1, c2, c3, c4, c5, c6]"
    by (auto simp: length_Suc_conv numeral_eq_Suc)
  with assms that show ?thesis by simp
qed

text \<open>The head of the output is the head of the input.\<close>

lemma scrub_bearer_head:
  assumes "scrub_bearer p s = x # out"
  shows "\<exists>t. s = x # t \<and> (lower_char x \<noteq> CHR ''b'' \<longrightarrow> out = scrub_bearer (Some x) t)"
proof (cases "bearer_at p s")
  case None
  with assms show ?thesis by (cases s) (auto simp: scrub_bearer_skip)
next
  case (Some m)
  then obtain k tok rest where m: "bearer_at p s = Some (k, tok, rest)" by (cases m) auto
  then have k: "k = take 6 s" "ascii_lower k = ''bearer''" by (auto simp: bearer_at_Some_iff)
  from k(2) obtain c1 c2 c3 c4 c5 c6 where "k = [c1, c2, c3, c4, c5, c6]" "lower_char c1 = CHR ''b''"
    by (rule keyword_chars)
  with assms scrub_bearer_match [OF m] k(1) show ?thesis by (cases s) auto
qed

lemma of_lower_char:
  "(of_char (lower_char c) :: nat) =
     (if (65 :: nat) \<le> of_char c \<and> of_char c \<le> (90 :: nat) then of_char c + 32 else of_char c)"
  by (simp add: lower_char_def)

lemma keyword_char_token:
  assumes "lower_char c \<in> set ''bear''"
  shows "token_char c"
proof -
  from assms have "(of_char (lower_char c) :: nat) \<in> {98, 101, 97, 114}" by auto
  then have "(65 :: nat) \<le> of_char c \<and> of_char c \<le> (90 :: nat) \<or> (97 :: nat) \<le> of_char c \<and> of_char c \<le> (122 :: nat)"
    by (auto simp: of_lower_char split: if_splits)
  then show ?thesis by (auto simp: token_char_def word_char_def)
qed

lemma keyword_tokens: "ascii_lower k = ''bearer'' \<Longrightarrow> \<forall>c \<in> set k. token_char c"
  by (erule keyword_chars) (auto intro!: keyword_char_token)

lemma space_not_token: "js_space c \<Longrightarrow> \<not> token_char c"
  by (auto simp: js_space_def is_space_def token_char_def word_char_def is_digit_def)

lemma space_not_keyword: "js_space c \<Longrightarrow> lower_char c \<noteq> CHR ''b''"
  using keyword_char_token [of c] space_not_token [of c] by auto

lemma scrub_bearer_cons: "\<exists>out. scrub_bearer p (c # cs) = c # out"
proof (cases "bearer_at p (c # cs)")
  case (Some m)
  then obtain k tok rest where m: "bearer_at p (c # cs) = Some (k, tok, rest)" by (cases m) auto
  then have "k = c # take 5 cs" by (simp add: bearer_at_Some_iff)
  with scrub_bearer_match [OF m] show ?thesis by simp
qed (simp add: scrub_bearer_skip)

lemma scrub_bearer_tokens: "takeWhile token_char (scrub_bearer p t) = takeWhile token_char t"
proof (induction p t rule: scrub_bearer.induct)
  case (1 p t)
  show ?case
  proof (cases "bearer_at p t")
    case None
    with "1.IH"(1) [OF None] show ?thesis by (cases t) (auto simp: scrub_bearer_skip)
  next
    case (Some m)
    then obtain k tok rest where m: "bearer_at p t = Some (k, tok, rest)" by (cases m) auto
    then have k: "k = take 6 t" "ascii_lower k = ''bearer''" and sp: "takeWhile js_space (drop 6 t) \<noteq> []"
      by (auto simp: bearer_at_Some_iff)
    from sp obtain w ws where w: "drop 6 t = w # ws" "js_space w"
      by (cases "drop 6 t") (auto split: if_splits)
    have t: "t = k @ w # ws" using k(1) w(1) append_take_drop_id [of 6 t] by simp
    have sn: "\<not> token_char w" "\<not> token_char (CHR '' '')"
      using space_not_token w(2) by (simp_all add: token_char_def word_char_def is_digit_def)
    have "takeWhile token_char t = k" unfolding t using keyword_tokens [OF k(2)] sn
      by (simp add: takeWhile_append2)
    moreover have "takeWhile token_char (scrub_bearer p t) = k"
      unfolding scrub_bearer_match [OF m] using keyword_tokens [OF k(2)] sn by (simp add: takeWhile_append2)
    ultimately show ?thesis by simp
  qed
qed

lemma scrub_bearer_spaces:
  "takeWhile js_space (scrub_bearer p t) = takeWhile js_space t \<and>
     (\<exists>p'. dropWhile js_space (scrub_bearer p t) = scrub_bearer p' (dropWhile js_space t))"
proof (induction t arbitrary: p)
  case (Cons c t)
  show ?case
  proof (cases "js_space c")
    case True
    with Cons.IH [of "Some c"] show ?thesis by (simp add: scrub_bearer_other space_not_keyword)
  next
    case False
    obtain out where out: "scrub_bearer p (c # t) = c # out" using scrub_bearer_cons by blast
    with False have "dropWhile js_space (scrub_bearer p (c # t)) = scrub_bearer p (dropWhile js_space (c # t))"
      by simp
    then have "\<exists>p'. dropWhile js_space (scrub_bearer p (c # t)) = scrub_bearer p' (dropWhile js_space (c # t))" ..
    with False out show ?thesis by simp
  qed
qed auto

lemma scrub_bearer_step:
  assumes "scrub_bearer p s = x # out" and "lower_char x \<noteq> CHR ''b''"
  obtains t where "s = x # t" and "out = scrub_bearer (Some x) t"
  using scrub_bearer_head [OF assms(1)] assms(2) by blast

text \<open>Scrubbing what follows creates no match.\<close>

lemma scrub_bearer_no_new:
  assumes none: "bearer_at p s = None"
  shows "bearer_at p (scrub_bearer p s) = None"
proof (rule ccontr)
  assume "bearer_at p (scrub_bearer p s) \<noteq> None"
  then obtain k tok rest where m: "bearer_at p (scrub_bearer p s) = Some (k, tok, rest)" by auto
  let ?o = "scrub_bearer p s"
  have low: "ascii_lower (take 6 ?o) = ''bearer''" using m by (simp add: bearer_at_Some_iff)
  from low obtain c1 c2 c3 c4 c5 c6 where c: "take 6 ?o = [c1, c2, c3, c4, c5, c6]"
    and l: "lower_char c2 = CHR ''e''" "lower_char c3 = CHR ''a''" "lower_char c4 = CHR ''r''"
      "lower_char c5 = CHR ''e''" "lower_char c6 = CHR ''r''"
    by (rule keyword_chars)
  then have o: "?o = c1 # c2 # c3 # c4 # c5 # c6 # drop 6 ?o"
    using append_take_drop_id [of 6 ?o] by simp
  from o none obtain s1 where s1: "s = c1 # s1" "scrub_bearer (Some c1) s1 = c2 # c3 # c4 # c5 # c6 # drop 6 ?o"
    by (cases s) (auto simp: scrub_bearer_skip)
  obtain s2 where s2: "s1 = c2 # s2" "c3 # c4 # c5 # c6 # drop 6 ?o = scrub_bearer (Some c2) s2"
    using scrub_bearer_step [OF s1(2)] l by auto
  obtain s3 where s3: "s2 = c3 # s3" "c4 # c5 # c6 # drop 6 ?o = scrub_bearer (Some c3) s3"
    using scrub_bearer_step [OF s2(2) [symmetric]] l by auto
  obtain s4 where s4: "s3 = c4 # s4" "c5 # c6 # drop 6 ?o = scrub_bearer (Some c4) s4"
    using scrub_bearer_step [OF s3(2) [symmetric]] l by auto
  obtain s5 where s5: "s4 = c5 # s5" "c6 # drop 6 ?o = scrub_bearer (Some c5) s5"
    using scrub_bearer_step [OF s4(2) [symmetric]] l by auto
  obtain s6 where s6: "s5 = c6 # s6" "drop 6 ?o = scrub_bearer (Some c6) s6"
    using scrub_bearer_step [OF s5(2) [symmetric]] l by auto
  have "s = c1 # c2 # c3 # c4 # c5 # c6 # s6"
    unfolding s1(1) s2(1) s3(1) s4(1) s5(1) s6(1) ..
  then have s: "take 6 s = take 6 ?o" "drop 6 s = s6" unfolding c by simp_all
  have sp: "takeWhile js_space (drop 6 ?o) = takeWhile js_space (drop 6 s)"
    and tk: "takeWhile token_char (dropWhile js_space (drop 6 ?o)) = takeWhile token_char (dropWhile js_space (drop 6 s))"
    using scrub_bearer_spaces [of "Some c6" s6] scrub_bearer_tokens unfolding s(2) s6(2) by metis+
  have "bearer_at p s \<noteq> None"
    using m unfolding bearer_at_def Let_def s(1) sp tk by (auto split: if_splits)
  with none show False by simp
qed

lemma bearer_free_prev:
  "(case s of [] \<Rightarrow> True | c # cs \<Rightarrow> lower_char c \<noteq> CHR ''b'') \<Longrightarrow> bearer_free p s \<Longrightarrow> bearer_free p' s"
  by (cases s) (auto simp: bearer_at_head)

lemma bearer_free_others:
  "\<forall>c \<in> set a. lower_char c \<noteq> CHR ''b'' \<Longrightarrow> bearer_free p (a @ s) = bearer_free (if a = [] then p else Some (last a)) s"
  by (induction a arbitrary: p) (auto simp: bearer_at_head)

lemma redacted_lower: "\<forall>c \<in> set ('' '' @ redacted). lower_char c \<noteq> CHR ''b''"
  by code_simp

lemma scrub_bearer_free: "bearer_free p (scrub_bearer p s)"
proof (induction p s rule: scrub_bearer.induct)
  case (1 p s)
  show ?case
  proof (cases "bearer_at p s")
    case None
    show ?thesis
    proof (cases s)
      case (Cons c cs)
      with None "1.IH"(1) [OF None Cons] scrub_bearer_no_new [OF None] show ?thesis
        by (simp add: scrub_bearer_skip)
    qed simp
  next
    case (Some m)
    then obtain k tok rest where m: "bearer_at p s = Some (k, tok, rest)" by (cases m) auto
    let ?r = "scrub_bearer (Some (last tok)) rest"
    have low: "ascii_lower k = ''bearer''" and tok: "tok \<noteq> []"
      and rest: "rest = dropWhile token_char (dropWhile js_space (drop 6 s))"
      using m by (auto simp: bearer_at_Some_iff)
    from low obtain c1 c2 c3 c4 c5 c6 where k: "k = [c1, c2, c3, c4, c5, c6]"
      and l: "lower_char c2 = CHR ''e''" "lower_char c3 = CHR ''a''" "lower_char c4 = CHR ''r''"
        "lower_char c5 = CHR ''e''" "lower_char c6 = CHR ''r''"
      by (rule keyword_chars)
    have ih: "bearer_free (Some (last tok)) ?r" using "1.IH"(2) [OF m refl refl] .
    have head: "case ?r of [] \<Rightarrow> True | c # cs \<Rightarrow> lower_char c \<noteq> CHR ''b''"
    proof (cases ?r)
      case (Cons c cs)
      then obtain t where "rest = c # t" using scrub_bearer_head [OF Cons] by blast
      then have "\<not> token_char c" using rest by (metis hd_dropWhile list.distinct(1) list.sel(1))
      then show ?thesis using Cons keyword_char_token [of c] by auto
    qed simp
    have "\<forall>c \<in> set ([c2, c3, c4, c5, c6] @ '' '' @ redacted). lower_char c \<noteq> CHR ''b''"
      using l redacted_lower by auto
    from bearer_free_others [OF this, of "Some c1" ?r] bearer_free_prev [OF head ih]
    have "bearer_free (Some c1) ([c2, c3, c4, c5, c6] @ '' '' @ redacted @ ?r)" by simp
    moreover have "bearer_at p (k @ '' '' @ redacted @ ?r) = None"
      unfolding k by (simp add: bearer_at_def Let_def redacted_def js_space_def is_space_def token_char_def
          word_char_def is_digit_def)
    ultimately show ?thesis unfolding scrub_bearer_match [OF m] unfolding k by simp
  qed
qed

section \<open>Configured secrets\<close>

text \<open>A secret that the scrubbing itself cannot spell: no brackets, no white space, no part of the marker.\<close>

definition scrubbable :: "string \<Rightarrow> bool" where
  "scrubbable l \<longleftrightarrow> plain_literal l \<and> (\<forall>c \<in> set l. \<not> js_space c)"

lemma scrub_bearer_keeps:
  assumes l: "scrubbable l"
  shows "\<not> sublist l s \<Longrightarrow> \<not> sublist l (scrub_bearer p s)"
proof -
  have gen: "\<forall>pre. \<not> sublist l (pre @ s) \<longrightarrow> \<not> sublist l (pre @ scrub_bearer p s)"
  proof (induction p s rule: scrub_bearer.induct)
    case (1 p s)
    show ?case
    proof (cases "bearer_at p s")
      case None
      show ?thesis
      proof (cases s)
        case (Cons c cs)
        have "\<not> sublist l (pre @ c # cs) \<Longrightarrow> \<not> sublist l (pre @ c # scrub_bearer (Some c) cs)" for pre
          using "1.IH"(1) [OF None Cons, rule_format, of "pre @ [c]"] by simp
        with None Cons show ?thesis by (simp add: scrub_bearer_skip)
      qed simp
    next
      case (Some m)
      then obtain k tok rest where m: "bearer_at p s = Some (k, tok, rest)" by (cases m) auto
      then have k: "k = take 6 s" and rest: "rest = dropWhile token_char (dropWhile js_space (drop 6 s))"
        by (auto simp: bearer_at_Some_iff)
      have ih: "\<not> sublist l rest \<Longrightarrow> \<not> sublist l (scrub_bearer (Some (last tok)) rest)"
        using "1.IH"(2) [OF m refl refl, rule_format, of "[]"] by simp
      have s: "s = k @ takeWhile js_space (drop 6 s) @ takeWhile token_char (dropWhile js_space (drop 6 s)) @ rest"
        unfolding k rest by simp
      show ?thesis
      proof (intro allI impI)
        fix pre assume no: "\<not> sublist l (pre @ s)"
        have "sublist (pre @ k) (pre @ s)" "sublist rest (pre @ s)"
          by (subst s, metis append.assoc append_Nil sublist_appendI)
            (subst s, metis append.assoc append_Nil2 sublist_appendI)
        with no have "\<not> sublist l (pre @ k)" "\<not> sublist l rest"
          using sublist_order.order_trans by blast+
        moreover have "CHR '' '' \<notin> set l"
          using l by (auto simp: scrubbable_def js_space_def is_space_def)
        ultimately show "\<not> sublist l (pre @ scrub_bearer p s)"
          using sublist_split_at [of "CHR '' ''" l "pre @ k" "redacted @ scrub_bearer (Some (last tok)) rest"]
            plain_literal_redacted [of l "[]" "scrub_bearer (Some (last tok)) rest"] ih l
          unfolding scrub_bearer_match [OF m] by (auto simp: scrubbable_def plain_literal_def)
      qed
    qed
  qed
  show "\<not> sublist l s \<Longrightarrow> \<not> sublist l (scrub_bearer p s)" using gen [rule_format, of "[]"] by simp
qed

lemma redact_log_line_scrubs:
  "scrubbable l \<Longrightarrow> l \<in> set lits \<Longrightarrow> \<not> sublist l (redact_log_line E lits line)"
  unfolding redact_log_line_def scrub_bearer_credentials_def Let_def
  by (intro scrub_bearer_keeps fold_replace_all) (simp_all add: scrubbable_def)

lemma redact_log_line_bearer_free: "bearer_free None (redact_log_line E lits line)"
  by (simp add: redact_log_line_def scrub_bearer_credentials_def scrub_bearer_free)

lemma join_lines_keeps:
  "newline \<notin> set l \<Longrightarrow> l \<noteq> [] \<Longrightarrow> \<forall>x \<in> set xs. \<not> sublist l x \<Longrightarrow> \<not> sublist l (join_lines xs)"
proof (induction xs rule: join_lines.induct)
  case (3 x y ys)
  then show ?case using sublist_split_at [of newline l x "join_lines (y # ys)"] by auto
qed auto

lemma scrubbable_line: "scrubbable l \<Longrightarrow> newline \<notin> set l \<and> l \<noteq> []"
  by (auto simp: scrubbable_def plain_literal_def newline_def js_space_def is_space_def)

lemma redact_log_text_scrubs:
  "scrubbable l \<Longrightarrow> l \<in> set lits \<Longrightarrow> \<not> sublist l (redact_log_text E lits text)"
  unfolding redact_log_text_def using scrubbable_line redact_log_line_scrubs
  by (intro join_lines_keeps) (auto simp: redact_log_line_scrubs)

section \<open>The lines of a shipped log\<close>

lemma bearer_at_newline: "bearer_at p (a @ newline # b) = None \<Longrightarrow> bearer_at p a = None"
proof (rule ccontr)
  assume none: "bearer_at p (a @ newline # b) = None" and "bearer_at p a \<noteq> None"
  then obtain k tok rest where m: "bearer_at p a = Some (k, tok, rest)" by auto
  then have low: "ascii_lower (take 6 a) = ''bearer''" and sp: "takeWhile js_space (drop 6 a) \<noteq> []"
    and tok: "tok = takeWhile token_char (dropWhile js_space (drop 6 a))" "length tok \<ge> 8"
    by (auto simp: bearer_at_Some_iff)
  have "length (ascii_lower (take 6 a)) = 6" unfolding low by simp
  then have len: "length a \<ge> 6" by (simp add: ascii_lower_def)
  have "tok \<noteq> []" using tok(2) by auto
  then have "dropWhile js_space (drop 6 a) \<noteq> []" unfolding tok(1) by (metis takeWhile.simps(1))
  then have "\<exists>x \<in> set (drop 6 a). \<not> js_space x" by (metis dropWhile_eq_Nil_conv)
  then have body: "dropWhile js_space (drop 6 a @ newline # b) = dropWhile js_space (drop 6 a) @ newline # b"
    and sp': "takeWhile js_space (drop 6 a @ newline # b) = takeWhile js_space (drop 6 a)"
    by auto
  have "\<not> token_char newline" by (simp add: newline_def token_char_def word_char_def is_digit_def)
  then have "takeWhile token_char (dropWhile js_space (drop 6 a) @ newline # b) = tok"
    unfolding tok(1) by (simp add: takeWhile_append) (metis takeWhile_eq_all_conv)
  with m none len show False
    by (simp add: bearer_at_def Let_def body sp' tok(1) split: if_splits)
qed

lemma bearer_free_newline: "bearer_free (Some newline) s = bearer_free None s"
  by (cases s) (auto simp: bearer_at_def Let_def newline_def word_char_def is_digit_def)

lemma bearer_free_split: "bearer_free p (a @ newline # b) \<Longrightarrow> bearer_free p a \<and> bearer_free None b"
proof (induction a arbitrary: p)
  case Nil
  then show ?case using bearer_free_newline by simp
next
  case (Cons c a)
  then show ?case using bearer_at_newline [of p "c # a" b] by auto
qed

lemma bearer_free_lines: "bearer_free None s \<Longrightarrow> x \<in> set (split_on newline s) \<Longrightarrow> bearer_free None x"
proof (induction s arbitrary: x rule: length_induct)
  case (1 s)
  show ?case
  proof (cases "newline \<in> set s")
    case True
    then obtain a b where s: "s = a @ newline # b" "newline \<notin> set a" by (meson split_list_first)
    then have "length b < length s" "split_on newline s = a # split_on newline b"
      by (simp_all add: split_on_append_sep split_on_no_sep)
    with "1.prems" s bearer_free_split [of None a b] "1.IH" [rule_format, of b x] show ?thesis by auto
  next
    case False
    with 1 show ?thesis by (simp add: split_on_no_sep)
  qed
qed

lemma split_join_lines: "ls \<noteq> [] \<Longrightarrow> split_on newline (join_lines ls) = concat (map (split_on newline) ls)"
  by (induction ls rule: join_lines.induct) (simp_all add: split_on_append_sep)

lemma redact_log_text_bearer_free:
  "x \<in> set (split_on newline (redact_log_text E lits text)) \<Longrightarrow> bearer_free None x"
  by (auto simp: redact_log_text_def split_join_lines redact_log_line_bearer_free split: if_splits
      dest!: bearer_free_lines [rotated])

section \<open>The bundle\<close>

lemma map_filter_set: "y \<in> set (List.map_filter f xs) \<longleftrightarrow> (\<exists>x \<in> set xs. f x = Some y)"
  by (induction xs) (auto simp: List.map_filter_simps split: option.splits)

definition secret_keys :: "string list" where
  "secret_keys = [''apiKey'', ''apiKeyRef'', ''token'', ''password'']"

lemma configured_secret_known:
  assumes "field (raw_config E) k = JStr secret" and "k \<in> set secret_keys"
    and "\<not> unreadable (raw_config E)" and "length secret \<ge> min_secret_len"
  shows "secret \<in> set (expand_secret_forms E (known_secret_literals E))"
proof -
  from assms(1) have "js_truthy (raw_config E)" by (cases "raw_config E") auto
  with assms have "secret \<in> set (known_secret_literals E)"
    by (auto simp: known_secret_literals_def Let_def first_of_each_set strings_of_set secret_keys_def)
  with assms(4) show ?thesis by (auto simp: expand_secret_forms_def first_of_each_set Let_def)
qed

lemma log_entry_text:
  "log_entry E lits fn = Some (n, LogText gz text) \<Longrightarrow> \<exists>raw. text = redact_log_text E lits raw"
  by (auto simp: log_entry_def Let_def redact_log_buffer_def bind_eq_Some_conv
      split: if_splits prod.splits)

lemma bundle_logs:
  assumes "build_bundle E = Some es" and "(n, LogText gz text) \<in> set es"
  shows "\<exists>raw. text = redact_log_text E (expand_secret_forms E (known_secret_literals E)) raw"
proof -
  have "(n, LogText gz text) \<in> set (List.map_filter (log_entry E (expand_secret_forms E (known_secret_literals E))) (log_files E))"
    using assms by (auto simp only: build_bundle_def optional_entry_def split: option.splits) auto
  then show ?thesis unfolding map_filter_set using log_entry_text by blast
qed

text \<open>Property C27: no log that goes into a support bundle contains an API key, a key reference, a token or a
  password that \<open>config.json\<close> holds (of at least eight characters, without white space or brackets), and no
  line of it contains \<open>Bearer\<close> followed by a credential of eight characters or more, whatever the
  framework's own redaction leaves in the text and whether the log is the current one or a compressed
  rotation.
\<close>

theorem support_logs_scrubbed:
  assumes "build_bundle E = Some es" and "(n, LogText gz text) \<in> set es"
    and "field (raw_config E) k = JStr secret" and "k \<in> set secret_keys"
    and "\<not> unreadable (raw_config E)" and "length secret \<ge> min_secret_len" and "scrubbable secret"
  shows "\<not> sublist secret text \<and> (\<forall>line \<in> set (split_on newline text). bearer_free None line)"
  using bundle_logs [OF assms(1,2)] configured_secret_known [OF assms(3-6)] assms(7)
    redact_log_text_scrubs redact_log_text_bearer_free by blast

definition sample_support_host :: support_host where
  "sample_support_host = \<lparr>
     sup_config = DocText ''C'', sup_stats = DocMissing, sup_marker = DocMissing, sup_manifest = DocMissing,
     sup_parse = (\<lambda>s. if s = ''C'' then Inr (JObj [(''apiKey'', JStr ''hs_12345678'')]) else Inl ''bad''),
     sup_stringify = (\<lambda>v. ''{}''), sup_origin = (\<lambda>s. None), sup_redact = (\<lambda>ps. ps),
     sup_redact_array = (\<lambda>vs. vs), sup_redact_text = (\<lambda>s. s), sup_cert = (\<lambda>p. CertMissing),
     sup_logs = [\<lparr>log_name = ''sync.log'', log_stat = Some (True, 60),
       log_bytes = Some (''GET ?k=hs_12345678'' @ [newline] @ ''sent BEARER  a.b-c=9012'' @ [newline])\<rparr>],
     sup_log_base = ''sync'', sup_decode = (\<lambda>s. s), sup_gunzip = (\<lambda>s. None), sup_facts = [],
     sup_cwd = ''/home/u'', sup_config_dir = ''/home/u/.hs'', sup_db_file = ''/home/u/.hs/state.db'',
     sup_db_exists = False, sup_db_open = False, sup_db_refuses = None, sup_db_schema = Inl []\<rparr>"

abbreviation sample_log :: string where
  "sample_log \<equiv> ''GET ?k=[REDACTED]'' @ [newline] @ ''sent BEARER [REDACTED]'' @ [newline]"

theorem support_logs_scrubbed_witness:
  "(''log/sync.log'', LogText False sample_log) \<in> set (the (build_bundle sample_support_host)) \<and>
   \<not> sublist ''hs_12345678'' sample_log \<and> list_all (bearer_free None) (split_on newline sample_log)"
proof -
  have m: "(''log/sync.log'', LogText False sample_log) \<in> set (the (build_bundle sample_support_host))"
    by code_simp
  have b: "build_bundle sample_support_host = Some (the (build_bundle sample_support_host))" by code_simp
  have "field (raw_config sample_support_host) ''apiKey'' = JStr ''hs_12345678''"
    "''apiKey'' \<in> set secret_keys" "\<not> unreadable (raw_config sample_support_host)"
    "length ''hs_12345678'' \<ge> min_secret_len" "scrubbable ''hs_12345678''"
    by code_simp+
  from support_logs_scrubbed [OF b m this] m show ?thesis unfolding Ball_set by blast
qed

section \<open>The configuration's reduced view\<close>

text \<open>Two configurations that the bundle cannot tell apart.\<close>

definition same_view :: "support_host \<Rightarrow> js \<Rightarrow> js \<Rightarrow> bool" where
  "same_view E c c' \<longleftrightarrow>
     js_truthy c = js_truthy c' \<and> field c read_error = field c' read_error \<and>
     (\<forall>k \<in> set config_allowlist. field c k = field c' k) \<and>
     server_shown E (field c ''server'') = server_shown E (field c' ''server'') \<and>
     basename_or_null (field c ''syncFolder'') = basename_or_null (field c' ''syncFolder'') \<and>
     field c ''mtls'' = field c' ''mtls'' \<and>
     (\<forall>k \<in> {''bundleId'', ''shareId''}. js_truthy (field c k) = js_truthy (field c' k)) \<and>
     (\<forall>k \<in> {''pinnedServerSpki'', ''ignore'', ''include''}. array_length (field c k) = array_length (field c' k)) \<and>
     field c ''tunnelMode'' = field c' ''tunnelMode''"

lemma same_view_projection: "same_view E c c' \<Longrightarrow> config_projection E c = config_projection E c'"
  unfolding config_projection_def same_view_def by (auto intro!: map_cong filter_cong)

lemma read_json_other_config [simp]:
  "read_json_if_present (E\<lparr>sup_config := d\<rparr>) x = read_json_if_present E x"
  by (simp add: read_json_if_present_def split: doc_read.splits)

lemma server_shown_other [simp]: "server_shown (E\<lparr>sup_config := d\<rparr>) v = server_shown E v"
  by (cases v) (simp_all add: server_shown_def)

lemma same_view_config:
  assumes "same_view E (raw_config E) (read_json_if_present E d)"
  shows "redacted_config (E\<lparr>sup_config := d\<rparr>) = redacted_config E"
proof -
  have "config_projection (E\<lparr>sup_config := d\<rparr>) (read_json_if_present E d) = config_projection E (raw_config E)"
    using same_view_projection [OF assms] by (simp add: config_projection_def)
  with assms show ?thesis
    by (simp add: redacted_config_def same_view_def unreadable_def Let_def)
qed

lemma same_view_cert:
  "same_view E c c' \<Longrightarrow> cert_info (E\<lparr>sup_config := d\<rparr>) c' = cert_info E c"
  by (simp add: cert_info_def same_view_def Let_def split: js.splits)

definition public_entries :: "(string \<times> content) list \<Rightarrow> (string \<times> content) list" where
  "public_entries = filter (\<lambda>(n, c). case c of Json v \<Rightarrow> True | LogText gz t \<Rightarrow> False)"

lemma log_entry_kind: "log_entry E lits fn = Some (n, c) \<Longrightarrow> \<exists>gz text. c = LogText gz text"
  by (cases fn) (auto simp: log_entry_def Let_def split: if_splits)

lemma public_logs: "public_entries (List.map_filter (log_entry E lits) fs) = []"
proof -
  have "\<exists>gz text. c = LogText gz text" if "(n, c) \<in> set (List.map_filter (log_entry E lits) fs)" for n c
    using that log_entry_kind unfolding map_filter_set by blast
  then show ?thesis by (force simp: public_entries_def filter_empty_conv)
qed

lemma public_append: "public_entries (xs @ ys) = public_entries xs @ public_entries ys"
  by (simp add: public_entries_def)

lemma same_view_bundle:
  assumes "same_view E (raw_config E) (read_json_if_present E d)"
  shows "map_option public_entries (build_bundle (E\<lparr>sup_config := d\<rparr>)) = map_option public_entries (build_bundle E)"
proof -
  have i: "info (E\<lparr>sup_config := d\<rparr>) = info E"
    using assms by (simp add: info_def vendored_version_def same_view_def unreadable_def)
  have db: "state_db_schema (E\<lparr>sup_config := d\<rparr>) = state_db_schema E"
    by (simp add: state_db_schema_def scrub_absolute_paths_def Let_def split: option.split)
  have o: "stats_entry (E\<lparr>sup_config := d\<rparr>) = stats_entry E" "marker_entry (E\<lparr>sup_config := d\<rparr>) = marker_entry E"
    by (simp_all add: stats_entry_def marker_entry_def Let_def)
  show ?thesis
    using same_view_cert [OF assms, of d]
    by (simp add: build_bundle_def i db o same_view_config [OF assms]
        public_append public_logs split: option.split) (simp add: public_append public_logs flip: append_Cons)
qed

definition shown_keys :: "string list" where
  "shown_keys = config_allowlist @ [''server'', ''syncFolder'', ''mtls'', ''bundleId'', ''shareId'',
     ''pinnedServerSpki'', ''ignore'', ''include'', ''tunnelMode'', read_error]"

lemma field_put: "field (JObj (put k v kvs)) j = (if j = k then v else field (JObj kvs) j)"
  using get_prop_put [of k v kvs j] by (auto simp: get_prop_def)

text \<open>The values of one property that look the same in the bundle.\<close>

definition same_shape :: "string \<Rightarrow> js \<Rightarrow> js \<Rightarrow> bool" where
  "same_shape k v w \<longleftrightarrow>
     (if k \<in> set shown_keys
      then (k = ''syncFolder'' \<and> basename_or_null v = basename_or_null w \<or>
            k \<in> {''bundleId'', ''shareId''} \<and> js_truthy v = js_truthy w \<or>
            k \<in> {''pinnedServerSpki'', ''ignore'', ''include''} \<and> array_length v = array_length w)
      else True)"

lemma same_view_fields:
  assumes "\<forall>j \<in> set shown_keys. field c' j = field c j" and "js_truthy c = js_truthy c'"
  shows "same_view E c c'"
proof -
  have "\<forall>j \<in> set config_allowlist. field c' j = field c j" using assms(1) by (simp add: shown_keys_def)
  with assms show ?thesis by (simp add: same_view_def shown_keys_def)
qed

lemma same_view_folder:
  "basename_or_null (field (JObj kvs) ''syncFolder'') = basename_or_null v \<Longrightarrow>
     same_view E (JObj kvs) (JObj (put ''syncFolder'' v kvs))"
  unfolding same_view_def field_put by (simp add: config_allowlist_def read_error_def)

lemma same_view_share:
  "k \<in> {''bundleId'', ''shareId''} \<Longrightarrow> js_truthy (field (JObj kvs) k) = js_truthy v \<Longrightarrow>
     same_view E (JObj kvs) (JObj (put k v kvs))"
  unfolding same_view_def field_put by (elim insertE) (simp_all add: config_allowlist_def read_error_def)

lemma same_view_lists:
  "k \<in> {''pinnedServerSpki'', ''ignore'', ''include''} \<Longrightarrow> array_length (field (JObj kvs) k) = array_length v \<Longrightarrow>
     same_view E (JObj kvs) (JObj (put k v kvs))"
  unfolding same_view_def field_put by (elim insertE) (simp_all add: config_allowlist_def read_error_def)

lemma same_shape_view:
  assumes "same_shape k (field (JObj kvs) k) v"
  shows "same_view E (JObj kvs) (JObj (put k v kvs))"
proof (cases "k \<in> set shown_keys")
  case True
  with assms show ?thesis
    unfolding same_shape_def using same_view_folder same_view_share same_view_lists by metis
next
  case False
  then have "\<forall>j \<in> set shown_keys. field (JObj (put k v kvs)) j = field (JObj kvs) j"
    unfolding field_put by metis
  then show ?thesis by (rule same_view_fields) simp
qed

text \<open>Apart from the logs, a support bundle does not depend on the value of any configuration
  property outside the reduced view, and of a share or bundle identifier it shows only that there is one,
  of the pin and pattern lists only their lengths, of the synchronised folder only its last segment: two
  configurations that differ in such a value give the same entries.
\<close>

theorem bundle_withholds_config:
  assumes "raw_config E = JObj kvs" and "read_json_if_present E d = JObj (put k v kvs)"
    and "same_shape k (field (JObj kvs) k) v"
  shows "map_option public_entries (build_bundle (E\<lparr>sup_config := d\<rparr>)) = map_option public_entries (build_bundle E)"
  by (rule same_view_bundle) (use assms same_shape_view in simp)

abbreviation two_configs :: support_host where
  "two_configs \<equiv> sample_support_host\<lparr>sup_parse :=
     (\<lambda>s. Inr (JObj [(''shareId'', JStr (if s = ''C'' then ''first'' else ''second''))]))\<rparr>"

theorem bundle_withholds_config_witness:
  "map_option public_entries (build_bundle (two_configs\<lparr>sup_config := DocText ''D''\<rparr>)) =
   map_option public_entries (build_bundle two_configs)"
  by (rule bundle_withholds_config [where kvs = "[(''shareId'', JStr ''first'')]" and k = "''shareId''"
        and v = "JStr ''second''"]) code_simp+

text \<open>A certificate path that is not a string ends the bundle with an exception, although every other path of
  the configuration may have any type.\<close>

theorem odd_cert_path_aborts:
  "js_truthy (field (field (raw_config E) ''mtls'') ''cert'') \<and>
   \<not> is_string (field (field (raw_config E) ''mtls'') ''cert'') \<longleftrightarrow> build_bundle E = None"
  by (auto simp: build_bundle_def cert_info_def Let_def split: option.splits js.splits)

end
