(* ===== verification/Boot_Gates.thy ===== *)
theory Boot_Gates
  imports Js_Value
begin

text \<open>
  The checks before any command runs (\<open>bin/hermitstash-sync.js\<close>): the version of Node, the digests of
  the vendored tree against its manifest, taken before that tree is loaded, and the framework's own
  self-tests. The manifest is a parsed JSON value; the digest of a file and the framework's verdicts are
  parameters.
\<close>

section \<open>The version floor\<close>

definition digits_dot :: "string \<Rightarrow> (nat \<times> string) option" where
  "digits_dot s = (let ds = takeWhile is_digit s; r = dropWhile is_digit s in
     if ds = [] then None else case r of c # cs \<Rightarrow> if c = CHR ''.'' then Some (digits_val ds, cs) else None | [] \<Rightarrow> None)"

text \<open>\<open>/^v?(\d+)\.(\d+)\.(\d+)/\<close>.\<close>

definition version_triple :: "string \<Rightarrow> (nat \<times> nat \<times> nat) option" where
  "version_triple s = (let s = (if starts_with s ''v'' then tl s else s) in
     case digits_dot s of None \<Rightarrow> None
     | Some (a, r) \<Rightarrow> (case digits_dot r of None \<Rightarrow> None
       | Some (b, r) \<Rightarrow> (let ds = takeWhile is_digit r in if ds = [] then None else Some (a, b, digits_val ds))))"

definition node_floor_ok :: "string \<Rightarrow> bool" where
  "node_floor_ok version = (case version_triple version of
     None \<Rightarrow> True
   | Some (major, minor, patch) \<Rightarrow>
       if major > 24 then True
       else if major = 24 then (if minor > 22 then True else minor = 22 \<and> patch \<ge> 1)
       else False)"

section \<open>The vendored tree\<close>

text \<open>The own enumerable properties that \<open>for ... in\<close> visits.\<close>

fun entries :: "js \<Rightarrow> (string \<times> js) list" where
  "entries (JObj kvs) = kvs"
| "entries (JArr vs) = zip (map nat_str [0..<length vs]) vs"
| "entries (JStr s) = zip (map nat_str [0..<length s]) (map (\<lambda>c. JStr [c]) s)"
| "entries _ = []"

definition prop_at :: "js \<Rightarrow> string \<Rightarrow> js" where
  "prop_at v k = (case map_of (entries v) k of None \<Rightarrow> JUndef | Some x \<Rightarrow> x)"

record tree =
  tr_digest :: "path \<Rightarrow> string \<Rightarrow> string option"   \<comment> \<open>the SHA-256 of the file at a base directory and path\<close>

definition read_failed :: string where
  "read_failed = ''<read-failed>''"

definition actual_hash :: "tree \<Rightarrow> path \<Rightarrow> string \<Rightarrow> string" where
  "actual_hash T base rel = (case tr_digest T base rel of None \<Rightarrow> read_failed | Some h \<Rightarrow> ''sha256:'' @ h)"

definition check_entry :: "tree \<Rightarrow> path \<Rightarrow> js \<Rightarrow> string \<times> js \<Rightarrow> string option" where
  "check_entry T base hashes kv = (case kv of (kind, rel) \<Rightarrow> (case (rel, prop_at hashes kind) of
     (JStr r, JStr expected) \<Rightarrow> if actual_hash T base r \<noteq> expected then Some r else None
   | (JStr r, _) \<Rightarrow> Some r
   | _ \<Rightarrow> Some (''<unverifiable entry '' @ kind @ ''>'')))"

text \<open>The mismatches of one package's files; every entry is counted.\<close>

definition check_files :: "tree \<Rightarrow> js \<Rightarrow> js \<Rightarrow> path \<Rightarrow> string list \<times> nat" where
  "check_files T files hashes base =
     (List.map_filter (check_entry T base hashes) (entries files), length (entries files))"

definition has_both :: "js \<Rightarrow> bool" where
  "has_both pkg \<longleftrightarrow> js_truthy pkg \<and> js_truthy (prop_at pkg ''files'') \<and> js_truthy (prop_at pkg ''hashes'')"

definition transitive_packages :: "js \<Rightarrow> (string \<times> js) list" where
  "transitive_packages pkg = (let tp = prop_at (prop_at pkg ''transitive'') ''packages'' in
     case tp of JStr s \<Rightarrow> [] | _ \<Rightarrow> entries tp)"

definition transitive_base :: "path \<Rightarrow> string \<Rightarrow> js \<Rightarrow> path" where
  "transitive_base root name pkg = root @ [slash] @
     (case prop_at pkg ''directory'' of JStr d \<Rightarrow> d | _ \<Rightarrow> ''vendor/'' @ name)"

text \<open>Every map of files to hashes that is checked, with its base directory.\<close>

definition checked_maps :: "path \<Rightarrow> js \<Rightarrow> (js \<times> js \<times> path) list" where
  "checked_maps root manifest = concat (map (\<lambda>(name, pkg).
       if has_both pkg then (prop_at pkg ''files'', prop_at pkg ''hashes'', root) #
         map (\<lambda>(_, t). (prop_at t ''files'', prop_at t ''hashes'', transitive_base root name pkg))
           (filter (\<lambda>(_, t). has_both t) (transitive_packages pkg))
       else [])
     (entries (prop_at manifest ''packages'')))"

datatype gate = Proceed | Refuse int

definition manifest_limit :: int where
  "manifest_limit = 1048576"

datatype manifest_read = ManifestFails | ManifestText string

record gate_env =
  ge_node :: string
  ge_sea :: bool
  ge_root :: path
  ge_manifest :: manifest_read
  ge_json :: "string \<Rightarrow> js option"
  ge_tree :: tree
  ge_kat :: "bool option"          \<comment> \<open>the known-answer test; \<open>None\<close> when it throws\<close>
  ge_integrity :: "bool option"
  ge_vendor_data :: bool

definition precheck :: "gate_env \<Rightarrow> gate" where
  "precheck E = (if ge_sea E then Proceed else case ge_manifest E of
     ManifestFails \<Rightarrow> Refuse 70
   | ManifestText raw \<Rightarrow>
       if int (length raw) > manifest_limit then Refuse 70
       else (case ge_json E raw of
         None \<Rightarrow> Refuse 70
       | Some manifest \<Rightarrow>
           (let results = map (\<lambda>(files, hashes, base). check_files (ge_tree E) files hashes base)
                  (checked_maps (ge_root E) manifest);
                mismatches = concat (map fst results); checked = sum_list (map snd results)
            in if checked = 0 then Refuse 70
               else if mismatches \<noteq> [] then Refuse 70
               else Proceed)))"

text \<open>All gates in order: whether vendored code was loaded, and the exit code of the gate that refused.\<close>

definition run_gates :: "gate_env \<Rightarrow> bool \<times> int option" where
  "run_gates E =
     (if \<not> node_floor_ok (ge_node E) then (False, Some 78)
      else case precheck E of
        Refuse n \<Rightarrow> (False, Some n)
      | Proceed \<Rightarrow>
          if ge_kat E \<noteq> Some True then (True, Some 70)
          else if \<not> ge_sea E \<and> ge_integrity E \<noteq> Some True then (True, Some 70)
          else if \<not> ge_vendor_data E then (True, Some 70)
          else (True, None))"

section \<open>What passing means\<close>

text \<open>The floor is the lexicographic order on version triples.\<close>

lemma node_floor_iff:
  "node_floor_ok v \<longleftrightarrow> (case version_triple v of None \<Rightarrow> True
     | Some (a, b, c) \<Rightarrow> a > 24 \<or> a = 24 \<and> (b > 22 \<or> b = 22 \<and> c \<ge> 1))"
  by (auto simp: node_floor_ok_def split: option.split)

lemma check_entry_None:
  "check_entry T base hashes (kind, rel) = None \<longleftrightarrow>
     (\<exists>r e. rel = JStr r \<and> prop_at hashes kind = JStr e \<and> actual_hash T base r = e)"
  by (auto simp: check_entry_def split: js.split)

lemma map_filter_Nil: "List.map_filter f xs = [] \<longleftrightarrow> (\<forall>x \<in> set xs. f x = None)"
  by (induction xs) (auto simp: List.map_filter_simps split: option.splits)

lemma check_files_ok:
  "fst (check_files T files hashes base) = [] \<longleftrightarrow> (\<forall>kv \<in> set (entries files). check_entry T base hashes kv = None)"
  by (simp add: check_files_def map_filter_Nil)

text \<open>An entry of the manifest whose file has the recorded digest. (A file that cannot be read passes only if the
  manifest records exactly the placeholder for that.)\<close>

definition verified_entry :: "tree \<Rightarrow> path \<Rightarrow> js \<Rightarrow> string \<times> js \<Rightarrow> bool" where
  "verified_entry T base hashes kv \<longleftrightarrow> (\<exists>r e. snd kv = JStr r \<and> prop_at hashes (fst kv) = JStr e \<and>
     (case tr_digest T base r of Some h \<Rightarrow> e = ''sha256:'' @ h | None \<Rightarrow> e = read_failed))"

lemma check_entry_verified: "check_entry T base hashes kv = None \<longleftrightarrow> verified_entry T base hashes kv"
  by (cases kv) (auto simp: check_entry_None verified_entry_def actual_hash_def split: option.splits)

lemma precheck_verified:
  assumes "precheck E = Proceed" and "\<not> ge_sea E"
  shows "\<exists>raw manifest. ge_manifest E = ManifestText raw \<and> ge_json E raw = Some manifest \<and>
    (\<exists>(files, hashes, base) \<in> set (checked_maps (ge_root E) manifest). entries files \<noteq> []) \<and>
    (\<forall>(files, hashes, base) \<in> set (checked_maps (ge_root E) manifest). \<forall>kv \<in> set (entries files).
       verified_entry (ge_tree E) base hashes kv)"
proof -
  from assms obtain raw manifest where r: "ge_manifest E = ManifestText raw" "ge_json E raw = Some manifest"
    by (auto simp: precheck_def split: if_splits manifest_read.splits option.splits)
  let ?maps = "checked_maps (ge_root E) manifest"
  let ?rs = "map (\<lambda>(files, hashes, base). check_files (ge_tree E) files hashes base) ?maps"
  from assms r have none: "concat (map fst ?rs) = []" and some: "sum_list (map snd ?rs) \<noteq> 0"
    by (auto simp: precheck_def Let_def split: if_splits)
  from none have "\<forall>(files, hashes, base) \<in> set ?maps. \<forall>kv \<in> set (entries files). verified_entry (ge_tree E) base hashes kv"
    by (auto simp: check_files_ok check_entry_verified)
  moreover from some have "\<exists>m \<in> set ?maps. (case m of (files, hashes, base) \<Rightarrow> entries files \<noteq> [])"
    by (auto simp: check_files_def split: prod.splits)
  ultimately show ?thesis using r by blast
qed


definition sample_manifest :: js where
  "sample_manifest = JObj [(''packages'', JObj [(''fw'', JObj [(''files'', JObj [(''server'', JStr ''vendor/fw/i.js'')]),
     (''hashes'', JObj [(''server'', JStr ''sha256:aa'')])])])]"

definition sample_gates :: gate_env where
  "sample_gates = \<lparr>ge_node = ''24.22.1'', ge_sea = False, ge_root = ''/r'', ge_manifest = ManifestText ''m'',
     ge_json = (\<lambda>_. Some sample_manifest),
     ge_tree = \<lparr>tr_digest = (\<lambda>base rel. if base = ''/r'' \<and> rel = ''vendor/fw/i.js'' then Some ''aa'' else None)\<rparr>,
     ge_kat = Some True, ge_integrity = Some True, ge_vendor_data = True\<rparr>"


text \<open>A package whose hashes are gone is skipped as long as another package keeps its own.\<close>

lemma stripped_package_unchecked:
  "\<not> has_both pkg \<Longrightarrow> entries (prop_at m ''packages'') = ps @ [(name, pkg)] \<Longrightarrow>
     entries (prop_at m' ''packages'') = ps \<Longrightarrow> checked_maps root m = checked_maps root m'"
  by (simp add: checked_maps_def)

end
