(* ===== verification/Daemon.thy ===== *)
theory Daemon
  imports Config Updater
begin

text \<open>
  The running daemon (\<open>lib/daemon.js\<close> and the closures \<open>cmdStart\<close> of \<open>lib/cli.js\<close> hands it): the PID file
  and the commands that read it, and the process as a machine over its events: signals, the phases of a
  shutdown, a reload, an update that is ready, a crash, an authentication failure. What an await answers
  is an event; any interleaving of them is a run.
\<close>

section \<open>The PID file\<close>

datatype pid_file = NoPidFile | PidRefused | PidText string

datatype life = Alive | Foreign | Gone   \<comment> \<open>what signal 0 answers: success, \<open>EPERM\<close>, another error\<close>

record pid_host =
  ph_life :: "int \<Rightarrow> life"
  ph_unlink_fails :: bool
  ph_windows :: bool

definition read_pid :: "pid_file \<Rightarrow> int option" where
  "read_pid f = (case f of
     PidText raw \<Rightarrow> (case map_option js_number (parse_int (js_trim raw)) of
       Some (JInt n) \<Rightarrow> if n > 0 then Some n else None | _ \<Rightarrow> None)
   | _ \<Rightarrow> None)"

definition is_running :: "pid_host \<Rightarrow> pid_file \<Rightarrow> int option \<times> pid_file" where
  "is_running P f = (case read_pid f of
     None \<Rightarrow> (None, f)
   | Some pid \<Rightarrow> (case ph_life P pid of
       Gone \<Rightarrow> (None, if ph_unlink_fails P then f else NoPidFile)
     | _ \<Rightarrow> (Some pid, f)))"

text \<open>The read-only probe: \<open>reply\<close> is what \<open>b.daemon.status\<close> returns, with the PID when it runs.\<close>

definition daemon_status :: "(bool \<times> int) option \<Rightarrow> int option" where
  "daemon_status reply = (case reply of Some (running, pid) \<Rightarrow> if running \<and> pid \<noteq> 0 then Some pid else None | None \<Rightarrow> None)"

text \<open>\<open>stop\<close>: what \<open>b.daemon.stop\<close> answers, whether a daemon was stopped, and the exit code.\<close>

datatype stop_reply = StopThrew | StopNoPidfile | StopStale int | StopDone int bool | StopOther

definition daemon_stop :: "stop_reply \<Rightarrow> bool \<times> int" where
  "daemon_stop r = (case r of StopThrew \<Rightarrow> (False, 1) | StopNoPidfile \<Rightarrow> (False, 0) | StopStale pid \<Rightarrow> (False, 0)
     | StopDone pid escalated \<Rightarrow> (True, 0) | StopOther \<Rightarrow> (True, 0))"

datatype lock_reply = LockTaken | LockHeld | LockFails

definition write_pid :: "lock_reply \<Rightarrow> int \<Rightarrow> pid_file \<Rightarrow> bool \<times> pid_file" where
  "write_pid r pid f = (case r of LockTaken \<Rightarrow> (True, PidText (int_str pid)) | _ \<Rightarrow> (False, f))"

definition remove_pid :: "pid_host \<Rightarrow> pid_file \<Rightarrow> pid_file" where
  "remove_pid P f = (if ph_unlink_fails P then f else NoPidFile)"

text \<open>\<open>daemonize\<close> after a successful spawn: the child is probed for a second, up to its first death; the exit
  code, and the PID file.\<close>

definition probe_child :: "life list \<Rightarrow> bool" where
  "probe_child probes \<longleftrightarrow> Gone \<notin> set probes"

datatype spawn_reply = SpawnRunning | SpawnThrew | Spawned int

definition daemonize :: "pid_host \<Rightarrow> spawn_reply \<Rightarrow> life list \<Rightarrow> pid_file \<Rightarrow> int option \<times> pid_file" where
  "daemonize P r probes f = (case r of
     SpawnRunning \<Rightarrow> (Some 1, f)
   | SpawnThrew \<Rightarrow> (None, f)
   | Spawned pid \<Rightarrow> (let f' = PidText (int_str pid) in
       if probe_child probes then (Some 0, f') else (Some 1, remove_pid P f')))"

definition cmd_status :: "(bool \<times> int) option \<Rightarrow> (load_error + config) option \<Rightarrow> int" where
  "cmd_status reply loaded = (case loaded of Some (Inl e) \<Rightarrow> 1
     | _ \<Rightarrow> if daemon_status reply = None then 3 else 0)"

datatype resync_result = SignalSent int | NotSupported | SignalFailed | StateCleared | ResyncDied

definition cmd_resync :: "pid_host \<Rightarrow> bool \<Rightarrow> load_error + config \<Rightarrow> pid_file \<Rightarrow> resync_result \<times> pid_file" where
  "cmd_resync P kill_fails loaded f = (case is_running P f of
     (Some pid, f') \<Rightarrow> (if ph_windows P then NotSupported else if kill_fails then SignalFailed else SignalSent pid, f')
   | (None, f') \<Rightarrow> (case loaded of Inl e \<Rightarrow> ResyncDied | Inr c \<Rightarrow> StateCleared, f'))"

section \<open>The process\<close>

text \<open>The shutdown closure: awaiting the notification, \<open>engine.stop\<close>, \<open>log.close\<close>; finished.\<close>

datatype closure_stage = Notifying | EngineStopping | LogClosing | ClosureOver

text \<open>The update closure: idle, awaiting \<open>engine.stop\<close>, installing (before and after the old
  image is moved aside, with the files from before), restarting after a failed install, closing the log before either exit.\<close>

datatype update_stage = UpIdle | UpStopping | UpInstalling | UpMoved files | UpRestarting | UpClosing | UpDraining

datatype act = Graceful | StopEngine | StartEngine | Reloaded | Resynced

record dm =
  dm_engine :: bool                  \<comment> \<open>the engine is started and not stopped\<close>
  dm_closure :: "closure_stage option"
  dm_drain :: bool                   \<comment> \<open>a phase was cut; the log is drained before the exit\<close>
  dm_crash :: bool
  dm_auth :: bool
  dm_up :: update_stage
  dm_pid :: pid_file
  dm_watchdog :: bool
  dm_updater :: updater
  dm_patterns :: "string list \<times> string list"
  dm_acts :: "act list"
  dm_exit :: "int option"

record dm_env =
  de_pid :: pid_host
  de_upd :: upd_host
  de_version :: string               \<comment> \<open>the version of the update that is ready\<close>
  de_hash :: string

datatype dm_event =
    Term | SentinelPoll bool | Hup cfg_host
  | NotifyDone bool                  \<comment> \<open>whether writing the marker then fails\<close>
  | EngineStopped | EngineStopThrew | LogClosed | PhaseCut | DrainDone | WallHit
  | Uncaught | CrashDrained | AuthError | AuthDrained
  | UpdateReady | UpEngineStopped | UpMoveAside | UpInstalled install_env
  | UpRestarted cfg_host bool        \<comment> \<open>the host \<open>config.load\<close> reads, and whether \<open>engine.start\<close> succeeds\<close>
  | UpLogClosed

definition shutting :: "dm \<Rightarrow> bool" where
  "shutting s \<longleftrightarrow> dm_closure s \<noteq> None"

definition do_act :: "act \<Rightarrow> dm \<Rightarrow> dm" where
  "do_act a s = s\<lparr>dm_acts := dm_acts s @ [a]\<rparr>"

definition drop_pid :: "dm_env \<Rightarrow> dm \<Rightarrow> dm" where
  "drop_pid D s = s\<lparr>dm_pid := remove_pid (de_pid D) (dm_pid s)\<rparr>"

definition exit_with :: "int \<Rightarrow> dm \<Rightarrow> dm" where
  "exit_with n s = s\<lparr>dm_exit := Some n\<rparr>"

definition begin_shutdown :: "dm \<Rightarrow> dm" where
  "begin_shutdown s = (if shutting s then s else s\<lparr>dm_closure := Some Notifying\<rparr>)"

text \<open>The reload callback: the patterns it would push, unless loading or a pattern file fails.\<close>

definition fresh_patterns :: "cfg_host \<Rightarrow> (string list \<times> string list) option" where
  "fresh_patterns H = (case load_config H of
     Inl e \<Rightarrow> None
   | Inr c \<Rightarrow> (case get_ignore_patterns H c of
       Inl e \<Rightarrow> None
     | Inr ig \<Rightarrow> (case get_include_patterns H c of Inl e \<Rightarrow> None | Inr inc \<Rightarrow> Some (ig, inc))))"

definition on_hup :: "cfg_host \<Rightarrow> dm \<Rightarrow> dm" where
  "on_hup H s = (if shutting s then s
     else do_act Resynced (case fresh_patterns H of
       Some p \<Rightarrow> do_act Reloaded (s\<lparr>dm_patterns := p\<rparr>) | None \<Rightarrow> s))"

text \<open>The end of the shutdown closure: the PID phase, then the exit; nothing more once the phase was cut.\<close>

definition closure_done :: "dm_env \<Rightarrow> dm \<Rightarrow> dm" where
  "closure_done D s = (let s = s\<lparr>dm_closure := Some ClosureOver\<rparr> in
     if dm_drain s then s else exit_with 0 (drop_pid D s))"

definition phase_cut :: "dm_env \<Rightarrow> dm \<Rightarrow> dm" where
  "phase_cut D s = (if dm_drain s then s else drop_pid D (s\<lparr>dm_drain := True\<rparr>))"

text \<open>An installation up to the moment \<open>swap\<close> has moved the old image aside and awaits the write of the new
  one; the rest of it; and a whole one, when nothing else lands at that await.\<close>

definition install_begun :: "dm_env \<Rightarrow> updater \<Rightarrow> updater" where
  "install_begun D u = unlink_path (backup_path (de_upd D))
     (write_marker (de_upd D) (de_version D) (backup_path (de_upd D)) (de_hash D) u)"

definition moved_aside :: "dm_env \<Rightarrow> updater \<Rightarrow> updater" where
  "moved_aside D u = (let H = de_upd D; u = install_begun D u in case u_files u (exec_path H) of
      None \<Rightarrow> u
    | Some old \<Rightarrow> u\<lparr>u_files := (u_files u)(exec_path H := None, backup_path H := Some old)\<rparr>)"

definition finish_install :: "dm_env \<Rightarrow> install_env \<Rightarrow> files \<Rightarrow> updater \<Rightarrow> bool \<times> updater" where
  "finish_install D E before u = (let H = de_upd D;
       (ok, fs) = swap H (ie_swap E) (ie_asset E) (exec_path H) (backup_path H) (de_hash D) before;
       u = u\<lparr>u_files := fs\<rparr>
     in if \<not> ok then (False, u)
        else (True, if ie_spawn_fails E then delete_marker u
          else u\<lparr>u_spawned := u_spawned u @ [u_files u (exec_path H)]\<rparr>))"

definition past_backup :: "dm_env \<Rightarrow> install_env \<Rightarrow> bool" where
  "past_backup D E \<longleftrightarrow> ie_swap E \<notin> {SwapReadFails, SwapBackupFails} \<and>
     (case ie_asset E of None \<Rightarrow> False | Some img \<Rightarrow> digest (de_upd D) img = de_hash D)"

definition installed :: "dm_env \<Rightarrow> bool \<times> updater \<Rightarrow> dm \<Rightarrow> dm" where
  "installed D r s = (case r of
     (True, u) \<Rightarrow> drop_pid D (s\<lparr>dm_updater := u, dm_up := UpClosing\<rparr>)
   | (False, u) \<Rightarrow> s\<lparr>dm_updater := u, dm_up := UpRestarting\<rparr>)"

definition restarted :: "dm_env \<Rightarrow> cfg_host \<Rightarrow> bool \<Rightarrow> dm \<Rightarrow> dm" where
  "restarted D H ok s = (case fresh_patterns H of
     Some p \<Rightarrow> if ok then do_act StartEngine (s\<lparr>dm_patterns := p, dm_engine := True, dm_watchdog := True, dm_up := UpIdle\<rparr>)
               else drop_pid D (s\<lparr>dm_up := UpDraining\<rparr>)
   | None \<Rightarrow> drop_pid D (s\<lparr>dm_up := UpDraining\<rparr>))"

definition closure_step :: "dm_env \<Rightarrow> dm_event \<Rightarrow> closure_stage \<Rightarrow> dm \<Rightarrow> dm" where
  "closure_step D e c s = (case e of
     NotifyDone fails \<Rightarrow> if c = Notifying
       then do_act StopEngine (do_act Graceful (s\<lparr>dm_watchdog := False, dm_closure := Some EngineStopping,
              dm_updater := mark_graceful_shutdown (de_upd D) fails (dm_updater s)\<rparr>)) else s
   | EngineStopped \<Rightarrow> if c = EngineStopping then s\<lparr>dm_engine := False, dm_closure := Some LogClosing\<rparr> else s
   | EngineStopThrew \<Rightarrow> if c = EngineStopping then phase_cut D (s\<lparr>dm_closure := Some ClosureOver\<rparr>) else s
   | LogClosed \<Rightarrow> if c = LogClosing then closure_done D s else s
   | PhaseCut \<Rightarrow> if c \<noteq> ClosureOver then phase_cut D s else s
   | DrainDone \<Rightarrow> if dm_drain s then exit_with 0 s else s
   | WallHit \<Rightarrow> if dm_drain s then s else exit_with 1 s
   | _ \<Rightarrow> s)"

definition update_step :: "dm_env \<Rightarrow> dm_event \<Rightarrow> dm \<Rightarrow> dm" where
  "update_step D e s = (case (e, dm_up s) of
     (UpdateReady, UpIdle) \<Rightarrow> do_act StopEngine (s\<lparr>dm_watchdog := False, dm_up := UpStopping\<rparr>)
   | (UpEngineStopped, UpStopping) \<Rightarrow> s\<lparr>dm_engine := False, dm_up := UpInstalling\<rparr>
   | (UpMoveAside, UpInstalling) \<Rightarrow>
       s\<lparr>dm_updater := moved_aside D (dm_updater s), dm_up := UpMoved (u_files (install_begun D (dm_updater s)))\<rparr>
   | (UpInstalled E, UpInstalling) \<Rightarrow>
       installed D (perform_install (de_upd D) E (de_version D) (de_hash D) (dm_updater s)) s
   | (UpInstalled E, UpMoved before) \<Rightarrow>
       if past_backup D E then installed D (finish_install D E before (dm_updater s)) s else s
   | (UpRestarted H ok, UpRestarting) \<Rightarrow> restarted D H ok s
   | (UpLogClosed, UpClosing) \<Rightarrow> exit_with 0 s
   | (UpLogClosed, UpDraining) \<Rightarrow> exit_with 1 s
   | _ \<Rightarrow> s)"

definition dm_step :: "dm_env \<Rightarrow> dm \<Rightarrow> dm_event \<Rightarrow> dm" where
  "dm_step D s e =
     (if dm_exit s \<noteq> None then s
      else case e of
        Term \<Rightarrow> begin_shutdown s
      | SentinelPoll present \<Rightarrow> if ph_windows (de_pid D) \<and> present then begin_shutdown s else s
      | Hup H \<Rightarrow> if ph_windows (de_pid D) then s else on_hup H s
      | Uncaught \<Rightarrow> drop_pid D (s\<lparr>dm_crash := True\<rparr>)
      | CrashDrained \<Rightarrow> if dm_crash s then exit_with 1 s else s
      | AuthError \<Rightarrow> drop_pid D (s\<lparr>dm_auth := True\<rparr>)
      | AuthDrained \<Rightarrow> if dm_auth s then exit_with 1 s else s
      | _ \<Rightarrow> update_step D e (case dm_closure s of None \<Rightarrow> s | Some c \<Rightarrow> closure_step D e c s))"

definition dm_run :: "dm_env \<Rightarrow> dm \<Rightarrow> dm_event list \<Rightarrow> dm" where
  "dm_run D = foldl (dm_step D)"

definition daemon_up :: "pid_file \<Rightarrow> updater \<Rightarrow> string list \<times> string list \<Rightarrow> dm" where
  "daemon_up f u p = \<lparr>dm_engine = True, dm_closure = None, dm_drain = False, dm_crash = False, dm_auth = False,
     dm_up = UpIdle, dm_pid = f, dm_watchdog = True, dm_updater = u, dm_patterns = p, dm_acts = [], dm_exit = None\<rparr>"

end
