(* ===== verification/Daemon_Safety.thy ===== *)
theory Daemon_Safety
  imports Daemon Updater_Safety
begin

text \<open>
  What the running daemon guarantees over every interleaving of its events: it never idles with a dead
  engine, a shutdown runs once and nothing reloads behind it, a clean stop is on record before the engine
  is drained, so the next boot does not roll back; and what a stop during an installation can do.
\<close>

section \<open>Invariants of runs\<close>

text \<open>An invariant of the machine: kept by every event of a class.\<close>

locale daemon_invariant =
  fixes D :: dm_env and ok :: "dm_event \<Rightarrow> bool" and P :: "dm \<Rightarrow> bool"
  assumes step: "P s \<Longrightarrow> ok e \<Longrightarrow> P (dm_step D s e)"
begin

lemma run: "P s \<Longrightarrow> \<forall>e \<in> set es. ok e \<Longrightarrow> P (dm_run D s es)"
  by (induction es arbitrary: s) (auto simp: dm_run_def step)

end

lemmas dm_defs = dm_step_def closure_step_def update_step_def begin_shutdown_def on_hup_def do_act_def drop_pid_def
  exit_with_def phase_cut_def closure_done_def installed_def restarted_def shutting_def Let_def

text \<open>An installation that is not interrupted is the two halves one after the other.\<close>

lemma perform_install_halves:
  "perform_install (de_upd D) E (de_version D) (de_hash D) u =
     (if ie_marker_fails E then (False, u) else finish_install D E (u_files (install_begun D u)) (install_begun D u))"
  by (simp add: perform_install_def finish_install_def install_begun_def Let_def)

section \<open>Never idle\<close>

definition busy :: "dm \<Rightarrow> bool" where
  "busy s \<longleftrightarrow> dm_engine s \<or> dm_closure s \<noteq> None \<or> dm_crash s \<or> dm_auth s \<or> dm_up s \<noteq> UpIdle"

interpretation busy: daemon_invariant D "\<lambda>_. True" busy
proof unfold_locales
  fix s e
  assume "busy s"
  then show "busy (dm_step D s e)"
    by (cases e) (auto simp: dm_defs busy_def split: option.splits update_stage.splits prod.splits bool.splits)
qed

lemma busy_start: "busy (daemon_up f u p)"
  by (simp add: busy_def daemon_up_def)

text \<open>Over every interleaving of signals, reloads, updates, failures and answers, a daemon that has not
  exited syncs, or a shutdown, an update or a final log drain is under way: it never stays up with
  a stopped engine and nothing left to happen.\<close>

theorem daemon_never_idle:
  "dm_exit (dm_run D (daemon_up f u p) es) \<noteq> None \<or> busy (dm_run D (daemon_up f u p) es)"
  by (rule disjI2, rule busy.run) (simp_all add: busy_start)

section \<open>One shutdown, and nothing behind it\<close>

definition reload_acts :: "dm \<Rightarrow> act list" where
  "reload_acts s = filter (\<lambda>a. a = Reloaded \<or> a = Resynced) (dm_acts s)"

definition gracefuls :: "dm \<Rightarrow> nat" where
  "gracefuls s = length (filter (\<lambda>a. a = Graceful) (dm_acts s))"

definition due :: "closure_stage option \<Rightarrow> nat" where
  "due c = (case c of None \<Rightarrow> 0 | Some c \<Rightarrow> if c = Notifying then 0 else 1)"

text \<open>The shutdown closure ran up to the engine's stop at most once, and its mark came first.\<close>

definition once :: "dm \<Rightarrow> bool" where
  "once s \<longleftrightarrow> gracefuls s = due (dm_closure s)"

text \<open>What the update closure leaves alone.\<close>

lemma installed_frame [simp]:
  "dm_closure (installed D r s) = dm_closure s" "dm_acts (installed D r s) = dm_acts s"
  "dm_updater (installed D r s) = snd r" "dm_exit (installed D r s) = dm_exit s" "dm_drain (installed D r s) = dm_drain s"
  by (simp_all add: installed_def drop_pid_def split: prod.split bool.split)

lemma restarted_frame [simp]:
  "dm_closure (restarted D H ok s) = dm_closure s" "dm_updater (restarted D H ok s) = dm_updater s"
  "gracefuls (restarted D H ok s) = gracefuls s" "reload_acts (restarted D H ok s) = reload_acts s"
  by (auto simp: restarted_def drop_pid_def do_act_def gracefuls_def reload_acts_def split: option.split)

lemma update_step_frame [simp]:
  "dm_closure (update_step D e s) = dm_closure s"
  "gracefuls (update_step D e s) = gracefuls s" "reload_acts (update_step D e s) = reload_acts s"
  by (cases e; cases "dm_up s"; simp add: update_step_def do_act_def exit_with_def;
      simp add: gracefuls_def reload_acts_def)+

lemma closure_step_once:
  "gracefuls s = due (dm_closure s) \<Longrightarrow> dm_closure s = Some c \<Longrightarrow>
     gracefuls (closure_step D e c s) = due (dm_closure (closure_step D e c s))"
  by (cases e; cases c)
    (simp_all add: closure_step_def phase_cut_def closure_done_def drop_pid_def exit_with_def do_act_def due_def gracefuls_def Let_def)

interpretation once: daemon_invariant D "\<lambda>_. True" once
proof unfold_locales
  fix s e
  assume o: "once s"
  then have "once (update_step D e (case dm_closure s of None \<Rightarrow> s | Some c \<Rightarrow> closure_step D e c s))"
    using closure_step_once by (auto simp: once_def split: option.split)
  with o show "once (dm_step D s e)"
    by (cases e) (auto simp: dm_step_def once_def begin_shutdown_def on_hup_def do_act_def drop_pid_def exit_with_def
        shutting_def gracefuls_def due_def split: option.splits)
qed

interpretation closing: daemon_invariant D "\<lambda>_. True" "\<lambda>s. shutting s \<and> reload_acts s = acts"
proof unfold_locales
  fix s e
  assume a: "shutting s \<and> reload_acts s = acts"
  then obtain c where c: "dm_closure s = Some c" by (auto simp: shutting_def)
  then have "dm_closure (closure_step D e c s) \<noteq> None" "reload_acts (closure_step D e c s) = reload_acts s"
    by (cases e; simp add: closure_step_def phase_cut_def closure_done_def drop_pid_def exit_with_def do_act_def reload_acts_def
        Let_def)+
  with a c show "shutting (dm_step D s e) \<and> reload_acts (dm_step D s e) = acts"
    by (cases e; simp add: dm_step_def begin_shutdown_def on_hup_def drop_pid_def exit_with_def shutting_def;
        simp add: reload_acts_def)
qed

text \<open>An exit with code 0 is the end of a shutdown or of an update that was installed.\<close>

definition exit_earned :: "dm \<Rightarrow> bool" where
  "exit_earned s \<longleftrightarrow> (dm_exit s = Some 0 \<longrightarrow> dm_closure s = Some ClosureOver \<or> dm_drain s \<or> dm_up s = UpClosing)"

interpretation earned: daemon_invariant D "\<lambda>_. True" exit_earned
proof unfold_locales
  fix s e
  assume "exit_earned s"
  then show "exit_earned (dm_step D s e)"
    by (cases e) (auto simp: dm_defs exit_earned_def split: option.splits update_stage.splits prod.splits bool.splits)
qed

lemma start_ok: "once (daemon_up f u p)" "exit_earned (daemon_up f u p)"
  by (simp_all add: once_def due_def gracefuls_def exit_earned_def daemon_up_def)

lemma run_append: "dm_run D s (es @ es') = dm_run D (dm_run D s es) es'"
  by (simp add: dm_run_def)


section \<open>A clean stop is on record\<close>

definition recorded :: "dm_env \<Rightarrow> dm \<Rightarrow> bool" where
  "recorded D s \<longleftrightarrow> (dm_closure s \<in> {None, Some Notifying} \<or>
     (case u_marker (dm_updater s) of None \<Rightarrow> True | Some m \<Rightarrow> mk_version m \<noteq> this_version (de_upd D) \<or> mk_graceful m))"

lemma finish_install_marker:
  "u_marker (snd (finish_install D E before u)) \<in> {None, u_marker u}"
  by (auto simp: finish_install_def Let_def delete_marker_def split: prod.split)

lemma finish_install_keeps: "u_marker (snd (finish_install D E before u)) = Some m \<Longrightarrow> u_marker u = Some m"
  using finish_install_marker [of D E before u] by auto

lemma install_begun_marker:
  "\<exists>m. u_marker (install_begun D u) = Some m \<and> mk_version m = de_version D"
  by (simp add: install_begun_def unlink_path_def write_marker_def)

lemma moved_aside_marker: "u_marker (moved_aside D u) = u_marker (install_begun D u)"
  by (simp add: moved_aside_def Let_def split: option.split)

lemma install_marker:
  "u_marker (snd (perform_install (de_upd D) E (de_version D) (de_hash D) u)) \<in>
     {None, u_marker u, u_marker (install_begun D u)}"
  using finish_install_marker [of D E "u_files (install_begun D u)" "install_begun D u"]
  by (auto simp: perform_install_halves)

lemma graceful_marker:
  "u_marker (mark_graceful_shutdown H False u) = Some m \<Longrightarrow> mk_version m = this_version H \<Longrightarrow> mk_graceful m"
  by (auto simp: mark_graceful_shutdown_def split: option.splits if_splits)

definition marker_written :: "dm_event \<Rightarrow> bool" where
  "marker_written e \<longleftrightarrow> e \<noteq> NotifyDone True"

lemma update_step_marker:
  "u_marker (dm_updater (update_step D e s)) \<in>
     {None, u_marker (dm_updater s), u_marker (install_begun D (dm_updater s))}"
  using install_marker [of D _ "dm_updater s"]
  by (cases e; cases "dm_up s")
    (auto simp: update_step_def do_act_def exit_with_def moved_aside_marker, metis finish_install_keeps)

lemma recorded_step:
  assumes r: "recorded D s" and e: "marker_written e" and v: "de_version D \<noteq> this_version (de_upd D)"
  shows "recorded D (dm_step D s e)"
proof -
  have update: "recorded D (update_step D e t)" if "recorded D t" for t
    using that update_step_marker [of D e t] install_begun_marker [of D "dm_updater t"] v
    by (auto simp: recorded_def)
  have "recorded D (closure_step D e c s)" if "dm_closure s = Some c" for c
    using r e that
    by (cases e; cases c)
      (auto simp: closure_step_def phase_cut_def closure_done_def drop_pid_def exit_with_def do_act_def recorded_def
        marker_written_def Let_def dest: graceful_marker split: option.splits)
  then have "recorded D (update_step D e (case dm_closure s of None \<Rightarrow> s | Some c \<Rightarrow> closure_step D e c s))"
    using r by (auto intro!: update split: option.split)
  with r show ?thesis
    by (cases e) (auto simp: dm_step_def begin_shutdown_def on_hup_def do_act_def drop_pid_def exit_with_def shutting_def
        recorded_def split: option.splits)
qed

interpretation recorded: daemon_invariant D marker_written
  "\<lambda>s. de_version D \<noteq> this_version (de_upd D) \<longrightarrow> recorded D s"
  by unfold_locales (blast intro: recorded_step)

text \<open>Property C11: once the shutdown of a running daemon has begun to stop the engine, the stop is on record:
  the next boot of the same version never rolls it back, however long the drain takes, whatever cuts
  it, and even if an update is being installed meanwhile. (The marker can be written.)\<close>

theorem clean_stop_never_rolls_back:
  assumes "de_version D \<noteq> this_version (de_upd D)" and "\<forall>e \<in> set es. marker_written e"
    and "dm_closure (dm_run D (daemon_up f u p) es) \<notin> {None, Some Notifying}"
    and "this_version H = this_version (de_upd D)"
  shows "fst (check_rollback H E (dm_updater (dm_run D (daemon_up f u p) es))) \<notin> {RolledBack, RollbackFailed}"
proof -
  let ?s = "dm_run D (daemon_up f u p) es"
  have "recorded D (daemon_up f u p)" by (simp add: recorded_def daemon_up_def)
  with recorded.run [of D "daemon_up f u p" es] assms have "recorded D ?s" by simp
  with assms show ?thesis
    by (auto simp: recorded_def check_rollback_def split: option.splits if_splits)
qed

definition sample_daemon :: dm_env where
  "sample_daemon = \<lparr>de_pid = \<lparr>ph_life = (\<lambda>_. Alive), ph_unlink_fails = False, ph_windows = False\<rparr>,
     de_upd = \<lparr>digest = id, verify_sig = (\<lambda>_ _. None), windows = False, exec_path = ''/x'', this_version = ''1'',
       probation_ms = 10, now_ms = 100\<rparr>, de_version = ''2'', de_hash = ''new''\<rparr>"

definition on_probation :: updater where
  "on_probation = \<lparr>u_files = [''/x'' \<mapsto> ''old''], u_marker = Some \<lparr>mk_version = ''1'', mk_prev = ''/x.prev'',
     mk_installed = Some 5, mk_graceful = False, mk_hash = []\<rparr>, u_spawned = [], u_timer = False\<rparr>"

definition calm_rollback :: rollback_env where
  "calm_rollback = \<lparr>re_hash_fails = False, re_read_fails = False, re_write_fails = False, re_away_fails = False,
     re_back_fails = False, re_cross_device = False, re_copy_fails = False, re_undo_fails = False, re_respawn_fails = False\<rparr>"

lemma clean_stop_never_rolls_back_witness:
  "fst (check_rollback (de_upd sample_daemon) calm_rollback
     (dm_updater (dm_run sample_daemon (daemon_up (PidText ''7'') on_probation ([], [])) [Term, NotifyDone False, PhaseCut])))
   \<notin> {RolledBack, RollbackFailed}"
  by (rule clean_stop_never_rolls_back)
    (code_simp, simp add: marker_written_def, code_simp, rule refl)


section \<open>What goes wrong\<close>

text \<open>The shutdown does not wait for an installation: a stop that lands while the new image is being written
  exits with the old one moved aside and nothing at the executable's path.\<close>

definition stop_mid_install :: "dm_event list" where
  "stop_mid_install = [UpdateReady, UpEngineStopped, UpMoveAside, Term, NotifyDone False, EngineStopped, LogClosed]"

theorem stop_mid_install_loses_executable:
  assumes "dm_closure s = None" "dm_up s = UpIdle" "dm_exit s = None" "\<not> dm_drain s"
    and "u_files (dm_updater s) (exec_path (de_upd D)) = Some old"
    and "exec_path (de_upd D) \<noteq> backup_path (de_upd D)"
  shows "dm_exit (dm_run D s stop_mid_install) = Some 0 \<and>
    u_files (dm_updater (dm_run D s stop_mid_install)) (exec_path (de_upd D)) = None"
  using assms
  by (simp add: stop_mid_install_def dm_run_def dm_step_def update_step_def closure_step_def begin_shutdown_def do_act_def
      exit_with_def drop_pid_def closure_done_def shutting_def moved_aside_def install_begun_def unlink_path_def write_marker_def
      mark_graceful_shutdown_def Let_def split: option.split)

text \<open>The update closure does not look at the shutdown either: a failed install starts the engine again
  behind the stop.\<close>

lemma engine_restarted_behind_stop:
  assumes "dm_closure s = Some LogClosing" "dm_up s = UpRestarting" "dm_exit s = None" "fresh_patterns H = Some p"
  shows "dm_engine (dm_step D s (UpRestarted H True)) \<and> shutting (dm_step D s (UpRestarted H True))"
  using assms by (simp add: dm_step_def closure_step_def update_step_def restarted_def do_act_def shutting_def)

end
