(* ===== verification/Keychain.thy ===== *)
theory Keychain
  imports Exn_Monad Js_Value
begin

text \<open>
  Where the API key is kept (\<open>lib/keychain.js\<close>): the operating system's store under a service name, or
  a file that only its owner can read. The native tools are a parameter: reachable, failing, or absent.
  A failing lookup throws on some platforms; \<open>secret-tool\<close> reports it like a missing entry.
\<close>

section \<open>The stores\<close>

datatype cred_file = NoFile | SymbolicLink | Regular string nat   \<comment> \<open>text and permission bits\<close>

record vault =
  va_native :: "string \<Rightarrow> string option"
  va_file :: cred_file

datatype native = NativeUp | NativeFails | NativeAbsent

record kc_host =
  kc_native :: native
  kc_lookup_throws :: bool      \<comment> \<open>a failing lookup throws, or is a miss\<close>
  kc_tool_found :: bool         \<comment> \<open>\<open>_nativeBackendPresent\<close>\<close>
  kc_windows :: bool
  kc_unlink_fails :: bool

datatype key_selection = InKeychain string | InFile

definition default_service :: string where
  "default_service = ''hermitstash-sync''"

definition parse_api_key_ref :: "js \<Rightarrow> key_selection" where
  "parse_api_key_ref ref = (case ref of
     JStr r \<Rightarrow>
       if starts_with r ''keychain:'' then
         (let service = js_trim (drop 9 r) in InKeychain (if service = [] then default_service else service))
       else if r = ''keychain'' then InKeychain default_service
       else if r = ''file'' then InFile
       else InKeychain default_service
   | _ \<Rightarrow> InKeychain default_service)"

section \<open>Storing\<close>

datatype storage = StoredNative | StoredFile

definition owner_only :: nat where
  "owner_only = 384"    \<comment> \<open>\<open>0o600\<close>\<close>

definition write_key_file :: "string \<Rightarrow> vault \<Rightarrow> vault" where
  "write_key_file key v = v\<lparr>va_file := Regular key owner_only\<rparr>"

definition drop_key_file :: "kc_host \<Rightarrow> vault \<Rightarrow> vault" where
  "drop_key_file K v = (if kc_unlink_fails K then v else v\<lparr>va_file := NoFile\<rparr>)"

text \<open>The framework stores nothing for an empty key: it throws, like an unreachable store.\<close>

definition store_key :: "kc_host \<Rightarrow> string \<Rightarrow> js \<Rightarrow> vault \<Rightarrow> storage \<times> vault" where
  "store_key K key ref v = (case parse_api_key_ref ref of
     InKeychain service \<Rightarrow>
       if kc_native K = NativeUp \<and> key \<noteq> []
       then (StoredNative, drop_key_file K (v\<lparr>va_native := (va_native v)(service := Some key)\<rparr>))
       else (StoredFile, write_key_file key v)
   | InFile \<Rightarrow> (StoredFile, write_key_file key v))"

section \<open>Retrieving\<close>

datatype file_refusal = FileAbsent | FileSymlink | FileTooLarge | FileExposed

definition other_bits :: "nat \<Rightarrow> bool" where
  "other_bits mode \<longleftrightarrow> mode mod 64 \<noteq> 0"    \<comment> \<open>\<open>mode & 0o077\<close>\<close>

definition max_key_file :: int where
  "max_key_file = 64 * 1024"

definition read_file_fallback :: "kc_host \<Rightarrow> cred_file \<Rightarrow> file_refusal + string" where
  "read_file_fallback K f = (case f of
     NoFile \<Rightarrow> Inl FileAbsent
   | SymbolicLink \<Rightarrow> Inl FileSymlink
   | Regular text mode \<Rightarrow>
       if int (length text) > max_key_file then Inl FileTooLarge
       else if \<not> kc_windows K \<and> other_bits mode then Inl FileExposed
       else Inr (js_trim text))"

datatype native_reply = NativeKey string | NativeMiss | NativeThrew

definition native_lookup :: "kc_host \<Rightarrow> string \<Rightarrow> vault \<Rightarrow> native_reply" where
  "native_lookup K service v = (case kc_native K of
     NativeUp \<Rightarrow> (case va_native v service of None \<Rightarrow> NativeMiss | Some k \<Rightarrow> if k = [] then NativeMiss else NativeKey k)
   | NativeFails \<Rightarrow> if kc_lookup_throws K then NativeThrew else NativeMiss
   | NativeAbsent \<Rightarrow> NativeMiss)"

datatype key_result = Found string | NoKey | Unreachable string | KeyRefused file_refusal

text \<open>After the native lookup: the file, and the verdict when there is none.\<close>

definition key_from_file :: "kc_host \<Rightarrow> key_result \<Rightarrow> vault \<Rightarrow> key_result" where
  "key_from_file K missing v = (case read_file_fallback K (va_file v) of
     Inr key \<Rightarrow> Found key
   | Inl FileAbsent \<Rightarrow> missing
   | Inl r \<Rightarrow> KeyRefused r)"

definition retrieve_detailed :: "kc_host \<Rightarrow> js \<Rightarrow> vault \<Rightarrow> key_result" where
  "retrieve_detailed K ref v = (case parse_api_key_ref ref of
     InFile \<Rightarrow> key_from_file K NoKey v
   | InKeychain service \<Rightarrow> (case native_lookup K service v of
       NativeKey key \<Rightarrow> Found key
     | NativeThrew \<Rightarrow> key_from_file K (Unreachable service) v
     | NativeMiss \<Rightarrow> key_from_file K (if kc_tool_found K then NoKey else Unreachable service) v))"

definition retrieve_key :: "kc_host \<Rightarrow> js \<Rightarrow> vault \<Rightarrow> file_refusal + string option" where
  "retrieve_key K ref v = (case retrieve_detailed K ref v of
     Found key \<Rightarrow> Inr (Some key) | KeyRefused r \<Rightarrow> Inl r | _ \<Rightarrow> Inr None)"

definition remove_key :: "kc_host \<Rightarrow> js \<Rightarrow> vault \<Rightarrow> vault" where
  "remove_key K ref v =
     (case parse_api_key_ref ref of
        InKeychain service \<Rightarrow> if kc_native K = NativeUp then v\<lparr>va_native := (va_native v)(service := None)\<rparr> else v
      | InFile \<Rightarrow> v)\<lparr>va_file := NoFile\<rparr>"

section \<open>Lemmas\<close>

lemma owner_only_ok: "\<not> other_bits owner_only"
  by (simp add: other_bits_def owner_only_def)

text \<open>A key that the file gives back unchanged.\<close>

definition plain_key :: "string \<Rightarrow> bool" where
  "plain_key k \<longleftrightarrow> k \<noteq> [] \<and> js_trim k = k \<and> int (length k) \<le> max_key_file"

lemma file_gives_key: "plain_key k \<Longrightarrow> key_from_file K m (write_key_file k v) = Found k"
  by (simp add: key_from_file_def write_key_file_def read_file_fallback_def plain_key_def owner_only_ok)

text \<open>The reference that \<open>saveSyncConfig\<close> and the default configuration use for a storage.\<close>

definition ref_for :: "storage \<Rightarrow> js" where
  "ref_for s = JStr (if s = StoredNative then ''keychain:hermitstash-sync'' else ''file'')"

lemma parse_ref_for [simp]:
  "parse_api_key_ref (ref_for StoredNative) = InKeychain default_service"
  "parse_api_key_ref (ref_for StoredFile) = InFile"
  "parse_api_key_ref JUndef = InKeychain default_service"
  by code_simp+

text \<open>A key never comes out of a link, an oversized file or one that others can read.\<close>

lemma file_key_private:
  assumes "key_from_file K m v = Found k" and "m \<noteq> Found k"
  shows "\<exists>text mode. va_file v = Regular text mode \<and> (kc_windows K \<or> \<not> other_bits mode) \<and> k = js_trim text"
  using assms by (auto simp: key_from_file_def read_file_fallback_def split: cred_file.splits if_splits sum.splits file_refusal.splits)

text \<open>After a native store that could remove the file, the key is in one place only.\<close>

lemma stored_once:
  "store_key K key ref v = (StoredNative, v') \<Longrightarrow> \<not> kc_unlink_fails K \<Longrightarrow> va_file v' = NoFile"
  by (auto simp: store_key_def drop_key_file_def split: key_selection.splits if_splits)

text \<open>A reachable store and the file are both cleared.\<close>

lemma removed_key_gone:
  "kc_native K = NativeUp \<Longrightarrow> kc_tool_found K \<Longrightarrow> retrieve_detailed K ref (remove_key K ref v) = NoKey"
  by (simp add: remove_key_def retrieve_detailed_def native_lookup_def key_from_file_def read_file_fallback_def
      split: key_selection.split)

section \<open>What goes wrong\<close>

text \<open>A key stored under a fixed reference (\<open>repair\<close>) while the native store fails goes to the file; the
  native entry it replaces stays, and is what a later lookup returns.\<close>

lemma repaired_key_shadowed:
  assumes "parse_api_key_ref ref = InKeychain service" and "kc_native K \<noteq> NativeUp"
    and "va_native v service = Some old" and "old \<noteq> []"
  shows "retrieve_detailed (K\<lparr>kc_native := NativeUp\<rparr>) ref (snd (store_key K key ref v)) = Found old"
  using assms by (simp add: store_key_def retrieve_detailed_def native_lookup_def write_key_file_def)

lemma repaired_key_shadowed_witness:
  "retrieve_detailed \<lparr>kc_native = NativeUp, kc_lookup_throws = False, kc_tool_found = True, kc_windows = False,
       kc_unlink_fails = False\<rparr> (JStr ''keychain:hs'')
     (snd (store_key \<lparr>kc_native = NativeFails, kc_lookup_throws = False, kc_tool_found = True, kc_windows = False,
       kc_unlink_fails = False\<rparr> ''new'' (JStr ''keychain:hs'') \<lparr>va_native = [''hs'' \<mapsto> ''old''], va_file = NoFile\<rparr>)) =
   Found ''old''"
  using repaired_key_shadowed [of "JStr ''keychain:hs''" "''hs''"
      "\<lparr>kc_native = NativeFails, kc_lookup_throws = False, kc_tool_found = True, kc_windows = False, kc_unlink_fails = False\<rparr>"
      "\<lparr>va_native = [''hs'' \<mapsto> ''old''], va_file = NoFile\<rparr>" "''old''" "''new''"]
  by (simp add: parse_api_key_ref_def js_trim_def js_space_def is_space_def Let_def)

text \<open>A store that fails without throwing is reported as holding no key.\<close>

lemma failing_lookup_reads_as_no_key:
  assumes "parse_api_key_ref ref = InKeychain service" and "kc_native K = NativeFails"
    and "\<not> kc_lookup_throws K" and "kc_tool_found K" and "va_file v = NoFile"
  shows "retrieve_detailed K ref v = NoKey"
  using assms by (simp add: retrieve_detailed_def native_lookup_def key_from_file_def read_file_fallback_def)

end
