(* ===== verification/Enrollment.thy ===== *)
theory Enrollment
  imports Config_Safety Keychain Http_Requests
begin

text \<open>
  Setting a client up (\<open>lib/cli.js\<close>): exchanging the one-time enrollment code, writing the client
  certificate, choosing the pin of tunnel mode, storing the key and saving the configuration; the
  unattended and the interactive \<open>init\<close>, and \<open>repair\<close>. What the user types, the server answers and the
  disk refuses is a parameter. Printing and the prompts' own handling are left out.
\<close>

section \<open>The machine being set up\<close>

record setup_world =
  sw_vault :: vault
  sw_files :: "path \<Rightarrow> string option"
  sw_dirs :: "path set"
  sw_config :: "props option"     \<comment> \<open>what \<open>config.json\<close> holds\<close>
  sw_codes :: "string list"       \<comment> \<open>the codes that were sent\<close>

datatype setup_error =
    BadServerUrl | PlaintextEnroll | TransportFailed string | ServerRefused string | InvalidResponse
  | IncompleteCerts nat | TypeFault | DiskFault path | NoPinUnattended | ProbeFailed string | PinNotConfirmed
  | ConfigErrors "config_error list" | MissingVars "string list" | NoApiKey | ApiKeyRequired | CodeRequired
  | LoadFailed load_error

type_synonym 'a cli = "(setup_world, setup_error, 'a) prog"

text \<open>
  \<open>se_host\<close> gives the environment and the parsers; its file system is replaced by the world's.
  \<open>se_url_host\<close> is a URL's host with its port, \<open>se_reply\<close> what the request to a URL with a code answers,
  \<open>se_text\<close> the text \<open>JSON.stringify\<close> gives for a configuration.
\<close>

record setup_env =
  se_host :: cfg_host
  se_url_host :: "string \<Rightarrow> string"
  se_reply :: "string \<Rightarrow> string \<Rightarrow> framework_reply"
  se_text :: "props \<Rightarrow> string"
  se_keychain :: kc_host
  se_config_dir :: path
  se_home :: path
  se_resolve :: "string \<Rightarrow> path"
  se_disk_fails :: "path \<Rightarrow> bool"
  se_probe :: "string \<Rightarrow> string + string"
  se_pin_answer :: string

definition world_exists :: "setup_world \<Rightarrow> path \<Rightarrow> bool" where
  "world_exists w p \<longleftrightarrow> p \<in> sw_dirs w \<or> sw_files w p \<noteq> None"

text \<open>The host that \<open>config.js\<close> sees on a machine, with the variables of its process.\<close>

definition host_on :: "setup_env \<Rightarrow> (string \<Rightarrow> string option) \<Rightarrow> setup_world \<Rightarrow> cfg_host" where
  "host_on E vars w = (se_host E)\<lparr>host_env := vars, host_exists := world_exists w,
     host_read := (\<lambda>p. if p = host_config_file (se_host E)
       then (case sw_config w of None \<Rightarrow> FileMissing | Some ps \<Rightarrow> FileText (se_text E ps)) else FileMissing)\<rparr>"

abbreviation vars :: "setup_env \<Rightarrow> string \<Rightarrow> string option" where "vars E \<equiv> host_env (se_host E)"

definition var_or_empty :: "setup_env \<Rightarrow> string \<Rightarrow> string" where
  "var_or_empty E name = (case vars E name of None \<Rightarrow> [] | Some v \<Rightarrow> v)"

section \<open>The exchange\<close>

definition upper_char :: "char \<Rightarrow> char" where
  "upper_char c = (if (97 :: nat) \<le> of_char c \<and> of_char c \<le> (122 :: nat) then char_of (of_char c - 32 :: nat) else c)"

definition normal_code :: "string \<Rightarrow> string" where
  "normal_code code = map upper_char (js_trim code)"

definition enroll_url :: "setup_env \<Rightarrow> string \<Rightarrow> string \<Rightarrow> string" where
  "enroll_url E protocol server = protocol @ ''//'' @ se_url_host E server @ ''/sync/enroll''"

definition or_text :: "string \<Rightarrow> string \<Rightarrow> string" where
  "or_text s d = (if s \<noteq> [] then s else d)"

definition enroll_answer :: "json_parser \<Rightarrow> framework_reply \<Rightarrow> setup_error + js" where
  "enroll_answer parse reply = (case reply of
     Thrown ours status code msg \<Rightarrow>
       (case status of
          Some n \<Rightarrow>
            if ours \<and> n \<noteq> 0 \<and> code = Some ''http-client/http-error''
            then Inl (ServerRefused (or_text (error_text (safe_parse parse (status_error_body n msg)) False)
                   (''Server returned status '' @ int_str n)))
            else Inl (TransportFailed msg)
        | None \<Rightarrow> Inl (TransportFailed msg))
   | Resolved _ body \<Rightarrow> (case parse body of
       None \<Rightarrow> Inl InvalidResponse
     | Some data \<Rightarrow>
         if \<not> js_truthy data \<or> \<not> js_truthy (field data ''success'')
         then Inl (ServerRefused (or_text (error_text data False) ''Enrollment failed''))
         else Inr data))"

definition exchange_enrollment_code :: "setup_env \<Rightarrow> string \<Rightarrow> string \<Rightarrow> js cli" where
  "exchange_enrollment_code E server code = (case host_url (se_host E) server of
     None \<Rightarrow> throw BadServerUrl
   | Some (protocol, h) \<Rightarrow>
       if protocol = ''http:'' \<and> \<not> is_loopback_host (se_host E) h \<and> \<not> allow_plaintext (se_host E)
       then throw PlaintextEnroll
       else thenm (modifies (\<lambda>w. w\<lparr>sw_codes := sw_codes w @ [normal_code code]\<rparr>))
         (case enroll_answer (host_json (se_host E)) (se_reply E (enroll_url E protocol server) (normal_code code)) of
            Inl e \<Rightarrow> throw e | Inr data \<Rightarrow> ret data))"

section \<open>The client certificate\<close>

definition ensure_newline :: "string \<Rightarrow> string" where
  "ensure_newline pem = (if pem \<noteq> [] \<and> \<not> ends_with pem [CHR 0x0A] then pem @ [CHR 0x0A] else pem)"

definition write_file :: "setup_env \<Rightarrow> path \<Rightarrow> string \<Rightarrow> unit cli" where
  "write_file E p text = (if se_disk_fails E p then throw (DiskFault p)
     else modifies (\<lambda>w. w\<lparr>sw_files := (sw_files w)(p \<mapsto> text)\<rparr>))"

definition make_dir :: "setup_env \<Rightarrow> path \<Rightarrow> unit cli" where
  "make_dir E p = (if se_disk_fails E p then throw (DiskFault p)
     else modifies (\<lambda>w. w\<lparr>sw_dirs := insert p (sw_dirs w)\<rparr>))"

definition write_pem :: "setup_env \<Rightarrow> path \<Rightarrow> js \<Rightarrow> unit cli" where
  "write_pem E p v = (case v of JStr pem \<Rightarrow> write_file E p (ensure_newline pem) | _ \<Rightarrow> throw TypeFault)"

record mtls_paths =
  mp_cert :: path
  mp_key :: path
  mp_ca :: path

definition certs_dir :: "setup_env \<Rightarrow> path" where
  "certs_dir E = se_config_dir E @ ''/certs''"

definition issued_paths :: "setup_env \<Rightarrow> mtls_paths" where
  "issued_paths E = \<lparr>mp_cert = certs_dir E @ ''/client.crt'', mp_key = certs_dir E @ ''/client.key'',
     mp_ca = certs_dir E @ ''/ca.crt''\<rparr>"

definition cert_fields :: "string list" where
  "cert_fields = [''clientCert'', ''clientKey'', ''caCert'']"

definition save_mtls_certs :: "setup_env \<Rightarrow> js \<Rightarrow> mtls_paths option cli" where
  "save_mtls_certs E data = (let present = length (filter (\<lambda>k. js_truthy (field data k)) cert_fields); P = issued_paths E in
     if present = 0 then ret None
     else if present < 3 then throw (IncompleteCerts present)
     else thenm (do_all
       [make_dir E (certs_dir E),
        write_pem E (mp_cert P) (field data ''clientCert''),
        write_pem E (mp_key P) (field data ''clientKey''),
        write_pem E (mp_ca P) (field data ''caCert'')]) (ret (Some P)))"

section \<open>Saving the configuration\<close>

record sync_setup =
  ss_server :: string
  ss_bundle :: js
  ss_share :: js
  ss_folder :: string
  ss_key :: string
  ss_mtls :: "mtls_paths option"
  ss_auto_update_off :: bool
  ss_tunnel_pins :: "string list option"   \<comment> \<open>tunnel mode, with the pins it was set up with\<close>

definition or_empty :: "js \<Rightarrow> js" where
  "or_empty v = (if js_truthy v then v else JStr [])"

definition mtls_object :: "setup_env \<Rightarrow> mtls_paths option \<Rightarrow> js" where
  "mtls_object E m = (case m of None \<Rightarrow> JNull
     | Some P \<Rightarrow> JObj [(''cert'', JStr (se_resolve E (mp_cert P))), (''key'', JStr (se_resolve E (mp_key P))),
         (''ca'', JStr (se_resolve E (mp_ca P)))])"

definition config_of :: "setup_env \<Rightarrow> sync_setup \<Rightarrow> storage \<Rightarrow> props" where
  "config_of E a s =
     [(''server'', JStr (ss_server a)), (''bundleId'', or_empty (ss_bundle a)), (''shareId'', or_empty (ss_share a)),
      (''syncFolder'', JStr (se_resolve E (ss_folder a))), (''apiKeyRef'', ref_for s), (''mtls'', mtls_object E (ss_mtls a)),
      (''ignore'', JArr []), (''logLevel'', JStr ''info'')] @
     (if ss_auto_update_off a then [(''autoUpdate'', JBool False)] else []) @
     (case ss_tunnel_pins a of Some (p # ps) \<Rightarrow> [(''pinnedServerSpki'', JArr (map JStr (p # ps)))] | _ \<Rightarrow> []) @
     (if ss_tunnel_pins a \<noteq> None then [(''tunnelMode'', JBool True)] else [])"

definition ensure_folder :: "setup_env \<Rightarrow> path \<Rightarrow> unit cli" where
  "ensure_folder E p = bindm (reads (\<lambda>w. world_exists w p)) (\<lambda>there. whenm (\<not> there) (make_dir E p))"

definition store_in_vault :: "setup_env \<Rightarrow> string \<Rightarrow> js \<Rightarrow> storage cli" where
  "store_in_vault E key ref = bindm (reads (\<lambda>w. store_key (se_keychain E) key ref (sw_vault w)))
     (\<lambda>(s, v). thenm (modifies (\<lambda>w. w\<lparr>sw_vault := v\<rparr>)) (ret s))"

definition save_sync_config :: "setup_env \<Rightarrow> sync_setup \<Rightarrow> storage cli" where
  "save_sync_config E a =
     thenm (ensure_folder E (se_resolve E (ss_folder a)))
       (bindm (store_in_vault E (ss_key a) JUndef) (\<lambda>s.
          bindm (reads (\<lambda>w. validate_config (host_on E (vars E) w) \<lparr>props = config_of E a s, env_sources = []\<rparr>)) (\<lambda>errors.
            if errors \<noteq> [] then throw (ConfigErrors errors)
            else if se_disk_fails E (host_config_file (se_host E)) then throw (DiskFault (host_config_file (se_host E)))
            else thenm (modifies (\<lambda>w. w\<lparr>sw_config := Some (config_of E a s)\<rparr>)) (ret s))))"

section \<open>Tunnel mode\<close>

definition supplied_pins :: "setup_env \<Rightarrow> string list" where
  "supplied_pins E = filter (\<lambda>p. p \<noteq> []) (map js_trim (split_on (CHR '','') (var_or_empty E ''HERMITSTASH_PINNED_SERVER_SPKI'')))"

definition resolve_tunnel_pins :: "setup_env \<Rightarrow> string \<Rightarrow> bool \<Rightarrow> string list cli" where
  "resolve_tunnel_pins E server interactive =
     (if supplied_pins E \<noteq> [] then ret (supplied_pins E)
      else if \<not> interactive then throw NoPinUnattended
      else (case se_probe E server of
          Inl e \<Rightarrow> throw (ProbeFailed e)
        | Inr pin \<Rightarrow> if ascii_lower (js_trim (se_pin_answer E)) \<noteq> ''y'' then throw PinNotConfirmed else ret [pin]))"

definition want_tunnel :: "setup_env \<Rightarrow> string list \<Rightarrow> bool" where
  "want_tunnel E args \<longleftrightarrow> ''--tunnel'' \<in> set args \<or>
     (let raw = js_trim (var_or_empty E ''HERMITSTASH_TUNNEL_MODE'')
      in raw \<noteq> [] \<and> ascii_lower raw \<notin> {''0'', ''false'', ''no'', ''off''})"

definition tunnel_setup :: "setup_env \<Rightarrow> string \<Rightarrow> string list \<Rightarrow> bool \<Rightarrow> string list option cli" where
  "tunnel_setup E server args interactive =
     (if want_tunnel E args then bindm (resolve_tunnel_pins E server interactive) (\<lambda>pins. ret (Some pins)) else ret None)"

section \<open>The commands\<close>

text \<open>The key of a reply, if it carries one with something in it.\<close>

definition issued_key :: "js \<Rightarrow> string cli" where
  "issued_key data = (case field data ''apiKey'' of
     JStr k \<Rightarrow> if js_trim k \<noteq> [] then ret k else throw NoApiKey | _ \<Rightarrow> throw NoApiKey)"

definition default_folder :: "setup_env \<Rightarrow> string" where
  "default_folder E = or_text (var_or_empty E ''HERMITSTASH_SYNC_FOLDER'')
     (if var_or_empty E ''HERMITSTASH_SYNC_CONFIG_DIR'' \<noteq> [] then ''/data'' else se_home E @ ''/hermitstash-sync'')"

definition cmd_init_from_env :: "setup_env \<Rightarrow> unit cli" where
  "cmd_init_from_env E =
     (let server = var_or_empty E ''HERMITSTASH_SERVER_URL''; code = var_or_empty E ''HERMITSTASH_ENROLLMENT_CODE'';
          missing = (if server = [] then [''HERMITSTASH_SERVER_URL''] else []) @
            (if code = [] then [''HERMITSTASH_ENROLLMENT_CODE''] else [])
      in if missing \<noteq> [] then throw (MissingVars missing)
      else bindm (exchange_enrollment_code E server code) (\<lambda>data.
        bindm (issued_key data) (\<lambda>key.
        bindm (save_mtls_certs E data) (\<lambda>m.
        bindm (tunnel_setup E server [] False) (\<lambda>pins.
        bindm (save_sync_config E \<lparr>ss_server = server, ss_bundle = or_empty (field data ''bundleId''),
            ss_share = or_empty (field data ''shareId''), ss_folder = default_folder E, ss_key = key, ss_mtls = m,
            ss_auto_update_off = (vars E ''HERMITSTASH_AUTO_UPDATE'' = Some ''false''), ss_tunnel_pins = pins\<rparr>) (\<lambda>s.
        ret ()))))))"

text \<open>What the user types at the prompts of \<open>init\<close>.\<close>

record answers =
  an_server :: string
  an_folder :: string
  an_method :: string
  an_key :: string
  an_bundle :: string
  an_share :: string
  an_mtls :: string
  an_paths :: mtls_paths
  an_code :: string

definition typed_mtls :: "setup_env \<Rightarrow> answers \<Rightarrow> mtls_paths option" where
  "typed_mtls E A = (if ascii_lower (an_mtls A) = ''y''
     then Some \<lparr>mp_cert = se_resolve E (js_trim (mp_cert (an_paths A))), mp_key = se_resolve E (js_trim (mp_key (an_paths A))),
       mp_ca = se_resolve E (js_trim (mp_ca (an_paths A)))\<rparr>
     else None)"

definition finish_init :: "setup_env \<Rightarrow> string list \<Rightarrow> answers \<Rightarrow> string \<Rightarrow> mtls_paths option \<Rightarrow> js \<Rightarrow> js \<Rightarrow> unit cli" where
  "finish_init E args A key m bundle share =
     bindm (tunnel_setup E (an_server A) args True) (\<lambda>pins.
     bindm (save_sync_config E \<lparr>ss_server = an_server A, ss_bundle = bundle, ss_share = share, ss_folder = an_folder A,
         ss_key = key, ss_mtls = m, ss_auto_update_off = False, ss_tunnel_pins = pins\<rparr>) (\<lambda>s. ret ()))"

definition cmd_init :: "setup_env \<Rightarrow> string list \<Rightarrow> answers \<Rightarrow> unit cli" where
  "cmd_init E args A =
     (if ''--non-interactive'' \<in> set args \<or> ''--ni'' \<in> set args then cmd_init_from_env E
      else if an_method A = ''2'' then
        (if js_trim (an_key A) = [] then throw ApiKeyRequired
         else finish_init E args A (js_trim (an_key A)) (typed_mtls E A) (JStr (js_trim (an_bundle A))) (JStr (js_trim (an_share A))))
      else if js_trim (an_code A) = [] then throw CodeRequired
      else bindm (exchange_enrollment_code E (an_server A) (an_code A)) (\<lambda>data.
        bindm (issued_key data) (\<lambda>key.
        bindm (save_mtls_certs E data) (\<lambda>m.
        finish_init E args A key m (or_empty (field data ''bundleId'')) (or_empty (field data ''shareId''))))))"

text \<open>\<open>repair\<close> reads the configuration it finds; the key of the reply is optional.\<close>

definition restore_key :: "setup_env \<Rightarrow> config \<Rightarrow> js \<Rightarrow> unit cli" where
  "restore_key E c data = (case field data ''apiKey'' of
     JStr k \<Rightarrow> whenm (k \<noteq> []) (bindm (store_in_vault E k (conf c ''apiKeyRef'')) (\<lambda>_. ret ()))
   | v \<Rightarrow> whenm (js_truthy v) (throw TypeFault))"

definition cmd_repair :: "setup_env \<Rightarrow> string \<Rightarrow> unit cli" where
  "cmd_repair E code = bindm (reads (\<lambda>w. load_config (host_on E (vars E) w))) (\<lambda>loaded. case loaded of
     Inl e \<Rightarrow> throw (LoadFailed e)
   | Inr c \<Rightarrow> (case conf c ''server'' of
       JStr server \<Rightarrow>
         if host_url (se_host E) server = None then throw BadServerUrl
         else if js_trim code = [] then throw CodeRequired
         else bindm (exchange_enrollment_code E server code) (\<lambda>data.
           thenm (restore_key E c data) (bindm (save_mtls_certs E data) (\<lambda>_. ret ())))
     | _ \<Rightarrow> throw BadServerUrl))"

end
