(* ===== verification/Enrollment_Safety.thy ===== *)
theory Enrollment_Safety
  imports Enrollment
begin

text \<open>
  What setting up a client guarantees: a setup that reports success leaves a configuration that loads,
  validates and finds the key it was given; the code travels only over a protected connection; tunnel
  mode trusts only a pin somebody vouched for; and what goes wrong when it cannot.
\<close>

section \<open>The saved configuration loads\<close>

definition plain_vars :: "(string \<Rightarrow> string option) \<Rightarrow> bool" where
  "plain_vars V \<longleftrightarrow> (\<forall>(name, conv, key) \<in> set overlay_table. V name = None)"

lemma overlay_plain: "plain_vars (host_env H) \<Longrightarrow> apply_env_overlay H ps = \<lparr>props = ps, env_sources = []\<rparr>"
proof -
  assume p: "plain_vars (host_env H)"
  have "fold (overlay_one H) rows c = c" if "set rows \<subseteq> set overlay_table" for rows c
    using that
  proof (induction rows arbitrary: c)
    case (Cons row rows)
    from p Cons.prems have "overlay_one H row c = c"
      by (auto simp: plain_vars_def overlay_one_def split: prod.split)
    with Cons show ?case by simp
  qed simp
  then show ?thesis by (simp add: apply_env_overlay_def)
qed

lemma map_of_rev_distinct: "distinct (map fst kvs) \<Longrightarrow> map_of (rev kvs) = map_of kvs"
  by (subst map_of_inject_set) (simp_all add: rev_map [symmetric])

abbreviation saved_conf :: "setup_env \<Rightarrow> sync_setup \<Rightarrow> storage \<Rightarrow> config" where
  "saved_conf E a s \<equiv> \<lparr>props = config_of E a s, env_sources = []\<rparr>"

abbreviation merged_conf :: "setup_env \<Rightarrow> sync_setup \<Rightarrow> storage \<Rightarrow> config" where
  "merged_conf E a s \<equiv> \<lparr>props = fold (\<lambda>(k, v). put k v) (config_of E a s) config_defaults, env_sources = []\<rparr>"

lemma config_of_distinct: "distinct (map fst (config_of E a s))"
  by (simp add: config_of_def split: option.split list.split)

lemma config_of_defined: "map_of (config_of E a s) k = Some v \<Longrightarrow> v \<noteq> JUndef"
  by (drule map_of_SomeD)
    (auto simp: config_of_def or_empty_def ref_for_def mtls_object_def split: option.splits list.splits if_splits)

text \<open>Loading gives what was saved, and the default for what was not.\<close>

lemma merged_value:
  "conf (merged_conf E a s) k =
     (if conf (saved_conf E a s) k = JUndef then get_prop config_defaults k else conf (saved_conf E a s) k)"
proof (cases "map_of (config_of E a s) k")
  case None
  then show ?thesis by (simp add: put_fold map_of_rev_distinct config_of_distinct) (simp add: get_prop_def)
next
  case (Some v)
  then have "conf (saved_conf E a s) k = v" by (simp only: get_prop_def field.simps config.simps option.case)
  with Some config_of_defined [OF Some] show ?thesis
    by (simp only: config.simps put_fold map_of_rev_distinct [OF config_of_distinct] option.case if_False)
qed

lemma saved_server: "conf (saved_conf E a s) ''server'' = JStr (ss_server a)"
  by (simp add: get_prop_def config_of_def)

lemma saved_ref: "conf (saved_conf E a s) ''apiKeyRef'' = ref_for s"
  by (simp add: get_prop_def config_of_def)

lemma default_values:
  "get_prop config_defaults ''server'' = JStr []" "get_prop config_defaults ''syncFolder'' = JStr []"
  "get_prop config_defaults ''bundleId'' = JStr []" "get_prop config_defaults ''shareId'' = JStr []"
  "get_prop config_defaults ''mtls'' = JNull" "get_prop config_defaults ''ignore'' = JArr []"
  "get_prop config_defaults ''logLevel'' = JStr ''info''"
  "get_prop config_defaults ''uploadConcurrency'' = JInt 4" "get_prop config_defaults ''uploadBytesPerSec'' = JInt 0"
  "get_prop config_defaults ''downloadBytesPerSec'' = JInt 0" "get_prop config_defaults ''maxFileSize'' = JInt 0"
  "get_prop config_defaults ''autoUpdateChannel'' = JStr ''stable''" "get_prop config_defaults ''include'' = JArr []"
  "get_prop config_defaults ''autoUpdate'' = JBool True" "get_prop config_defaults ''pinnedServerSpki'' = JArr []"
  "get_prop config_defaults ''tunnelMode'' = JBool False"
  by code_simp+

text \<open>Two hosts that resolve, compare and find the same things accept the same configurations.\<close>

lemma config_typed_host:
  assumes "host_url H' = host_url H" "host_loopback H' = host_loopback H" "host_exists H' = host_exists H"
    "allow_plaintext H' = allow_plaintext H"
  shows "config_typed H' c = config_typed H c"
  using assms by (simp add: config_typed_def server_typed_def folder_typed_def mtls_typed_def)

lemma share_typed_defaults:
  "share_typed b s \<Longrightarrow> share_typed (if b = JUndef then JStr [] else b) (if s = JUndef then JStr [] else s)"
  by (cases "b = JUndef"; cases "s = JUndef") (auto simp: share_typed_def absent_def)

lemma ball_natural_default:
  assumes "\<forall>k \<in> K. f k = JUndef \<or> natural (f k)" and "\<forall>k \<in> K. natural (d k)"
    and "\<And>k. g k = (if f k = JUndef then d k else f k)"
  shows "\<forall>k \<in> K. g k = JUndef \<or> natural (g k)"
  using assms by auto

text \<open>Filling in the defaults keeps a configuration valid.\<close>

lemma defaults_typed:
  assumes m: "\<And>k. conf m k = (if conf c k = JUndef then get_prop config_defaults k else conf c k)"
    and t: "config_typed H c"
  shows "config_typed H m"
proof -
  note t' = t [unfolded config_typed_def]
  from t' have "server_typed H (conf c ''server'')" "folder_typed H (conf c ''syncFolder'')" by - (elim conjE, assumption)+
  then have "server_typed H (conf m ''server'')" "folder_typed H (conf m ''syncFolder'')"
    by (auto simp: m server_typed_def folder_typed_def)
  moreover from t' have "share_typed (conf m ''bundleId'') (conf m ''shareId'')"
    unfolding m default_values by (elim conjE share_typed_defaults)
  moreover from t' have "mtls_typed H (conf c ''mtls'')" by (elim conjE)
  then have "mtls_typed H (conf m ''mtls'')"
    by (cases "conf c ''mtls'' = JUndef") (simp_all add: m mtls_typed_def default_values absent_def)
  moreover from t' have "\<forall>k \<in> {''uploadConcurrency'', ''uploadBytesPerSec'', ''downloadBytesPerSec'', ''maxFileSize''}.
      conf c k = JUndef \<or> natural (conf c k)" by (elim conjE)
  then have "\<forall>k \<in> {''uploadConcurrency'', ''uploadBytesPerSec'', ''downloadBytesPerSec'', ''maxFileSize''}.
      conf m k = JUndef \<or> natural (conf m k)"
    by (rule ball_natural_default) (simp_all add: m default_values natural_def)
  moreover from t' have "conf c ''autoUpdateChannel'' \<in> {JUndef, JStr ''stable'', JStr ''beta''}" by (elim conjE)
  then have "conf m ''autoUpdateChannel'' \<in> {JUndef, JStr ''stable'', JStr ''beta''}"
    by (auto simp: m default_values)
  moreover from t' have "conf c ''autoUpdate'' = JUndef \<or> is_boolean (conf c ''autoUpdate'')" by (elim conjE)
  then have "conf m ''autoUpdate'' = JUndef \<or> is_boolean (conf m ''autoUpdate'')"
    by (auto simp: m default_values is_boolean_def)
  moreover from t' have "conf c ''include'' = JUndef \<or> list_of is_string (conf c ''include'')"
    "conf c ''ignore'' = JUndef \<or> list_of is_string (conf c ''ignore'')"
    "conf c ''pinnedServerSpki'' = JUndef \<or> list_of pin_shape (conf c ''pinnedServerSpki'')" by - (elim conjE, assumption)+
  then have "conf m ''include'' = JUndef \<or> list_of is_string (conf m ''include'')"
    "conf m ''ignore'' = JUndef \<or> list_of is_string (conf m ''ignore'')"
    "conf m ''pinnedServerSpki'' = JUndef \<or> list_of pin_shape (conf m ''pinnedServerSpki'')"
    by (auto simp: m default_values list_of_def)
  moreover from t' have "conf c ''logLevel'' \<in> {JUndef, JStr ''debug'', JStr ''info'', JStr ''warn'', JStr ''error''}"
    by (elim conjE)
  then have "conf m ''logLevel'' \<in> {JUndef, JStr ''debug'', JStr ''info'', JStr ''warn'', JStr ''error''}"
    by (auto simp: m default_values)
  moreover from t' have "conf c ''tunnelMode'' = JUndef \<or> is_boolean (conf c ''tunnelMode'')"
    "conf c ''tunnelMode'' = JBool True \<longrightarrow> (\<exists>p ps. conf c ''pinnedServerSpki'' = JArr (p # ps))"
    by - (elim conjE, assumption)+
  then have "conf m ''tunnelMode'' = JUndef \<or> is_boolean (conf m ''tunnelMode'')"
    "conf m ''tunnelMode'' = JBool True \<longrightarrow> (\<exists>p ps. conf m ''pinnedServerSpki'' = JArr (p # ps))"
    by (auto simp: m default_values is_boolean_def)
  ultimately show ?thesis unfolding config_typed_def by (intro conjI)
qed

section \<open>What a successful save leaves behind\<close>

text \<open>A client that starts: its configuration loads, validates and names the place where the key is.\<close>

definition startable :: "setup_env \<Rightarrow> (string \<Rightarrow> string option) \<Rightarrow> setup_world \<Rightarrow> string \<Rightarrow> string \<Rightarrow> bool" where
  "startable E V w server key \<longleftrightarrow> (\<exists>c. load_config (host_on E V w) = Inr c \<and> validate_config (host_on E V w) c = [] \<and>
     conf c ''server'' = JStr server \<and>
     (plain_key key \<longrightarrow> retrieve_detailed (se_keychain E) (conf c ''apiKeyRef'') (sw_vault w) = Found key))"

lemma stored_key_found:
  assumes "store_key K key JUndef v = (s, v')" and "plain_key key"
  shows "retrieve_detailed K (ref_for s) v' = Found key"
proof -
  from assms(2) have ne: "key \<noteq> []" by (simp add: plain_key_def)
  show ?thesis
  proof (cases "kc_native K = NativeUp")
    case True
    with assms ne have "s = StoredNative" "v' = drop_key_file K (v\<lparr>va_native := (va_native v)(default_service := Some key)\<rparr>)"
      by (auto simp: store_key_def)
    with True ne show ?thesis by (simp add: retrieve_detailed_def native_lookup_def drop_key_file_def)
  next
    case False
    with assms have "s = StoredFile" "v' = write_key_file key v" by (auto simp: store_key_def)
    with file_gives_key [OF assms(2)] show ?thesis by (simp add: retrieve_detailed_def)
  qed
qed

lemma host_on_sel [simp]:
  "host_env (host_on E V w) = V" "host_exists (host_on E V w) = world_exists w"
  "host_url (host_on E V w) = host_url (se_host E)" "host_loopback (host_on E V w) = host_loopback (se_host E)"
  "host_json (host_on E V w) = host_json (se_host E)" "host_config_file (host_on E V w) = host_config_file (se_host E)"
  by (simp_all add: host_on_def)

lemma host_on_reads:
  "sw_config w = Some ps \<Longrightarrow> host_read (host_on E V w) (host_config_file (se_host E)) = FileText (se_text E ps)"
  by (simp add: host_on_def)

text \<open>The texts of a configuration file parse to what was written.\<close>

definition text_parses :: "setup_env \<Rightarrow> setup_world \<Rightarrow> bool" where
  "text_parses E w \<longleftrightarrow> (case sw_config w of None \<Rightarrow> True | Some ps \<Rightarrow> host_json (se_host E) (se_text E ps) = Some (JObj ps))"

lemma saved_loads:
  assumes "sw_config w = Some (config_of E a s)" and "text_parses E w" and "plain_vars V"
  shows "load_config (host_on E V w) = Inr (merged_conf E a s)"
  using assms by (simp add: load_config_def host_on_reads text_parses_def overlay_plain)

definition same_start :: "setup_env \<Rightarrow> (string \<Rightarrow> string option) \<Rightarrow> bool" where
  "same_start E V \<longleftrightarrow> plain_vars V \<and>
     V ''HERMITSTASH_ALLOW_PLAINTEXT'' = vars E ''HERMITSTASH_ALLOW_PLAINTEXT''"

lemma saved_startable:
  assumes cfg: "sw_config w' = Some (config_of E a s)" and valid: "validate_config (host_on E (vars E) w) (saved_conf E a s) = []"
    and ex: "world_exists w' = world_exists w" and key: "store_key (se_keychain E) (ss_key a) JUndef v = (s, sw_vault w')"
    and V: "same_start E V" and parses: "text_parses E w'"
  shows "startable E V w' (ss_server a) (ss_key a)"
proof -
  let ?c = "merged_conf E a s" and ?H = "host_on E V w'"
  from V have p: "plain_vars V" and "allow_plaintext ?H = allow_plaintext (host_on E (vars E) w)"
    by (simp_all add: same_start_def allow_plaintext_def)
  then have host: "config_typed ?H c = config_typed (host_on E (vars E) w) c" for c
    by (intro config_typed_host) (simp_all add: ex)
  from valid have "config_typed (host_on E (vars E) w) (saved_conf E a s)" by (simp only: validated_config_typed_iff)
  then have "validate_config ?H ?c = []" by (simp only: validated_config_typed_iff host) (rule defaults_typed [OF merged_value])
  moreover have "conf ?c ''server'' = JStr (ss_server a)" "conf ?c ''apiKeyRef'' = ref_for s"
    by (simp_all only: merged_value saved_server saved_ref) (simp_all add: ref_for_def)
  ultimately show ?thesis
    unfolding startable_def using saved_loads [OF cfg parses p] stored_key_found [OF key] by (intro exI [of _ ?c]) auto
qed

lemma save_sync_config_result:
  assumes "save_sync_config E a w = (Inr s, w')" and "same_start E V" and "text_parses E w'"
  shows "startable E V w' (ss_server a) (ss_key a)"
proof -
  have "wp (save_sync_config E a) (\<lambda>s w'. \<exists>w v. sw_config w' = Some (config_of E a s) \<and>
      validate_config (host_on E (vars E) w) (saved_conf E a s) = [] \<and> world_exists w' = world_exists w \<and>
      store_key (se_keychain E) (ss_key a) JUndef v = (s, sw_vault w')) (\<lambda>_ _. True) w"
    unfolding save_sync_config_def ensure_folder_def make_dir_def store_in_vault_def
    by (auto simp: wp_rules world_exists_def fun_eq_iff split: prod.split)
  with assms saved_startable show ?thesis by (auto simp: wp_def)
qed

section \<open>The commands\<close>

definition unattended :: "string list \<Rightarrow> bool" where
  "unattended args \<longleftrightarrow> ''--non-interactive'' \<in> set args \<or> ''--ni'' \<in> set args"

definition given_server :: "setup_env \<Rightarrow> string list \<Rightarrow> answers \<Rightarrow> string" where
  "given_server E args A = (if unattended args then var_or_empty E ''HERMITSTASH_SERVER_URL'' else an_server A)"

text \<open>The key a server's reply to a code carries.\<close>

definition reply_key :: "setup_env \<Rightarrow> string \<Rightarrow> string \<Rightarrow> string option" where
  "reply_key E server code = (case host_url (se_host E) server of
     None \<Rightarrow> None
   | Some (protocol, _) \<Rightarrow>
       (case enroll_answer (host_json (se_host E)) (se_reply E (enroll_url E protocol server) (normal_code code)) of
          Inl _ \<Rightarrow> None | Inr data \<Rightarrow> (case field data ''apiKey'' of JStr k \<Rightarrow> Some k | _ \<Rightarrow> None)))"

definition given_key :: "setup_env \<Rightarrow> string list \<Rightarrow> answers \<Rightarrow> string option" where
  "given_key E args A =
     (if unattended args then reply_key E (given_server E args A) (var_or_empty E ''HERMITSTASH_ENROLLMENT_CODE'')
      else if an_method A = ''2'' then Some (js_trim (an_key A))
      else reply_key E (an_server A) (an_code A))"

lemma bindm_Inr: "bindm m f s = (Inr x, s') \<longleftrightarrow> (\<exists>y s''. m s = (Inr y, s'') \<and> f y s'' = (Inr x, s'))"
  by (auto simp: bindm_def split: prod.splits sum.splits)

lemma ret_Inr: "ret x s = (Inr y, s') \<longleftrightarrow> y = x \<and> s' = s"
  by (auto simp: ret_def)

lemma throw_Inr [simp]: "throw e s \<noteq> (Inr y, s')"
  by (simp add: throw_def)

lemma exchanged_key:
  assumes "exchange_enrollment_code E server code w = (Inr data, w1)" and "issued_key data w1 = (Inr key, w2)"
  shows "reply_key E server code = Some key"
  using assms
  by (auto simp: exchange_enrollment_code_def reply_key_def issued_key_def thenm_def bindm_Inr ret_Inr
      split: option.splits if_splits sum.splits js.splits)

lemma finish_init_saves:
  assumes "finish_init E args A key m bundle share w = (Inr (), w')"
  obtains a s w1 where "save_sync_config E a w1 = (Inr s, w')" "ss_server a = an_server A" "ss_key a = key"
  using assms by (auto simp: finish_init_def bindm_Inr ret_Inr)

text \<open>A setup that reports success, interactive or unattended, leaves a client that can start: from a
  shell without overlay variables the saved configuration loads, passes validation, names the server
  that was given and points at the place where the key is, whichever store accepted it.\<close>

lemma setup_leaves_startable_client:
  assumes run: "cmd_init E args A w = (Inr (), w')" and V: "same_start E V" and parses: "text_parses E w'"
  shows "\<exists>key. given_key E args A = Some key \<and> startable E V w' (given_server E args A) key"
proof (cases "unattended args")
  case True
  with run have "cmd_init_from_env E w = (Inr (), w')" by (simp add: cmd_init_def unattended_def)
  then show ?thesis using True V parses
    by (auto simp: cmd_init_from_env_def Let_def bindm_Inr ret_Inr given_key_def given_server_def
        split: if_splits dest!: save_sync_config_result [OF _ V parses] dest: exchanged_key)
next
  case interactive: False
  show ?thesis
  proof (cases "an_method A = ''2''")
    case True
    with run interactive have "finish_init E args A (js_trim (an_key A)) (typed_mtls E A)
        (JStr (js_trim (an_bundle A))) (JStr (js_trim (an_share A))) w = (Inr (), w')"
      by (auto simp: cmd_init_def unattended_def split: if_splits)
    with True interactive show ?thesis
      by (auto simp: given_key_def given_server_def elim!: finish_init_saves dest: save_sync_config_result [OF _ V parses])
  next
    case False
    with run interactive obtain data w1 key w2 m w3 b sh where
      x: "exchange_enrollment_code E (an_server A) (an_code A) w = (Inr data, w1)" "issued_key data w1 = (Inr key, w2)"
      and f: "finish_init E args A key m b sh w3 = (Inr (), w')"
      by (auto simp: cmd_init_def unattended_def bindm_Inr split: if_splits)
    from f have "startable E V w' (an_server A) key"
      by (auto elim!: finish_init_saves dest: save_sync_config_result [OF _ V parses])
    with exchanged_key [OF x] False interactive show ?thesis by (simp add: given_key_def given_server_def)
  qed
qed

section \<open>The code, the pin and a failed setup\<close>

text \<open>How a run changes the codes sent: not at all, or by one code on a connection that protects it.\<close>

definition protected_url :: "setup_env \<Rightarrow> string \<Rightarrow> bool" where
  "protected_url E server \<longleftrightarrow> (\<exists>protocol h. host_url (se_host E) server = Some (protocol, h) \<and>
     (protocol = ''http:'' \<longrightarrow> host_loopback (se_host E) h = Some True \<or> allow_plaintext (se_host E)))"

definition codes_ok :: "setup_env \<Rightarrow> string \<Rightarrow> string list \<Rightarrow> setup_world \<Rightarrow> bool" where
  "codes_ok E server cs w \<longleftrightarrow> sw_codes w = cs \<or> protected_url E server \<and> (\<exists>c. sw_codes w = cs @ [c])"

text \<open>
  A fact about the machine that a setup's steps cannot disturb: it survives the writes of certificates,
  folders and the key, and, in the second interface, the save of the configuration.
\<close>

locale steady =
  fixes P :: "setup_world \<Rightarrow> bool"
  assumes files: "P w \<Longrightarrow> P (w\<lparr>sw_files := F\<rparr>)"
    and dirs: "P w \<Longrightarrow> P (w\<lparr>sw_dirs := D\<rparr>)"
    and vaults: "P w \<Longrightarrow> P (w\<lparr>sw_vault := v\<rparr>)"
begin

lemma keeps_pem [keeps_rules]: "keeps P (write_pem E p v)"
  by (auto simp: write_pem_def write_file_def files intro!: keeps_rules keeps_modifies split: js.split)

lemma keeps_dir [keeps_rules]: "keeps P (make_dir E p)"
  by (auto simp: make_dir_def dirs intro!: keeps_rules keeps_modifies)

lemma keeps_certs [keeps_rules]: "keeps P (save_mtls_certs E data)"
  by (auto simp: save_mtls_certs_def Let_def intro!: keeps_rules)

lemma keeps_vault [keeps_rules]: "keeps P (store_in_vault E key ref)"
  by (auto simp: store_in_vault_def vaults intro!: keeps_rules keeps_modifies split: prod.split)

lemma keeps_folder [keeps_rules]: "keeps P (ensure_folder E p)"
  by (auto simp: ensure_folder_def intro!: keeps_rules)

lemma keeps_issued [keeps_rules]: "keeps P (issued_key data)"
  by (auto simp: issued_key_def intro!: keeps_rules split: js.split)

lemma keeps_tunnel [keeps_rules]: "keeps P (tunnel_setup E server args i)"
  by (auto simp: tunnel_setup_def resolve_tunnel_pins_def intro!: keeps_rules split: sum.split)

lemma keeps_restore [keeps_rules]: "keeps P (restore_key E c data)"
  by (auto simp: restore_key_def intro!: keeps_rules split: js.split)

end

locale steady_config = steady +
  assumes saves: "P w \<Longrightarrow> P (w\<lparr>sw_config := c\<rparr>)"
begin

lemma keeps_save [keeps_rules]: "keeps P (save_sync_config E a)"
  by (auto simp: save_sync_config_def saves intro!: keeps_rules keeps_modifies)

lemma keeps_finish [keeps_rules]: "keeps P (finish_init E args A key m b sh)"
  by (auto simp: finish_init_def intro!: keeps_rules)

end

interpretation codes: steady_config "codes_ok E server cs"
  by unfold_locales (auto simp: codes_ok_def)

interpretation saved_cfg: steady "\<lambda>w. sw_config w = c"
  by unfold_locales auto

lemma codes_exchange:
  "wp (exchange_enrollment_code E server code) (\<lambda>_. codes_ok E server (sw_codes w)) (\<lambda>_. codes_ok E server (sw_codes w)) w"
  by (auto simp: exchange_enrollment_code_def codes_ok_def protected_url_def is_loopback_host_def wp_rules
      split: option.split sum.split)

lemma codes_after_exchange:
  assumes "\<And>data. keeps (codes_ok E server (sw_codes w)) (f data)"
  shows "codes_ok E server (sw_codes w) (final (bindm (exchange_enrollment_code E server code) f) w)"
  by (rule wp_final, unfold wp_bindm, rule wp_conseq [OF codes_exchange]) (use assms in \<open>auto simp: keeps_def\<close>)


text \<open>A failed setup, and every repair, leaves the configuration as it was.\<close>

lemma keeps_exchange_config: "keeps (\<lambda>w. sw_config w = c) (exchange_enrollment_code E server code)"
  by (auto simp: exchange_enrollment_code_def intro!: keeps_rules keeps_modifies split: option.split sum.split)

lemma failed_save_config:
  "wp (save_sync_config E a) (\<lambda>_ _. True) (\<lambda>_ w'. sw_config w' = sw_config w) w"
  by (auto simp: save_sync_config_def ensure_folder_def make_dir_def store_in_vault_def wp_rules split: prod.split)

lemma wp_keeps_then:
  assumes "keeps P m" and "P s" and "\<And>x s'. P s' \<Longrightarrow> wp (f x) Q R s'" and "\<And>e s'. P s' \<Longrightarrow> R e s'"
  shows "wp (bindm m f) Q R s"
  unfolding wp_bindm by (rule wp_conseq [OF keepsD [OF assms(1,2)]]) (use assms in auto)

lemma failed_finish_config:
  "sw_config w = c \<Longrightarrow> wp (finish_init E args A key m b sh) (\<lambda>_ _. True) (\<lambda>_ w'. sw_config w' = c) w"
  unfolding finish_init_def
  by (rule wp_keeps_then [OF saved_cfg.keeps_tunnel]) (auto simp: wp_rules intro: wp_conseq [OF failed_save_config])

lemma failed_after_exchange:
  assumes "\<And>data key m w'. sw_config w' = sw_config w \<Longrightarrow>
      wp (f data key m) (\<lambda>_ _. True) (\<lambda>_ w'. sw_config w' = sw_config w) w'"
  shows "wp (bindm (exchange_enrollment_code E server code) (\<lambda>data. bindm (issued_key data) (\<lambda>key.
      bindm (save_mtls_certs E data) (f data key)))) (\<lambda>_ _. True) (\<lambda>_ w'. sw_config w' = sw_config w) w"
  by (intro wp_keeps_then [OF keeps_exchange_config] wp_keeps_then [OF saved_cfg.keeps_issued]
      wp_keeps_then [OF saved_cfg.keeps_certs] assms; (assumption | rule refl))

lemma failed_setup_keeps_config: "wp (cmd_init E args A) (\<lambda>_ _. True) (\<lambda>_ w'. sw_config w' = sw_config w) w"
proof -
  have save: "wp (bindm (save_sync_config E a) (\<lambda>s. ret ())) (\<lambda>_ _. True) (\<lambda>_ w'. sw_config w' = c) w"
    if "sw_config w = c" for a c w
    using that by (simp add: wp_rules) (rule wp_conseq [OF failed_save_config], auto)
  have env: "wp (cmd_init_from_env E) (\<lambda>_ _. True) (\<lambda>_ w'. sw_config w' = sw_config w) w"
    unfolding cmd_init_from_env_def Let_def
    by (simp only: wp_if wp_throw split: if_split)
      (intro conjI impI refl failed_after_exchange wp_keeps_then [OF saved_cfg.keeps_tunnel] save; (assumption | rule refl))
  show ?thesis
    unfolding cmd_init_def
    by (simp only: wp_if wp_throw env split: if_split)
      (intro conjI impI refl failed_after_exchange failed_finish_config; (assumption | rule refl TrueI))
qed

lemma repair_keeps_config: "keeps (\<lambda>w. sw_config w = c) (cmd_repair E code)"
  by (auto simp: cmd_repair_def intro!: keeps_rules keeps_exchange_config saved_cfg.keeps_restore saved_cfg.keeps_certs
      split: sum.split js.split)

definition confirmed :: "setup_env \<Rightarrow> bool" where
  "confirmed E \<longleftrightarrow> ascii_lower (js_trim (se_pin_answer E)) = ''y''"

definition vouched :: "setup_env \<Rightarrow> string list \<Rightarrow> string \<Rightarrow> string list \<Rightarrow> bool" where
  "vouched E args server pins \<longleftrightarrow> pins \<noteq> [] \<and>
     (pins = supplied_pins E \<or> \<not> unattended args \<and> confirmed E \<and> (\<exists>p. pins = [p] \<and> se_probe E server = Inr p))"

lemma tunnel_setup_result:
  assumes "tunnel_setup E server args i w = (Inr r, w')" and "i \<Longrightarrow> \<not> unattended args'"
  shows "r = None \<or> (\<exists>pins. r = Some pins \<and> vouched E args' server pins)"
  using assms by (auto simp: tunnel_setup_def resolve_tunnel_pins_def vouched_def confirmed_def bindm_Inr ret_Inr
      split: if_splits sum.splits)

lemma saved_pins:
  assumes "save_sync_config E a w = (Inr s, w')" and "sw_config w' = Some ps" and "get_prop ps ''tunnelMode'' = JBool True"
  shows "\<exists>p pins. ss_tunnel_pins a = Some (p # pins) \<and> get_prop ps ''pinnedServerSpki'' = JArr (map JStr (p # pins))"
proof -
  have "wp (save_sync_config E a) (\<lambda>s w'. sw_config w' = Some (config_of E a s) \<and>
      (\<exists>H. config_typed H (saved_conf E a s))) (\<lambda>_ _. True) w"
    unfolding save_sync_config_def ensure_folder_def make_dir_def store_in_vault_def
    by (auto simp: wp_rules validated_config_typed_iff split: prod.split)
  with assms obtain H where ps: "ps = config_of E a s" and t: "config_typed H (saved_conf E a s)"
    by (auto simp: wp_def)
  from t have "conf (saved_conf E a s) ''tunnelMode'' = JBool True \<longrightarrow>
      (\<exists>p ps. conf (saved_conf E a s) ''pinnedServerSpki'' = JArr (p # ps))"
    unfolding config_typed_def by (elim conjE)
  with assms(3) have pins: "\<exists>p ps. get_prop (config_of E a s) ''pinnedServerSpki'' = JArr (p # ps)" by (simp add: ps)
  show ?thesis
  proof (cases "ss_tunnel_pins a")
    case None
    with assms(3) show ?thesis by (auto simp: ps get_prop_def config_of_def split: if_splits)
  next
    case (Some l)
    with pins show ?thesis by (cases l) (auto simp: ps get_prop_def config_of_def split: if_splits)
  qed
qed

lemma finish_saves:
  assumes "finish_init E args A key m b sh w = (Inr (), w')"
  shows "\<exists>xs i r w1 w2 a s. i \<and> tunnel_setup E (an_server A) xs i w1 = (Inr r, w2) \<and>
    save_sync_config E a w2 = (Inr s, w') \<and> ss_tunnel_pins a = r"
  using assms unfolding finish_init_def bindm_Inr by (fastforce simp: ret_Inr)

lemma init_saves:
  assumes "cmd_init E args A w = (Inr (), w')"
  obtains xs i r w1 w2 a s where "i \<Longrightarrow> \<not> unattended args"
    "tunnel_setup E (given_server E args A) xs i w1 = (Inr r, w2)" "save_sync_config E a w2 = (Inr s, w')"
    "ss_tunnel_pins a = r"
proof (cases "unattended args")
  case True
  with assms have "cmd_init_from_env E w = (Inr (), w')" by (simp add: cmd_init_def unattended_def)
  then obtain r w1 w2 sv bd sh fo key m au s where t: "tunnel_setup E (given_server E args A) [] False w1 = (Inr r, w2)"
    and save: "save_sync_config E \<lparr>ss_server = sv, ss_bundle = bd, ss_share = sh, ss_folder = fo, ss_key = key, ss_mtls = m,
      ss_auto_update_off = au, ss_tunnel_pins = r\<rparr> w2 = (Inr s, w')"
    using True by (auto simp: cmd_init_from_env_def Let_def given_server_def bindm_Inr ret_Inr split: if_splits)
  show ?thesis by (rule that [OF _ t save]) simp_all
next
  case False
  with assms obtain w0 key m b sh where "finish_init E args A key m b sh w0 = (Inr (), w')"
    unfolding cmd_init_def unattended_def by (auto simp: bindm_Inr split: if_splits)
  from finish_saves [OF this] False that [of True] show ?thesis by (auto simp: given_server_def)
qed

text \<open>Property C18: a configuration in tunnel mode, where the host name is not checked, carries a pin somebody
  vouched for: the ones supplied out of band, or, in an interactive setup only, the one the server
  showed and the user confirmed.\<close>

theorem tunnel_pin_vouched:
  assumes run: "cmd_init E args A w = (Inr (), w')" and saved: "sw_config w' = Some ps"
    and tunnel: "get_prop ps ''tunnelMode'' = JBool True"
  shows "\<exists>pins. get_prop ps ''pinnedServerSpki'' = JArr (map JStr pins) \<and> vouched E args (given_server E args A) pins"
proof -
  from run obtain xs i r w1 w2 a s where i: "i \<Longrightarrow> \<not> unattended args"
    and t: "tunnel_setup E (given_server E args A) xs i w1 = (Inr r, w2)"
    and s: "save_sync_config E a w2 = (Inr s, w')" and r: "ss_tunnel_pins a = r"
    by (rule init_saves) blast
  from saved_pins [OF s saved tunnel] r obtain p pins where "r = Some (p # pins)"
    "get_prop ps ''pinnedServerSpki'' = JArr (map JStr (p # pins))" by auto
  moreover from this(1) tunnel_setup_result [OF t i] have "vouched E args (given_server E args A) (p # pins)" by auto
  ultimately show ?thesis by (intro exI conjI)
qed

section \<open>A run\<close>

definition sample_pin :: string where
  "sample_pin = ''sha256/'' @ replicate 43 (CHR ''A'') @ ''=''"

definition sample_vars :: "string \<Rightarrow> string option" where
  "sample_vars = [''HERMITSTASH_SERVER_URL'' \<mapsto> ''https://h'', ''HERMITSTASH_ENROLLMENT_CODE'' \<mapsto> '' hs-1'',
     ''HERMITSTASH_SYNC_FOLDER'' \<mapsto> ''/d'', ''HERMITSTASH_TUNNEL_MODE'' \<mapsto> ''1'',
     ''HERMITSTASH_PINNED_SERVER_SPKI'' \<mapsto> sample_pin]"

definition sample_saved :: props where
  "sample_saved =
     [(''server'', JStr ''https://h''), (''bundleId'', JStr ''b''), (''shareId'', JStr []), (''syncFolder'', JStr ''/d''),
      (''apiKeyRef'', JStr ''keychain:hermitstash-sync''), (''mtls'', JNull), (''ignore'', JArr []), (''logLevel'', JStr ''info''),
      (''pinnedServerSpki'', JArr [JStr sample_pin]), (''tunnelMode'', JBool True)]"

definition sample_reply :: js where
  "sample_reply = JObj [(''success'', JBool True), (''apiKey'', JStr ''k''), (''bundleId'', JStr ''b'')]"

definition sample_setup :: setup_env where
  "sample_setup = \<lparr>se_host = \<lparr>host_env = sample_vars, host_exists = (\<lambda>_. False), host_read = (\<lambda>_. FileMissing),
       host_json = (\<lambda>t. Some (if t = ''C'' then JObj sample_saved else sample_reply)),
       host_url = (\<lambda>_. Some (''https:'', ''h'')), host_loopback = (\<lambda>_. Some False), host_config_file = ''/c/config.json''\<rparr>,
     se_url_host = (\<lambda>_. ''h''), se_reply = (\<lambda>_ _. Resolved 200 ''R''), se_text = (\<lambda>_. ''C''),
     se_keychain = \<lparr>kc_native = NativeUp, kc_lookup_throws = False, kc_tool_found = True, kc_windows = False, kc_unlink_fails = False\<rparr>,
     se_config_dir = ''/c'', se_home = ''/h'', se_resolve = id, se_disk_fails = (\<lambda>_. False),
     se_probe = (\<lambda>_. Inl []), se_pin_answer = []\<rparr>"

definition no_answers :: answers where
  "no_answers = \<lparr>an_server = [], an_folder = [], an_method = [], an_key = [], an_bundle = [], an_share = [], an_mtls = [],
     an_paths = \<lparr>mp_cert = [], mp_key = [], mp_ca = []\<rparr>, an_code = []\<rparr>"

definition new_machine :: setup_world where
  "new_machine = \<lparr>sw_vault = \<lparr>va_native = (\<lambda>_. None), va_file = NoFile\<rparr>, sw_files = (\<lambda>_. None), sw_dirs = {},
     sw_config = None, sw_codes = []\<rparr>"

definition sample_end :: setup_world where
  "sample_end = final (cmd_init sample_setup [''--ni''] no_answers) new_machine"

lemma sample_run: "cmd_init sample_setup [''--ni''] no_answers new_machine = (Inr (), sample_end)"
proof -
  have "fst (cmd_init sample_setup [''--ni''] no_answers new_machine) = Inr ()" by code_simp
  then show ?thesis by (simp add: sample_end_def final_def prod_eq_iff)
qed

lemma sample_end_config: "sw_config sample_end = Some sample_saved"
  by code_simp

lemma setup_leaves_startable_client_witness:
  "startable sample_setup (\<lambda>_. None) sample_end ''https://h'' ''k'' \<and> plain_key ''k'' \<and>
     sw_codes sample_end = [''HS-1'']"
proof -
  have "same_start sample_setup (\<lambda>_. None)"
    by (auto simp: same_start_def plain_vars_def sample_setup_def sample_vars_def)
  moreover have "text_parses sample_setup sample_end" by code_simp
  ultimately have "\<exists>key. given_key sample_setup [''--ni''] no_answers = Some key \<and>
      startable sample_setup (\<lambda>_. None) sample_end (given_server sample_setup [''--ni''] no_answers) key"
    by (rule setup_leaves_startable_client [OF sample_run])
  moreover have "given_key sample_setup [''--ni''] no_answers = Some ''k''" by code_simp
  moreover have "given_server sample_setup [''--ni''] no_answers = ''https://h''" by code_simp
  moreover have "plain_key ''k''" by code_simp
  moreover have "sw_codes sample_end = [''HS-1'']" by code_simp
  ultimately show ?thesis by simp
qed

lemma tunnel_pin_vouched_witness:
  "vouched sample_setup [''--ni''] (given_server sample_setup [''--ni''] no_answers) [sample_pin]"
proof -
  have t: "get_prop sample_saved ''tunnelMode'' = JBool True" by code_simp
  have p: "get_prop sample_saved ''pinnedServerSpki'' = JArr [JStr sample_pin]"
    by (simp add: get_prop_def sample_saved_def)
  have inj: "map JStr pins = [JStr x] \<Longrightarrow> pins = [x]" for pins x by (cases pins) auto
  from tunnel_pin_vouched [OF sample_run sample_end_config t] show ?thesis
    unfolding p by (auto dest!: inj)
qed

section \<open>What goes wrong\<close>

text \<open>An unattended tunnel setup without a pin can only fail, and does so after the one-time code is spent.\<close>

theorem unattended_tunnel_spends_code:
  assumes v: "vars E ''HERMITSTASH_SERVER_URL'' = Some server" "vars E ''HERMITSTASH_ENROLLMENT_CODE'' = Some code"
    and ne: "server \<noteq> []" "code \<noteq> []" and tunnel: "want_tunnel E []" "supplied_pins E = []"
    and x: "exchange_enrollment_code E server code w = (Inr data, w1)" "issued_key data w1 = (Inr key, w1)"
    and m: "save_mtls_certs E data w1 = (Inr m, w2)"
  shows "cmd_init_from_env E w = (Inl NoPinUnattended, w2)"
  using assms
  by (simp add: cmd_init_from_env_def var_or_empty_def Let_def bindm_def tunnel_setup_def resolve_tunnel_pins_def throw_def)

text \<open>A setup whose configuration is refused has already replaced the key of the old one.\<close>

lemma refused_save_replaces_key:
  assumes "world_exists w (se_resolve E (ss_folder a))" and "store_key (se_keychain E) (ss_key a) JUndef (sw_vault w) = (s, v)"
    and "validate_config (host_on E (vars E) (w\<lparr>sw_vault := v\<rparr>)) (saved_conf E a s) = es" and "es \<noteq> []"
  shows "save_sync_config E a w = (Inl (ConfigErrors es), w\<lparr>sw_vault := v\<rparr>)"
  using assms by (simp add: save_sync_config_def ensure_folder_def store_in_vault_def thenm_def bindm_def reads_def
      whenm_def ret_def modifies_def throw_def)

end
