(* ===== verification/Start_Command.thy ===== *)
theory Start_Command
  imports Daemon_Safety Enrollment_Safety
begin

text \<open>
  \<open>hermitstash-sync start\<close> (\<open>cmdStart\<close> of \<open>lib/cli.js\<close>): the gates in their order, each the model of the
  component that decides it, up to the engine's start and the choice of the update channel; and the
  composition with the setup of theory Enrollment.
\<close>

section \<open>The gates\<close>

datatype ntp_reply = NtpThrew | NtpFatal bool | NtpWarning bool | NtpOk   \<comment> \<open>whether the drift is known\<close>

definition ntp_boot_gate :: "(string \<Rightarrow> string option) \<Rightarrow> ntp_reply \<Rightarrow> bool" where
  "ntp_boot_gate V r =
     (if V ''HERMITSTASH_NTP_DISABLE'' = Some ''1'' then True
      else let strict = (V ''HERMITSTASH_NTP_STRICT'' = Some ''1'') in
        case r of NtpThrew \<Rightarrow> \<not> strict | NtpFatal known \<Rightarrow> False | NtpWarning known \<Rightarrow> known \<or> \<not> strict | NtpOk \<Rightarrow> True)"

text \<open>The wait for a predecessor: \<open>later\<close> is what \<open>isRunning\<close> answers at each poll before the deadline.\<close>

fun await_handoff :: "int option \<Rightarrow> int option list \<Rightarrow> int option" where
  "await_handoff None later = None"
| "await_handoff (Some p) [] = Some p"
| "await_handoff (Some p) (q # later) = await_handoff q later"

record start_env =
  st_args :: "string list"
  st_cfg :: cfg_host
  st_self :: int
  st_pid :: pid_host
  st_pidfile :: pid_file
  st_later :: "int option list"
  st_spawn :: spawn_reply
  st_probes :: "life list"
  st_ntp :: ntp_reply
  st_upd :: upd_host
  st_rollback :: rollback_env
  st_updater :: updater
  st_keychain :: kc_host
  st_vault :: vault
  st_lock :: lock_reply
  st_engine_ok :: bool

record started =
  sd_config :: config
  sd_key :: string
  sd_ignore :: "string list"
  sd_include :: "string list"
  sd_updater :: updater
  sd_pidfile :: pid_file
  sd_channel :: "string option"      \<comment> \<open>the channel polled for updates, if any\<close>

datatype start_result =
    AlreadyRunning int | Forked "int option" | ConfigUnread load_error | ConfigInvalid "config_error list"
  | ClockRefused | RestoredOld | KeyMissing bool | KeyRefusedAt file_refusal | PatternsRefused pattern_error
  | LockRefused | EngineFailed | Started started

definition st_vars :: "start_env \<Rightarrow> string \<Rightarrow> string option" where
  "st_vars E = host_env (st_cfg E)"

definition other_daemon :: "start_env \<Rightarrow> int option" where
  "other_daemon E = (let running = fst (is_running (st_pid E) (st_pidfile E));
       running = (if running = Some (st_self E) then None else running)
     in if st_vars E ''HERMITSTASH_SELF_REPLACE'' = Some ''1'' then await_handoff running (st_later E) else running)"

definition is_child :: "start_env \<Rightarrow> bool" where
  "is_child E \<longleftrightarrow> st_vars E ''HERMITSTASH_SYNC_DAEMON'' = Some ''1'' \<or> ''--child'' \<in> set (st_args E)"

definition update_channel :: "start_env \<Rightarrow> config \<Rightarrow> string option" where
  "update_channel E c =
     (if conf c ''autoUpdate'' \<noteq> JBool False \<and> ''--no-autoupdate'' \<notin> set (st_args E) \<and>
         st_vars E ''HERMITSTASH_AUTO_UPDATE'' \<noteq> Some ''false''
      then Some (if conf c ''autoUpdateChannel'' = JStr ''beta'' then ''beta'' else ''stable'') else None)"

text \<open>From the key on: patterns, the PID lock, the engine.\<close>

definition launch :: "start_env \<Rightarrow> config \<Rightarrow> string \<Rightarrow> updater \<Rightarrow> start_result" where
  "launch E c key u = (case get_ignore_patterns (st_cfg E) c of
     Inl e \<Rightarrow> PatternsRefused e
   | Inr ig \<Rightarrow> (case get_include_patterns (st_cfg E) c of
       Inl e \<Rightarrow> PatternsRefused e
     | Inr inc \<Rightarrow> (case write_pid (st_lock E) (st_self E) (st_pidfile E) of
         (False, f) \<Rightarrow> LockRefused
       | (True, f) \<Rightarrow> if \<not> st_engine_ok E then EngineFailed
           else Started \<lparr>sd_config = c, sd_key = key, sd_ignore = ig, sd_include = inc, sd_updater = u, sd_pidfile = f,
             sd_channel = update_channel E c\<rparr>)))"

definition boot :: "start_env \<Rightarrow> start_result" where
  "boot E = (case load_config (st_cfg E) of
     Inl e \<Rightarrow> ConfigUnread e
   | Inr c \<Rightarrow> (let errors = validate_config (st_cfg E) c in
       if errors \<noteq> [] then ConfigInvalid errors
       else if \<not> ntp_boot_gate (st_vars E) (st_ntp E) then ClockRefused
       else (case check_rollback (st_upd E) (st_rollback E) (st_updater E) of (verdict, u) \<Rightarrow>
         if verdict = RolledBack then RestoredOld
         else (case retrieve_detailed (st_keychain E) (conf c ''apiKeyRef'') (st_vault E) of
             Found key \<Rightarrow> launch E c key u
           | NoKey \<Rightarrow> KeyMissing False
           | Unreachable service \<Rightarrow> KeyMissing True
           | KeyRefused r \<Rightarrow> KeyRefusedAt r))))"

definition cmd_start :: "start_env \<Rightarrow> start_result" where
  "cmd_start E = (case other_daemon E of
     Some pid \<Rightarrow> AlreadyRunning pid
   | None \<Rightarrow>
       if ''--daemon'' \<in> set (st_args E) \<and> \<not> is_child E
       then Forked (fst (daemonize (st_pid E) (st_spawn E) (st_probes E) (st_pidfile E)))
       else boot E)"

section \<open>What a started daemon is\<close>

text \<open>The wait ends with the last answer, or as soon as nobody runs; it never looks past the deadline.\<close>

lemma await_handoff_cases:
  "await_handoff r later = None \<or> (\<exists>p. await_handoff r later = Some p \<and> None \<notin> set later \<and> (later = [] \<longrightarrow> r = Some p))"
  by (induction r later rule: await_handoff.induct) auto

text \<open>What the gates established for a daemon that runs.\<close>

definition sound_start :: "start_env \<Rightarrow> started \<Rightarrow> bool" where
  "sound_start E d \<longleftrightarrow>
     load_config (st_cfg E) = Inr (sd_config d) \<and> config_typed (st_cfg E) (sd_config d) \<and>
     retrieve_detailed (st_keychain E) (conf (sd_config d) ''apiKeyRef'') (st_vault E) = Found (sd_key d) \<and>
     get_ignore_patterns (st_cfg E) (sd_config d) = Inr (sd_ignore d) \<and>
     get_include_patterns (st_cfg E) (sd_config d) = Inr (sd_include d) \<and>
     other_daemon E = None \<and> sd_pidfile d = PidText (int_str (st_self E)) \<and>
     ntp_boot_gate (st_vars E) (st_ntp E) \<and>
     check_rollback (st_upd E) (st_rollback E) (st_updater E) =
       (fst (check_rollback (st_upd E) (st_rollback E) (st_updater E)), sd_updater d) \<and>
     fst (check_rollback (st_upd E) (st_rollback E) (st_updater E)) \<noteq> RolledBack"

lemma launch_started:
  "launch E c key u = Started d \<Longrightarrow>
     d = \<lparr>sd_config = c, sd_key = key, sd_ignore = sd_ignore d, sd_include = sd_include d, sd_updater = u,
       sd_pidfile = PidText (int_str (st_self E)), sd_channel = update_channel E c\<rparr> \<and>
     get_ignore_patterns (st_cfg E) c = Inr (sd_ignore d) \<and> get_include_patterns (st_cfg E) c = Inr (sd_include d)"
  by (auto simp: launch_def write_pid_def split: sum.splits lock_reply.splits if_splits)

text \<open>Property C17: the engine runs only behind every gate, in one daemon: no other process holds the PID file, the
  configuration is valid, the clock was accepted, the boot check did not restore an older image, the
  key is the one the configured store holds, and the patterns are complete.\<close>

theorem started_behind_gates:
  assumes "cmd_start E = Started d"
  shows "sound_start E d"
proof -
  from assms have o: "other_daemon E = None" and b: "boot E = Started d"
    by (auto simp: cmd_start_def split: option.splits if_splits)
  from b obtain c key u v where l: "load_config (st_cfg E) = Inr c" and val: "validate_config (st_cfg E) c = []"
    and n: "ntp_boot_gate (st_vars E) (st_ntp E)"
    and r: "check_rollback (st_upd E) (st_rollback E) (st_updater E) = (v, u)" "v \<noteq> RolledBack"
    and k: "retrieve_detailed (st_keychain E) (conf c ''apiKeyRef'') (st_vault E) = Found key"
    and d: "launch E c key u = Started d"
    by (auto simp: boot_def Let_def split: sum.splits if_splits prod.splits key_result.splits)
  note d' = launch_started [OF d]
  then have "sd_config d = c" "sd_key d = key" "sd_updater d = u" "sd_pidfile d = PidText (int_str (st_self E))"
    by (metis started.simps)+
  with o l val n r k d' show ?thesis by (simp add: sound_start_def validated_config_typed_iff)
qed

section \<open>From setup to a running client\<close>

text \<open>\<open>config.js\<close> names its file \<open>config.json\<close>.\<close>

definition json_named :: "setup_env \<Rightarrow> bool" where
  "json_named S \<longleftrightarrow> ends_with (host_config_file (se_host S)) ''.json''"

lemma no_pattern_file:
  "json_named S \<Longrightarrow> host_read (host_on S V w) (f @ ''.hermitstash-ignore'') = FileMissing"
  "json_named S \<Longrightarrow> host_read (host_on S V w) (f @ ''.hermitstash-include'') = FileMissing"
  by (auto simp: host_on_def json_named_def suffix_def dest: arg_cong [where f = last])

lemma pattern_file_fine:
  "(\<And>f. host_read H (f @ name) = FileMissing) \<Longrightarrow> \<exists>ps. with_pattern_file H c name pats = Inr ps"
proof -
  assume none: "\<And>f. host_read H (f @ name) = FileMissing"
  from none [of "f @ [slash]" for f] have "read_pattern_file H (f @ slash # name) = Inr []" for f
    by (simp add: read_pattern_file_def)
  then show ?thesis by (auto simp: with_pattern_file_def Let_def split: js.split)
qed

lemma fresh_client_patterns:
  "json_named S \<Longrightarrow> \<exists>ig inc. get_ignore_patterns (host_on S V w) c = Inr ig \<and> get_include_patterns (host_on S V w) c = Inr inc"
  using pattern_file_fine [OF no_pattern_file(1)] pattern_file_fine [OF no_pattern_file(2)]
  unfolding get_ignore_patterns_def get_include_patterns_def by metis

text \<open>A start on the machine a setup left, in a process with the variables \<open>V\<close>, that nothing outside the
  configuration refuses.\<close>

definition start_on :: "setup_env \<Rightarrow> (string \<Rightarrow> string option) \<Rightarrow> setup_world \<Rightarrow> start_env \<Rightarrow> bool" where
  "start_on S V w E \<longleftrightarrow> st_cfg E = host_on S V w \<and> st_keychain E = se_keychain S \<and> st_vault E = sw_vault w"

definition unhindered :: "start_env \<Rightarrow> bool" where
  "unhindered E \<longleftrightarrow> other_daemon E = None \<and> (''--daemon'' \<in> set (st_args E) \<longrightarrow> is_child E) \<and>
     ntp_boot_gate (st_vars E) (st_ntp E) \<and>
     fst (check_rollback (st_upd E) (st_rollback E) (st_updater E)) \<noteq> RolledBack \<and>
     st_lock E = LockTaken \<and> st_engine_ok E"

lemma start_after_setup:
  assumes run: "cmd_init S args A w = (Inr (), w')" and parses: "text_parses S w'" and named: "json_named S"
    and V: "same_start S V" and E: "start_on S V w' E" "unhindered E"
    and key: "given_key S args A = Some key" "plain_key key"
  shows "\<exists>d. cmd_start E = Started d \<and> sd_key d = key \<and> conf (sd_config d) ''server'' = JStr (given_server S args A)"
proof -
  from setup_leaves_startable_client [OF run V parses] key
  obtain c where c: "load_config (host_on S V w') = Inr c" "validate_config (host_on S V w') c = []"
    "conf c ''server'' = JStr (given_server S args A)"
    "retrieve_detailed (se_keychain S) (conf c ''apiKeyRef'') (sw_vault w') = Found key"
    by (auto simp: startable_def)
  from fresh_client_patterns [OF named, of V w' c] obtain ig inc where
    "get_ignore_patterns (host_on S V w') c = Inr ig" "get_include_patterns (host_on S V w') c = Inr inc" by blast
  with c E show ?thesis
    by (auto simp: cmd_start_def boot_def launch_def write_pid_def start_on_def unhindered_def split: prod.split)
qed


definition sample_start :: start_env where
  "sample_start = \<lparr>st_args = [''start''], st_cfg = host_on sample_setup (\<lambda>_. None) sample_end, st_self = 7,
     st_pid = \<lparr>ph_life = (\<lambda>_. Gone), ph_unlink_fails = False, ph_windows = False\<rparr>, st_pidfile = NoPidFile,
     st_later = [], st_spawn = SpawnThrew, st_probes = [], st_ntp = NtpWarning False, st_upd = de_upd sample_daemon,
     st_rollback = calm_rollback,
     st_updater = on_probation\<lparr>u_marker := None\<rparr>, st_keychain = se_keychain sample_setup, st_vault = sw_vault sample_end,
     st_lock = LockTaken, st_engine_ok = True\<rparr>"

lemma sample_start_facts:
  "start_on sample_setup (\<lambda>_. None) sample_end sample_start" "unhindered sample_start"
  "same_start sample_setup (\<lambda>_. None)" "json_named sample_setup" "text_parses sample_setup sample_end"
  "given_key sample_setup [''--ni''] no_answers = Some ''k''" "plain_key ''k''"
proof -
  show "start_on sample_setup (\<lambda>_. None) sample_end sample_start" by (simp add: start_on_def sample_start_def)
  show "unhindered sample_start" by code_simp
  show "same_start sample_setup (\<lambda>_. None)" by (auto simp: same_start_def plain_vars_def sample_setup_def sample_vars_def)
  show "json_named sample_setup" "text_parses sample_setup sample_end"
    "given_key sample_setup [''--ni''] no_answers = Some ''k''" "plain_key ''k''" by code_simp+
qed


lemma started_behind_gates_witness:
  "\<exists>d. cmd_start sample_start = Started d \<and> sound_start sample_start d"
proof -
  obtain d where "cmd_start sample_start = Started d"
    using start_after_setup [OF sample_run sample_start_facts(5,4,3,1,2,6,7)] by blast
  with started_behind_gates [OF this] show ?thesis by blast
qed

end
