(* ===== verification/Update_Feed.thy ===== *)
theory Update_Feed
  imports Updater Js_Value
begin

text \<open>
  The updater's side of the release feed (\<open>lib/updater.js\<close>): which published names are this platform's
  binary and its signature, the conditional poll with the last entity tag, the loop of checks.
\<close>

section \<open>Asset names\<close>

record platform =
  pf_tag :: string
  pf_arch :: string
  pf_windows :: bool

definition platform_tag :: "string \<Rightarrow> string" where
  "platform_tag p = (if p = ''win32'' then ''win'' else if p = ''darwin'' then ''macos'' else ''linux'')"

definition name_prefix :: string where
  "name_prefix = ''hermitstash-sync-v''"

definition name_suffix :: "platform \<Rightarrow> string" where
  "name_suffix P = ''-'' @ pf_tag P @ ''-'' @ pf_arch P @ (if pf_windows P then ''.exe'' else [])"

definition asset_name :: "platform \<Rightarrow> string \<Rightarrow> string" where
  "asset_name P version = name_prefix @ version @ name_suffix P"

definition tail_char :: "char \<Rightarrow> bool" where
  "tail_char c \<longleftrightarrow> is_digit c \<or> (65 :: nat) \<le> of_char c \<and> of_char c \<le> (90 :: nat) \<or>
     (97 :: nat) \<le> of_char c \<and> of_char c \<le> (122 :: nat) \<or> c = CHR ''-'' \<or> c = CHR ''.'' \<or> c = CHR ''+''"

text \<open>The optional prerelease and build tail: \<open>(?:[-+][-0-9A-Za-z.+]{1,64})?\<close>.\<close>

definition tail_ok :: "string \<Rightarrow> bool" where
  "tail_ok t = (case t of [] \<Rightarrow> True
     | c # cs \<Rightarrow> (c = CHR ''-'' \<or> c = CHR ''+'') \<and> cs \<noteq> [] \<and> length cs \<le> 64 \<and> (\<forall>x \<in> set cs. tail_char x))"

text \<open>One run of digits, read greedily; what follows a run never starts with a digit.\<close>

definition split_digits :: "string \<Rightarrow> (string \<times> string) option" where
  "split_digits s = (let ds = takeWhile is_digit s in if ds = [] then None else Some (ds, dropWhile is_digit s))"

definition dotted :: "string \<Rightarrow> string option" where
  "dotted s = (case split_digits s of Some (_, c # r) \<Rightarrow> if c = CHR ''.'' then Some r else None | _ \<Rightarrow> None)"

definition version_ok :: "string \<Rightarrow> bool" where
  "version_ok s = (case Option.bind (dotted s) dotted of None \<Rightarrow> False
     | Some r \<Rightarrow> (case split_digits r of None \<Rightarrow> False | Some (_, t) \<Rightarrow> tail_ok t))"

text \<open>The unanchored start of the pattern: some suffix begins with the literal and reads as a version.\<close>

definition stem_matches :: "string \<Rightarrow> bool" where
  "stem_matches s = list_ex (\<lambda>t. starts_with t name_prefix \<and> version_ok (drop (length name_prefix) t)) (suffixes s)"

definition ends_matching :: "string \<Rightarrow> string \<Rightarrow> bool" where
  "ends_matching suf s \<longleftrightarrow> ends_with s suf \<and> stem_matches (take (length s - length suf) s)"

definition asset_matches :: "platform \<Rightarrow> string \<Rightarrow> bool" where
  "asset_matches P = ends_matching (name_suffix P)"

definition signature_matches :: "platform \<Rightarrow> string \<Rightarrow> bool" where
  "signature_matches P = ends_matching (name_suffix P @ ''.sig'')"

section \<open>The regular expression as a set of names\<close>

definition digits :: "string \<Rightarrow> bool" where
  "digits d \<longleftrightarrow> d \<noteq> [] \<and> (\<forall>c \<in> set d. is_digit c)"

definition named_version :: "string \<Rightarrow> bool" where
  "named_version v \<longleftrightarrow> (\<exists>a b c t. v = a @ ''.'' @ b @ ''.'' @ c @ t \<and> digits a \<and> digits b \<and> digits c \<and> tail_ok t)"

lemma no_digit: "\<not> is_digit (CHR ''.'')" "\<not> is_digit (CHR ''-'')" "\<not> is_digit (CHR ''+'')"
  by code_simp+

lemma split_digits_append:
  "digits d \<Longrightarrow> (r = [] \<or> \<not> is_digit (hd r)) \<Longrightarrow> split_digits (d @ r) = Some (d, r)"
proof -
  assume d: "digits d" and r: "r = [] \<or> \<not> is_digit (hd r)"
  then have "takeWhile is_digit (d @ r) = d" "dropWhile is_digit (d @ r) = r"
    by (cases r; simp add: digits_def takeWhile_append2 dropWhile_append2 takeWhile_eq_all_conv dropWhile_eq_Nil_conv)+
  with d show ?thesis by (simp add: split_digits_def digits_def)
qed

lemma split_digits_Some: "split_digits s = Some (d, r) \<Longrightarrow> s = d @ r \<and> digits d"
  by (auto simp: split_digits_def digits_def Let_def dest: set_takeWhileD split: if_splits)

lemma dotted_Some: "dotted s = Some r \<longleftrightarrow> (\<exists>d. digits d \<and> s = d @ ''.'' @ r)"
proof
  assume "dotted s = Some r"
  then obtain d where "split_digits s = Some (d, CHR ''.'' # r)"
    by (auto simp: dotted_def split: option.splits prod.splits list.splits if_splits)
  from split_digits_Some [OF this] show "\<exists>d. digits d \<and> s = d @ ''.'' @ r" by auto
next
  assume "\<exists>d. digits d \<and> s = d @ ''.'' @ r"
  then obtain d where d: "digits d" "s = d @ CHR ''.'' # r" by auto
  then have "split_digits s = Some (d, CHR ''.'' # r)" by (simp add: split_digits_append no_digit)
  then show "dotted s = Some r" by (simp add: dotted_def)
qed

lemma tail_ok_head: "tail_ok t \<Longrightarrow> t = [] \<or> \<not> is_digit (hd t)"
  by (auto simp: tail_ok_def no_digit split: list.splits)

lemma version_ok_iff: "version_ok v \<longleftrightarrow> named_version v"
proof
  assume "version_ok v"
  then obtain r d t where "Option.bind (dotted v) dotted = Some r" "split_digits r = Some (d, t)" "tail_ok t"
    by (auto simp: version_ok_def split: option.splits prod.splits)
  then show "named_version v"
    by (auto simp: named_version_def bind_eq_Some_conv dotted_Some dest!: split_digits_Some)
next
  assume "named_version v"
  then obtain a b c t where v: "v = a @ ''.'' @ b @ ''.'' @ c @ t" and d: "digits a" "digits b" "digits c" "tail_ok t"
    by (auto simp: named_version_def)
  then have "dotted v = Some (b @ ''.'' @ c @ t)" "dotted (b @ ''.'' @ c @ t) = Some (c @ t)"
    by (auto simp: dotted_Some)
  with d show "version_ok v" by (simp add: version_ok_def split_digits_append tail_ok_head)
qed

lemma stem_matches_iff: "stem_matches s \<longleftrightarrow> (\<exists>x v. s = x @ name_prefix @ v \<and> named_version v)"
proof
  assume "stem_matches s"
  then obtain x y v where "s = x @ y" "y = name_prefix @ v" "named_version (drop (length name_prefix) y)"
    by (auto simp: stem_matches_def list_ex_iff version_ok_iff suffix_def prefix_def)
  then show "\<exists>x v. s = x @ name_prefix @ v \<and> named_version v" by auto
next
  assume "\<exists>x v. s = x @ name_prefix @ v \<and> named_version v"
  then obtain x v where "s = x @ name_prefix @ v" "named_version v" by blast
  then show "stem_matches s"
    unfolding stem_matches_def list_ex_iff by (intro bexI [of _ "name_prefix @ v"]) (auto simp: version_ok_iff suffix_def)
qed

lemma ends_matching_iff:
  "ends_matching suf s \<longleftrightarrow> (\<exists>x v. s = x @ name_prefix @ v @ suf \<and> named_version v)"
proof -
  have "ends_matching suf s \<longleftrightarrow> (\<exists>b. s = b @ suf \<and> stem_matches b)"
    by (auto simp: ends_matching_def suffix_def)
  also have "\<dots> \<longleftrightarrow> (\<exists>x v. s = (x @ name_prefix @ v) @ suf \<and> named_version v)"
    unfolding stem_matches_iff by blast
  finally show ?thesis by (simp only: append_assoc)
qed

text \<open>The names the two patterns accept: a version with this platform's suffix, whatever comes before the
  program's name; a signature is exactly an accepted binary with \<open>.sig\<close>, so never the other kind
  of sidecar and never another platform's.\<close>

lemma asset_matches_iff:
  "asset_matches P s \<longleftrightarrow> (\<exists>x v. s = x @ asset_name P v \<and> named_version v)"
  by (simp add: asset_matches_def ends_matching_iff asset_name_def)

theorem signature_belongs_to_asset:
  "signature_matches P s \<longleftrightarrow> (\<exists>a. asset_matches P a \<and> s = a @ ''.sig'')"
proof -
  have "signature_matches P s \<longleftrightarrow> (\<exists>x v. s = (x @ name_prefix @ v @ name_suffix P) @ ''.sig'' \<and> named_version v)"
    by (simp only: signature_matches_def ends_matching_iff append_assoc)
  then show ?thesis unfolding asset_matches_def ends_matching_iff by blast
qed

lemma published_name_found: "named_version v \<Longrightarrow> asset_matches P (asset_name P v) \<and> signature_matches P (asset_name P v @ ''.sig'')"
  unfolding signature_belongs_to_asset asset_matches_iff by (metis append_Nil)

lemma other_sidecar_refused:
  "signature_matches P s \<Longrightarrow> \<not> ends_with (name_suffix P) ''.mldsa'' \<Longrightarrow> 6 \<le> length (name_suffix P) \<Longrightarrow>
     \<not> ends_with s ''.mldsa.sig''"
proof
  assume m: "signature_matches P s" and n: "\<not> ends_with (name_suffix P) ''.mldsa''" "6 \<le> length (name_suffix P)"
    and e: "ends_with s ''.mldsa.sig''"
  from m obtain a where a: "ends_with a (name_suffix P)" "s = a @ ''.sig''"
    unfolding signature_belongs_to_asset asset_matches_def ends_matching_def by blast
  from e obtain z where "a @ ''.sig'' = (z @ ''.mldsa'') @ ''.sig''" by (auto simp: suffix_def a(2))
  then have "ends_with a ''.mldsa''" by (auto simp: suffix_def)
  from suffix_length_suffix [OF this a(1)] n show False by simp
qed

section \<open>The conditional poll\<close>

text \<open>The feed: the entity tag of its current document, if it sends one, and what that document offers. A poll
  that names the current tag is answered 304.\<close>

record feed =
  fd_etag :: "string option"
  fd_offer :: poll

definition poll_feed :: "feed \<Rightarrow> string option \<Rightarrow> poll \<times> string option" where
  "poll_feed F tag = (if tag \<noteq> None \<and> tag = fd_etag F then (PollNothing, tag) else (fd_offer F, fd_etag F))"

definition next_etag :: "poll \<Rightarrow> string option \<Rightarrow> string option \<Rightarrow> string option" where
  "next_etag p sent tag = (if p = PollFails then tag else if sent \<noteq> None \<and> sent \<noteq> Some [] then sent else tag)"

definition check_feed :: "upd_host \<Rightarrow> check_env \<Rightarrow> feed \<Rightarrow> string option \<Rightarrow>
    (check_status \<times> (string \<times> image \<times> string) option) \<times> string option" where
  "check_feed H E F tag =
     (if \<not> ce_pubkey E then (check_once H E, tag)
      else (case poll_feed F tag of (p, sent) \<Rightarrow> (check_once H (E\<lparr>ce_poll := p\<rparr>), next_etag p sent tag)))"

text \<open>The tag is remembered before the download: once an offered update has failed to download, to verify or to
  install, every later check of the same document answers that the client is up to date.\<close>

theorem failed_update_not_retried:
  assumes "ce_pubkey E" and "fd_etag F = Some t" and "t \<noteq> []" and "fd_offer F \<noteq> PollFails"
    and first: "check_feed H E F tag = (r, tag')" and later: "ce_pubkey E'"
  shows "check_feed H E' F tag' = ((UpToDate, None), Some t)"
  using assms by (auto simp: check_feed_def poll_feed_def next_etag_def check_once_def split: if_splits)

lemma failed_update_not_retried_run:
  "fst (fst (check_feed H (E\<lparr>ce_pubkey := True, ce_sea := True, ce_tmp := False\<rparr>)
     \<lparr>fd_etag = Some ''t'', fd_offer = PollAvailable ''v2'' (Some ''a'') (Some ''a.sig'')\<rparr> None)) = CheckError"
  by (simp add: check_feed_def poll_feed_def check_once_def)

section \<open>The loop of checks\<close>

text \<open>The last address of the redirects that were followed, unless the request failed.\<close>

definition resolve_final_url :: "string \<Rightarrow> string list \<Rightarrow> 'error option \<Rightarrow> 'error + string" where
  "resolve_final_url url hops failed = (case failed of Some e \<Rightarrow> Inl e
     | None \<Rightarrow> Inr (foldl (\<lambda>u t. if t = [] then u else t) url hops))"

text \<open>\<open>start\<close>: a first check after a delay and one per interval, guarded by \<open>running\<close>; \<open>pl_checks\<close> counts the
  checks begun, \<open>pl_open\<close> those not yet settled.\<close>

record poll_loop =
  pl_kick :: bool
  pl_repeat :: bool
  pl_running :: bool
  pl_open :: nat
  pl_checks :: nat

datatype loop_event = Kickoff | Interval | CheckSettles | LoopStop

definition loop_start :: "bool \<Rightarrow> poll_loop" where
  "loop_start has_key = \<lparr>pl_kick = has_key, pl_repeat = has_key, pl_running = False, pl_open = 0, pl_checks = 0\<rparr>"

definition run_check :: "poll_loop \<Rightarrow> poll_loop" where
  "run_check p = (if pl_running p then p
     else p\<lparr>pl_running := True, pl_open := pl_open p + 1, pl_checks := pl_checks p + 1\<rparr>)"

definition loop_step :: "poll_loop \<Rightarrow> loop_event \<Rightarrow> poll_loop" where
  "loop_step p e = (case e of
     Kickoff \<Rightarrow> if pl_kick p then run_check (p\<lparr>pl_kick := False\<rparr>) else p
   | Interval \<Rightarrow> if pl_repeat p then run_check p else p
   | CheckSettles \<Rightarrow> if pl_open p > 0 then p\<lparr>pl_open := pl_open p - 1, pl_running := False\<rparr> else p
   | LoopStop \<Rightarrow> p\<lparr>pl_kick := False, pl_repeat := False\<rparr>)"

definition loop_ok :: "poll_loop \<Rightarrow> bool" where
  "loop_ok p \<longleftrightarrow> pl_open p = (if pl_running p then 1 else 0)"

lemma loop_ok_step: "loop_ok p \<Longrightarrow> loop_ok (loop_step p e)"
  by (cases e) (auto simp: loop_ok_def loop_step_def run_check_def)

lemma loop_ok_run: "loop_ok p \<Longrightarrow> loop_ok (foldl loop_step p es)"
  by (induction es arbitrary: p) (simp_all add: loop_ok_step)

lemma stopped_loop_step:
  "\<not> pl_kick p \<Longrightarrow> \<not> pl_repeat p \<Longrightarrow>
     pl_checks (loop_step p e) = pl_checks p \<and> \<not> pl_kick (loop_step p e) \<and> \<not> pl_repeat (loop_step p e)"
  by (cases e) (simp_all add: loop_step_def)

text \<open>Two checks never run at once, however late one settles; after the stop none begins; a build without a key
  never checks.\<close>

theorem checks_never_overlap: "pl_open (foldl loop_step (loop_start k) es) \<le> 1"
proof -
  have "loop_ok (foldl loop_step (loop_start k) es)"
    by (rule loop_ok_run) (simp add: loop_ok_def loop_start_def)
  then show ?thesis by (simp add: loop_ok_def split: if_splits)
qed

lemma silent_loop: "\<not> pl_kick p \<Longrightarrow> \<not> pl_repeat p \<Longrightarrow> pl_checks (foldl loop_step p es) = pl_checks p"
  by (induction es arbitrary: p) (simp_all add: stopped_loop_step)

theorem stopped_loop_checks_no_more:
  "pl_checks (foldl loop_step (loop_step p LoopStop) es) = pl_checks p"
proof -
  have off: "\<not> pl_kick (loop_step p LoopStop)" "\<not> pl_repeat (loop_step p LoopStop)" "pl_checks (loop_step p LoopStop) = pl_checks p"
    by (simp_all add: loop_step_def)
  with silent_loop [OF off(1,2)] show ?thesis by simp
qed

lemma keyless_loop_never_checks: "pl_checks (foldl loop_step (loop_start False) es) = 0"
  by (simp add: silent_loop loop_start_def)

end
