(* ===== verification/Logging.thy ===== *)
theory Logging
  imports Diagnose_Safety
begin

text \<open>
  The logger (\<open>lib/logger.js\<close>): levels, the rotation policy from the environment, opening and reopening the
  file sink, and what reaches the file and the terminal.
\<close>

section \<open>Levels and limits\<close>

datatype level = LDebug | LInfo | LWarn | LError

fun priority :: "level \<Rightarrow> nat" where
  "priority LDebug = 0" | "priority LInfo = 1" | "priority LWarn = 2" | "priority LError = 3"

text \<open>The code compares the numbers of the levels; the model orders the levels by them.\<close>

instantiation level :: linorder
begin

definition less_eq_level :: "level \<Rightarrow> level \<Rightarrow> bool" where
  "less_eq_level l l' \<longleftrightarrow> priority l \<le> priority l'"

definition less_level :: "level \<Rightarrow> level \<Rightarrow> bool" where
  "less_level l l' \<longleftrightarrow> priority l < priority l'"

lemma priority_inj: "priority l = priority l' \<Longrightarrow> l = l'"
  by (cases l; cases l') simp_all

instance
  by standard (auto simp: less_eq_level_def less_level_def intro: priority_inj)

end

definition own_level :: "string \<Rightarrow> level option" where
  "own_level s = (if s = ''debug'' then Some LDebug else if s = ''info'' then Some LInfo
     else if s = ''warn'' then Some LWarn else if s = ''error'' then Some LError else None)"

definition level_text :: "level \<Rightarrow> string" where
  "level_text l = (case l of LDebug \<Rightarrow> ''debug'' | LInfo \<Rightarrow> ''info'' | LWarn \<Rightarrow> ''warn'' | LError \<Rightarrow> ''error'')"

lemma own_level_text [simp]: "own_level (level_text l) = Some l"
  by (cases l) (simp_all add: own_level_def level_text_def)

text \<open>The level of the options: a string that names one, or info.\<close>

definition option_level :: "js \<Rightarrow> level" where
  "option_level v = (case v of JStr s \<Rightarrow> (case own_level s of Some l \<Rightarrow> l | None \<Rightarrow> LInfo) | _ \<Rightarrow> LInfo)"

text \<open>A numeric variable of the environment, as the framework reads it: not set, not a number, a whole number,
  any other number.\<close>

datatype env_number = EnvUnset | EnvGarbage | EnvWhole int | EnvOther

definition max_log_size :: int where
  "max_log_size = 10 * 1048576"

definition resolve_max_log_bytes :: "env_number \<Rightarrow> int" where
  "resolve_max_log_bytes v = (case v of EnvUnset \<Rightarrow> max_log_size
     | EnvWhole n \<Rightarrow> if n \<ge> 1 then n * 1048576 else max_log_size | _ \<Rightarrow> max_log_size)"

definition resolve_keep_rotations :: "env_number \<Rightarrow> int" where
  "resolve_keep_rotations v = (case v of EnvWhole n \<Rightarrow> if n \<ge> 1 then n else 5 | _ \<Rightarrow> 5)"

text \<open>No value of the environment turns rotation off or keeps nothing.\<close>

lemma rotation_floor: "1048576 \<le> resolve_max_log_bytes v \<and> 1 \<le> resolve_keep_rotations v"
  by (simp add: resolve_max_log_bytes_def resolve_keep_rotations_def max_log_size_def split: env_number.split)

section \<open>The detector of bearer credentials\<close>

definition credential_mark :: string where
  "credential_mark = ''[REDACTED-CREDENTIAL]''"

fun bearer_in_string :: "char option \<Rightarrow> string \<Rightarrow> bool" where
  "bearer_in_string p [] = False"
| "bearer_in_string p (c # cs) = (bearer_at p (c # cs) \<noteq> None \<or> bearer_in_string (Some c) cs)"

function mask_bearer :: "char option \<Rightarrow> string \<Rightarrow> string" where
  "mask_bearer p s = (case bearer_at p s of
     Some (k, tok, rest) \<Rightarrow> k @ '' '' @ credential_mark @ mask_bearer (Some (last tok)) rest
   | None \<Rightarrow> (case s of [] \<Rightarrow> [] | c # cs \<Rightarrow> c # mask_bearer (Some c) cs))"
  by pat_completeness auto
termination
  by (relation "measure (length \<circ> snd)") (auto dest: bearer_at_length)

declare mask_bearer.simps [simp del]

lemma bearer_detected_iff: "bearer_in_string p s \<longleftrightarrow> \<not> bearer_free p s"
  by (induction p s rule: bearer_in_string.induct) auto

text \<open>A text without a credential passes unchanged, so running the detector before masking loses nothing.\<close>

lemma mask_bearer_idle: "\<not> bearer_in_string p s \<Longrightarrow> mask_bearer p s = s"
proof (induction p s rule: bearer_in_string.induct)
  case (2 p c cs)
  then show ?case by (subst mask_bearer.simps) (auto split: option.split)
qed (subst mask_bearer.simps, simp add: bearer_at_def Let_def)

definition bearer_detector :: "string \<Rightarrow> string" where
  "bearer_detector v = (if bearer_in_string None v then mask_bearer None v else v)"

section \<open>The logger over its framework\<close>

text \<open>The data of a call: none, an error with message and stack, or a value.\<close>

datatype log_data = NoData | ErrData string string | OtherData js

record log_entry =
  le_level :: level
  le_message :: string
  le_meta :: js

text \<open>The framework's sink while it is open: its file and its least level. What reaches the file and the
  terminal is recorded.\<close>

record logger =
  lg_level :: level
  lg_stdout :: bool
  lg_ready :: bool                                 \<comment> \<open>\<open>_initialized\<close>\<close>
  lg_sink :: "(path \<times> level) option"              \<comment> \<open>the framework's own state\<close>
  lg_file :: "(path \<times> log_entry) list"
  lg_terminal :: "(level \<times> string) list"

record log_host =
  lh_redact :: "js \<Rightarrow> js"
  lh_redact_text :: "string \<Rightarrow> string"
  lh_show :: "js \<Rightarrow> string"                          \<comment> \<open>\<open>JSON.stringify\<close> of an object, string conversion of the rest\<close>
  lh_dir_fails :: bool
  lh_symlink :: bool                               \<comment> \<open>the sink refuses the active path\<close>
  lh_sink_fails :: bool

record log_opts =
  lo_level :: js
  lo_stdout :: js
  lo_file :: path                                  \<comment> \<open>the active path: the file's name with the extension \<open>.log\<close>\<close>

datatype log_error = LogDirFails | SymlinkRefused path | SinkFails

definition sink_init :: "log_host \<Rightarrow> path \<Rightarrow> level \<Rightarrow> logger \<Rightarrow> (log_error + unit) \<times> logger" where
  "sink_init H f l g = (case lg_sink g of Some _ \<Rightarrow> (Inr (), g)
     | None \<Rightarrow> if lh_symlink H then (Inl (SymlinkRefused f), g) else if lh_sink_fails H then (Inl SinkFails, g)
               else (Inr (), g\<lparr>lg_sink := Some (f, l)\<rparr>))"

definition sink_shutdown :: "logger \<Rightarrow> logger" where
  "sink_shutdown g = g\<lparr>lg_sink := None\<rparr>"

definition log_init :: "log_host \<Rightarrow> log_opts \<Rightarrow> logger \<Rightarrow> (log_error + unit) \<times> logger" where
  "log_init H Q g = (let l = option_level (lo_level Q);
       g = g\<lparr>lg_level := l, lg_stdout := lo_stdout Q \<noteq> JBool False\<rparr>
     in if lh_dir_fails H then (Inl LogDirFails, g)
        else (let g = (if lg_ready g then (sink_shutdown g)\<lparr>lg_ready := False\<rparr> else g) in
          case sink_init H (lo_file Q) l g of (Inl e, g) \<Rightarrow> (Inl e, g) | (Inr _, g) \<Rightarrow> (Inr (), g\<lparr>lg_ready := True\<rparr>)))"

text \<open>\<open>close()\<close> marks the logger closed at once; the framework's shutdown ends later.\<close>

definition log_close :: "logger \<Rightarrow> logger" where
  "log_close g = g\<lparr>lg_ready := False\<rparr>"

definition sink_emit :: "log_host \<Rightarrow> level \<Rightarrow> string \<Rightarrow> js \<Rightarrow> logger \<Rightarrow> logger" where
  "sink_emit H l msg meta g = (case lg_sink g of None \<Rightarrow> g
     | Some (f, least) \<Rightarrow> if l < least then g
         else g\<lparr>lg_file := lg_file g @ [(f, \<lparr>le_level = l, le_message = lh_redact_text H msg, le_meta = lh_redact H meta\<rparr>)]\<rparr>)"

definition log_emit :: "log_host \<Rightarrow> string \<Rightarrow> string \<Rightarrow> log_data \<Rightarrow> logger \<Rightarrow> logger" where
  "log_emit H name msg d g =
     (let l = (case own_level name of Some l \<Rightarrow> l | None \<Rightarrow> LInfo) in
      if l < lg_level g then g
      else (let safe = lh_redact_text H msg;
          g = (if lg_ready g then sink_emit H l safe (case d of NoData \<Rightarrow> JUndef
               | ErrData m st \<Rightarrow> JObj [(''error'', JObj [(''message'', JStr m), (''stack'', JStr st)])]
               | OtherData v \<Rightarrow> JObj [(''data'', v)]) g else g)
        in if \<not> lg_stdout g then g
           else g\<lparr>lg_terminal := lg_terminal g @ [(l, case d of
               NoData \<Rightarrow> safe
             | ErrData m st \<Rightarrow> safe @ '': '' @ lh_show H (field (field (lh_redact H (JObj [(''error'', JObj [(''message'', JStr m)])])) ''error'') ''message'')
             | OtherData v \<Rightarrow> safe @ '' '' @ lh_show H (field (lh_redact H (JObj [(''data'', v)])) ''data''))]\<rparr>))"

section \<open>What is written where\<close>

text \<open>While the logger is open the two level gates are the same one, so the file has every record that passed
  the logger's own gate.\<close>

definition log_ok :: "logger \<Rightarrow> bool" where
  "log_ok g \<longleftrightarrow> (lg_ready g \<longrightarrow> (\<exists>f. lg_sink g = Some (f, lg_level g)))"

definition no_stray_sink :: "logger \<Rightarrow> bool" where
  "no_stray_sink g \<longleftrightarrow> (lg_sink g \<noteq> None \<longrightarrow> lg_ready g)"

lemma log_init_reopens:
  assumes "no_stray_sink g" and "log_init H Q g = (Inr (), g')"
  shows "lg_sink g' = Some (lo_file Q, option_level (lo_level Q)) \<and> lg_level g' = option_level (lo_level Q) \<and>
    lg_ready g' \<and> no_stray_sink g' \<and> log_ok g'"
  using assms by (auto simp: log_init_def sink_init_def sink_shutdown_def no_stray_sink_def log_ok_def Let_def
    split: option.splits if_splits)

lemma log_emit_frame:
  "lg_sink (log_emit H name msg d g) = lg_sink g" "lg_level (log_emit H name msg d g) = lg_level g"
  "lg_ready (log_emit H name msg d g) = lg_ready g" "lg_stdout (log_emit H name msg d g) = lg_stdout g"
  by (auto simp: log_emit_def sink_emit_def Let_def split: option.split prod.split)

text \<open>Opening again under another configuration, which waits for the old sink, loses nothing after it: every
  record at the new level is in the new file, its text redacted, and on the terminal unless that was turned
  off.\<close>

theorem reopened_log_writes:
  assumes "no_stray_sink g" and "log_init H Q g = (Inr (), g')" and "own_level name = Some l"
    and "option_level (lo_level Q) \<le> l"
  shows "\<exists>meta. lg_file (log_emit H name msg d g') = lg_file g' @
      [(lo_file Q, \<lparr>le_level = l, le_message = lh_redact_text H (lh_redact_text H msg), le_meta = lh_redact H meta\<rparr>)]"
    and "lo_stdout Q \<noteq> JBool False \<Longrightarrow>
      \<exists>rest. lg_terminal (log_emit H name msg d g') = lg_terminal g' @ [(l, lh_redact_text H msg @ rest)]"
proof -
  note sink = log_init_reopens [OF assms(1,2)]
  from sink assms(3,4) show "\<exists>meta. lg_file (log_emit H name msg d g') = lg_file g' @
      [(lo_file Q, \<lparr>le_level = l, le_message = lh_redact_text H (lh_redact_text H msg), le_meta = lh_redact H meta\<rparr>)]"
    by (auto simp: log_emit_def sink_emit_def Let_def not_less)
  assume "lo_stdout Q \<noteq> JBool False"
  then have "lg_stdout g'"
    using assms(2) by (auto simp: log_init_def sink_init_def sink_shutdown_def Let_def split: option.splits if_splits)
  with sink assms(3,4) show "\<exists>rest. lg_terminal (log_emit H name msg d g') = lg_terminal g' @ [(l, lh_redact_text H msg @ rest)]"
    by (cases d) (auto simp: log_emit_def sink_emit_def Let_def not_less)
qed

text \<open>Opening behind a close that is still draining writes to a sink that is about to go: once the drain ends
  the file gets nothing more. The client awaits every close before it opens again.\<close>

theorem reopen_behind_drain_drops:
  assumes "log_init H Q (log_close g) = (Inr (), g')" and "lg_sink g \<noteq> None"
  shows "lg_file (log_emit H name msg d (sink_shutdown g')) = lg_file g'"
  using assms by (auto simp: log_emit_def sink_emit_def sink_shutdown_def Let_def)

text \<open>Below the level, or unknown names: an unknown name counts as info, and what is below leaves no trace.\<close>

lemma log_emit_quiet: "own_level name = Some l \<Longrightarrow> l < lg_level g \<Longrightarrow> log_emit H name msg d g = g"
  by (simp add: log_emit_def)

lemma log_emit_unknown: "own_level name = None \<Longrightarrow> log_emit H name msg d g = log_emit H ''info'' msg d g"
  by (simp add: log_emit_def own_level_def)

end
