(* ===== verification/Client_Tools.thy ===== *)
theory Client_Tools
  imports Js_Value Server_Trust
begin

text \<open>
  Small tools of the client: long Windows paths (\<open>lib/long-path.js\<close>), the log follower and the duration
  text of the command line (\<open>lib/cli.js\<close>), the probes that settle once, and the drain of a replaced
  connection pool (\<open>lib/http-client.js\<close>, \<open>lib/sync-engine.js\<close>).
\<close>

section \<open>Long paths\<close>

abbreviation bs :: char where "bs \<equiv> CHR 0x5C"

definition long_path_threshold :: nat where
  "long_path_threshold = 248"

definition long_path :: "bool \<Rightarrow> (path \<Rightarrow> path) \<Rightarrow> path \<Rightarrow> path" where
  "long_path windows resolve p =
     (if \<not> windows \<or> p = [] then p
      else if starts_with p [bs, bs, CHR ''?'', bs] \<or> starts_with p [bs, bs, CHR ''.'', bs] then p
      else if length p < long_path_threshold then p
      else (let absolute = map (\<lambda>c. if c = slash then bs else c) (resolve p) in
        if starts_with absolute [bs, bs] then [bs, bs, CHR ''?'', bs] @ ''UNC'' @ [bs] @ drop 2 absolute
        else [bs, bs, CHR ''?'', bs] @ absolute))"

lemma long_path_idem: "long_path w r (long_path w r p) = long_path w r p"
  by (auto simp: long_path_def Let_def)

lemma long_path_cases: "long_path w r p = p \<or> w \<and> starts_with (long_path w r p) [bs, bs, CHR ''?'', bs]"
  by (auto simp: long_path_def Let_def)

section \<open>Following the log\<close>

text \<open>One poll: the file cannot be measured; it is measured but not opened; or it is measured, opened, and a
  read of what it then holds gives at most \<open>k\<close> bytes.\<close>

datatype log_poll = StatFails | OpenFails nat | LogRead nat string nat

record follower =
  fo_pos :: nat
  fo_out :: string

definition rewound :: "nat \<Rightarrow> follower \<Rightarrow> follower" where
  "rewound n f = (if n < fo_pos f then f\<lparr>fo_pos := 0\<rparr> else f)"

definition follow_tick :: "follower \<Rightarrow> log_poll \<Rightarrow> follower" where
  "follow_tick f p = (case p of
     StatFails \<Rightarrow> f
   | OpenFails n \<Rightarrow> rewound n f
   | LogRead n c k \<Rightarrow> (let f = rewound n f; got = take (min k (n - fo_pos f)) (drop (fo_pos f) c) in
       f\<lparr>fo_pos := fo_pos f + length got, fo_out := fo_out f @ got\<rparr>))"

definition follow :: "nat \<Rightarrow> log_poll list \<Rightarrow> follower" where
  "follow start ps = foldl follow_tick \<lparr>fo_pos = start, fo_out = []\<rparr> ps"

text \<open>The polls of a log that only grows, from a first content, and the last content they saw.\<close>

fun grows :: "string \<Rightarrow> log_poll list \<Rightarrow> bool" where
  "grows c [] = True"
| "grows c (StatFails # ps) = grows c ps"
| "grows c (OpenFails n # ps) = (length c \<le> n \<and> grows c ps)"
| "grows c (LogRead n d k # ps) = (length c \<le> n \<and> starts_with d c \<and> grows d ps)"

fun latest :: "string \<Rightarrow> log_poll list \<Rightarrow> string" where
  "latest c [] = c"
| "latest c (LogRead n d k # ps) = latest d ps"
| "latest c (p # ps) = latest c ps"

definition faithful :: "nat \<Rightarrow> string \<Rightarrow> follower \<Rightarrow> bool" where
  "faithful start c f \<longleftrightarrow> start \<le> fo_pos f \<and> fo_pos f \<le> length c \<and> fo_out f = take (fo_pos f - start) (drop start c)"

lemma faithful_not_rewound: "faithful start c f \<Longrightarrow> length c \<le> n \<Longrightarrow> rewound n f = f"
  by (auto simp: faithful_def rewound_def)

lemma take_length_take: "take (length (take m xs)) xs = take m xs"
  by (cases "m \<le> length xs") auto

lemma follow_read_faithful:
  assumes f: "faithful start c f" and n: "length c \<le> n" and d: "starts_with d c"
  shows "faithful start d (follow_tick f (LogRead n d k))"
proof -
  from d obtain x where x: "d = c @ x" by (auto simp: prefix_def)
  define got where "got = take (min k (n - fo_pos f)) (drop (fo_pos f) d)"
  from f x have same: "start \<le> fo_pos f" "fo_pos f \<le> length d" "fo_out f = take (fo_pos f - start) (drop start d)"
    by (auto simp: faithful_def)
  have "take (fo_pos f - start + length got) (drop start d) = fo_out f @ take (length got) (drop (fo_pos f) d)"
    unfolding take_add drop_drop using same by simp
  also have "take (length got) (drop (fo_pos f) d) = got"
    unfolding got_def by (rule take_length_take)
  finally have "take (fo_pos f + length got - start) (drop start d) = fo_out f @ got"
    using same(1) by simp
  moreover have "fo_pos f + length got \<le> length d" using same(2) by (simp add: got_def)
  moreover have "follow_tick f (LogRead n d k) = f\<lparr>fo_pos := fo_pos f + length got, fo_out := fo_out f @ got\<rparr>"
    by (simp only: follow_tick_def log_poll.case faithful_not_rewound [OF f n] Let_def got_def)
  ultimately show ?thesis using same(1) by (simp add: faithful_def)
qed

text \<open>Whatever polls fail and however short the reads are, following a log that only grows prints each byte
  after the start once, in order, and nothing else.\<close>

lemma follow_polls_faithful:
  "grows c ps \<Longrightarrow> faithful start c f \<Longrightarrow> faithful start (latest c ps) (foldl follow_tick f ps)"
  by (induction c ps arbitrary: f rule: grows.induct)
    (simp_all add: follow_read_faithful, simp_all add: follow_tick_def faithful_not_rewound)

theorem follow_faithful:
  "start \<le> length c \<Longrightarrow> grows c ps \<Longrightarrow> faithful start (latest c ps) (follow start ps)"
  unfolding follow_def by (rule follow_polls_faithful) (simp_all add: faithful_def)

section \<open>Durations\<close>

definition duration_parts :: "nat \<Rightarrow> (nat \<times> char) list" where
  "duration_parts sec = (let d = sec div 86400; h = sec mod 86400 div 3600; m = sec mod 3600 div 60; s = sec mod 60;
       big = (if d \<noteq> 0 then [(d, CHR ''d'')] else []) @ (if h \<noteq> 0 then [(h, CHR ''h'')] else []) @
         (if m \<noteq> 0 then [(m, CHR ''m'')] else [])
     in big @ (if s \<noteq> 0 \<or> big = [] then [(s, CHR ''s'')] else []))"

definition fmt_duration :: "int \<Rightarrow> string" where
  "fmt_duration sec = (if sec \<le> 0 then ''0s''
     else concat (map (\<lambda>(i, (n, u)). (if i = 0 then [] else '' '') @ nat_str n @ [u])
       (List.enumerate 0 (duration_parts (nat sec)))))"

definition unit_seconds :: "char \<Rightarrow> nat" where
  "unit_seconds u = (if u = CHR ''d'' then 86400 else if u = CHR ''h'' then 3600 else if u = CHR ''m'' then 60 else 1)"

lemma duration_parts_sum: "(\<Sum>(n, u) \<leftarrow> duration_parts sec. n * unit_seconds u) = sec"
proof -
  have days: "sec div 86400 * 86400 + sec mod 86400 = sec" by (rule div_mult_mod_eq)
  have hours: "sec mod 86400 div 3600 * 3600 + sec mod 3600 = sec mod 86400"
    using div_mult_mod_eq [of "sec mod 86400" 3600] by (simp add: mod_mod_cancel)
  have minutes: "sec mod 3600 div 60 * 60 + sec mod 60 = sec mod 3600"
    using div_mult_mod_eq [of "sec mod 3600" 60] by (simp add: mod_mod_cancel)
  define d h m s where parts: "d = sec div 86400" "h = sec mod 86400 div 3600" "m = sec mod 3600 div 60" "s = sec mod 60"
  have "(\<Sum>(n, u) \<leftarrow> duration_parts sec. n * unit_seconds u) = d * 86400 + h * 3600 + m * 60 + s"
    unfolding duration_parts_def Let_def parts [symmetric]
    by (cases "d = 0"; cases "h = 0"; cases "m = 0"; cases "s = 0"; simp add: unit_seconds_def)
  with days hours minutes show ?thesis unfolding parts by linarith
qed

section \<open>Probes that settle once\<close>

datatype probe_event = ProbeConnected "string option" | ProbeTimedOut | ProbeFailed string

datatype probe_result = ProbePin string | ProbeNoPin | ProbeTimeout | ProbeError string | ProbeRefused

text \<open>\<open>probeServerLeafSpki\<close>: the URL's protocol, then the first event decides; later ones change nothing.\<close>

definition probe_settles :: "probe_event \<Rightarrow> probe_result" where
  "probe_settles e = (case e of ProbeConnected (Some pin) \<Rightarrow> ProbePin pin | ProbeConnected None \<Rightarrow> ProbeNoPin
     | ProbeTimedOut \<Rightarrow> ProbeTimeout | ProbeFailed m \<Rightarrow> ProbeError m)"

definition probe_leaf :: "string option \<Rightarrow> probe_event list \<Rightarrow> probe_result option" where
  "probe_leaf protocol es =
     (if protocol \<noteq> Some ''https:'' then Some ProbeRefused
      else case es of [] \<Rightarrow> None | e # _ \<Rightarrow> Some (probe_settles e))"

datatype tls_probe_event = TlsWorks | TlsFails | TlsTimer

definition probe_mtls_capability :: "bool \<Rightarrow> tls_probe_event list \<Rightarrow> bool option" where
  "probe_mtls_capability throws es = (if throws then Some False
     else case es of [] \<Rightarrow> None | e # _ \<Rightarrow> Some (e = TlsWorks))"

section \<open>Replacing the connection pool\<close>

definition max_drain_ticks :: nat where
  "max_drain_ticks = 20"

text \<open>The tick at which the old pool is destroyed, given whether it is busy at each one.\<close>

fun drain_old_agent :: "nat \<Rightarrow> bool list \<Rightarrow> nat option" where
  "drain_old_agent ticks [] = None"
| "drain_old_agent ticks (busy # later) =
     (if \<not> busy \<or> ticks + 1 \<ge> max_drain_ticks then Some (ticks + 1) else drain_old_agent (ticks + 1) later)"

lemma drain_bounded: "length later \<ge> max_drain_ticks - ticks \<Longrightarrow> ticks < max_drain_ticks \<Longrightarrow>
    \<exists>n. drain_old_agent ticks later = Some n \<and> n \<le> max_drain_ticks"
  by (induction ticks later rule: drain_old_agent.induct) auto

lemma drain_never_cuts: "drain_old_agent ticks later = Some n \<Longrightarrow> n < max_drain_ticks \<Longrightarrow> False \<in> set later"
  by (induction ticks later rule: drain_old_agent.induct) (auto split: if_splits)

section \<open>Limits from the environment\<close>

text \<open>The watcher's variables: the text of one, empty when it is not set or refused for its length.\<close>

definition read_env_raw :: "nat \<Rightarrow> string option \<Rightarrow> string" where
  "read_env_raw bytes v = (case v of None \<Rightarrow> [] | Some s \<Rightarrow> if bytes > 256 then [] else s)"

definition resolve_mode :: "string \<Rightarrow> string" where
  "resolve_mode raw = (let m = js_trim (ascii_lower raw) in if m \<in> {''poll'', ''fs'', ''auto''} then m else ''auto'')"

definition parsed_limit :: "int \<Rightarrow> string \<Rightarrow> int option" where
  "parsed_limit least raw = (case map_option js_number (parse_int (js_trim raw)) of
     Some (JInt n) \<Rightarrow> if n \<ge> least then Some n else None | _ \<Rightarrow> None)"

definition resolve_poll_interval_ms :: "string \<Rightarrow> int" where
  "resolve_poll_interval_ms raw = (case parsed_limit 100 raw of Some n \<Rightarrow> n | None \<Rightarrow> 1000)"

definition resolve_max_pending :: "string \<Rightarrow> int option" where
  "resolve_max_pending raw = parsed_limit 1 raw"

definition resolve_poll_max_files :: "string \<Rightarrow> int option" where
  "resolve_poll_max_files raw = parsed_limit 1 raw"

lemma watcher_limits:
  "100 \<le> resolve_poll_interval_ms raw" "resolve_max_pending raw = Some n \<Longrightarrow> 1 \<le> n" "resolve_mode raw \<in> {''poll'', ''fs'', ''auto''}"
  by (auto simp: resolve_poll_interval_ms_def resolve_max_pending_def parsed_limit_def resolve_mode_def Let_def
      split: option.splits js.splits if_splits)

section \<open>Hashing many files\<close>

text \<open>The option, if it is an integer; one row per path in the order asked, with no digest for a file that cannot
  be read.\<close>

definition hash_concurrency :: "int option \<Rightarrow> nat \<Rightarrow> nat" where
  "hash_concurrency wish files = (case wish of Some n \<Rightarrow> if n > 0 then min (nat n) 256 else min 8 files | None \<Rightarrow> min 8 files)"

definition hash_files_parallel :: "(path \<Rightarrow> string option) \<Rightarrow> path list \<Rightarrow> (path \<times> string option) list" where
  "hash_files_parallel hash_one ps = map (\<lambda>p. (p, hash_one p)) ps"

lemma hash_concurrency_bounds: "files > 0 \<Longrightarrow> 1 \<le> hash_concurrency wish files \<and> hash_concurrency wish files \<le> 256"
  by (auto simp: hash_concurrency_def split: option.split)

end
