(* ===== verification/Telemetry.thy ===== *)
theory Telemetry
  imports Complex_Main Js_Value
begin

text \<open>
  The daemon's telemetry (\<open>lib/metrics.js\<close>): the registry of counters, gauges and histograms, the flat shadow
  values written to the snapshot, and the writer of both files.
\<close>

section \<open>State\<close>

datatype family = Uploads | UploadRetries | CircuitOpens | Downloads | WsReconnects | WsAuthErrors | WsUpgradeRejects | Conflicts

text \<open>The registry: every increment with its label, the gauges, the observations of the two histograms.\<close>

record registry =
  rg_incs :: "(family \<times> string) list"
  rg_gauges :: "string \<rightharpoonup> int"
  rg_uploads :: "rat list"
  rg_downloads :: "rat list"

record shadow =
  sync_state :: string
  file_count :: int
  active_ops :: int
  last_seq :: int
  circuit_state_upload :: string
  uploads_ok :: nat
  uploads_error :: nat
  upload_retries :: nat
  circuit_opens_upload :: nat
  downloads_ok :: nat
  downloads_error :: nat
  ws_reconnects :: nat
  ws_auth_errors :: nat
  ws_upgrade_rejects :: nat
  conflicts :: nat
  upload_pool_inflight :: int
  upload_pool_queue :: int
  cert_expires_in_seconds :: int
  upload_duration_sum :: rat
  upload_duration_count :: nat
  download_duration_sum :: rat
  download_duration_count :: nat

definition first_shadow :: shadow where
  "first_shadow = \<lparr>sync_state = ''DISCONNECTED'', file_count = 0, active_ops = 0, last_seq = 0,
     circuit_state_upload = ''closed'', uploads_ok = 0, uploads_error = 0, upload_retries = 0, circuit_opens_upload = 0,
     downloads_ok = 0, downloads_error = 0, ws_reconnects = 0, ws_auth_errors = 0, ws_upgrade_rejects = 0, conflicts = 0,
     upload_pool_inflight = 0, upload_pool_queue = 0, cert_expires_in_seconds = 0,
     upload_duration_sum = 0, upload_duration_count = 0, download_duration_sum = 0, download_duration_count = 0\<rparr>"

text \<open>What the pool's provider answers: it throws, gives nothing, or an object whose two members may be missing.\<close>

datatype pool_sample = PoolThrows | PoolNothing | PoolSample "int option" "int option"

record snapshot =
  sn_uptime :: int
  sn_fields :: shadow
  sn_metrics :: "registry option"

record telemetry =
  tm_registry :: "registry option"
  tm_shadow :: shadow
  tm_provider :: bool
  tm_writer :: bool
  tm_stats :: "snapshot option"
  tm_prom :: "registry option"         \<comment> \<open>what the sidecar's exposition was rendered from\<close>

definition no_telemetry :: telemetry where
  "no_telemetry = \<lparr>tm_registry = None, tm_shadow = first_shadow, tm_provider = False, tm_writer = False,
     tm_stats = None, tm_prom = None\<rparr>"

definition metrics_init :: "telemetry \<Rightarrow> telemetry" where
  "metrics_init t = (case tm_registry t of Some r \<Rightarrow> t
     | None \<Rightarrow> t\<lparr>tm_registry := Some \<lparr>rg_incs = [], rg_gauges = Map.empty, rg_uploads = [], rg_downloads = []\<rparr>\<rparr>)"

section \<open>Taps and setters\<close>

text \<open>A measured duration: not a finite number, or seconds.\<close>

datatype seconds = NotFinite | Secs rat

datatype tap =
    Upload bool | UploadAttempt | Download bool | Reconnect | AuthError | UpgradeRejected "int option"
  | CircuitOpen string | Conflict | UploadDuration seconds | DownloadDuration seconds

definition outcome :: "bool \<Rightarrow> string" where
  "outcome ok = (if ok then ''ok'' else ''error'')"

definition status_class :: "int option \<Rightarrow> string" where
  "status_class st = (case st of None \<Rightarrow> ''other''
     | Some n \<Rightarrow> if n \<ge> 400 \<and> n < 500 then ''4xx'' else if n \<ge> 500 then ''5xx'' else ''other'')"

definition inc :: "family \<Rightarrow> string \<Rightarrow> registry \<Rightarrow> registry" where
  "inc f l r = r\<lparr>rg_incs := rg_incs r @ [(f, l)]\<rparr>"

definition tap_registry :: "tap \<Rightarrow> registry \<Rightarrow> registry" where
  "tap_registry e r = (case e of
     Upload ok \<Rightarrow> inc Uploads (outcome ok) r
   | UploadAttempt \<Rightarrow> inc UploadRetries [] r
   | Download ok \<Rightarrow> inc Downloads (outcome ok) r
   | Reconnect \<Rightarrow> inc WsReconnects [] r
   | AuthError \<Rightarrow> inc WsAuthErrors [] r
   | UpgradeRejected st \<Rightarrow> inc WsUpgradeRejects (status_class st) r
   | CircuitOpen target \<Rightarrow> inc CircuitOpens (if target = [] then ''upload'' else target) r
   | Conflict \<Rightarrow> inc Conflicts [] r
   | UploadDuration (Secs s) \<Rightarrow> if s < 0 then r else r\<lparr>rg_uploads := rg_uploads r @ [s]\<rparr>
   | DownloadDuration (Secs s) \<Rightarrow> if s < 0 then r else r\<lparr>rg_downloads := rg_downloads r @ [s]\<rparr>
   | _ \<Rightarrow> r)"

definition tap_shadow :: "tap \<Rightarrow> shadow \<Rightarrow> shadow" where
  "tap_shadow e h = (case e of
     Upload ok \<Rightarrow> if ok then h\<lparr>uploads_ok := uploads_ok h + 1\<rparr> else h\<lparr>uploads_error := uploads_error h + 1\<rparr>
   | UploadAttempt \<Rightarrow> h\<lparr>upload_retries := upload_retries h + 1\<rparr>
   | Download ok \<Rightarrow> if ok then h\<lparr>downloads_ok := downloads_ok h + 1\<rparr> else h\<lparr>downloads_error := downloads_error h + 1\<rparr>
   | Reconnect \<Rightarrow> h\<lparr>ws_reconnects := ws_reconnects h + 1\<rparr>
   | AuthError \<Rightarrow> h\<lparr>ws_auth_errors := ws_auth_errors h + 1\<rparr>
   | UpgradeRejected st \<Rightarrow> h\<lparr>ws_upgrade_rejects := ws_upgrade_rejects h + 1\<rparr>
   | CircuitOpen target \<Rightarrow> h\<lparr>circuit_opens_upload := circuit_opens_upload h + 1\<rparr>
   | Conflict \<Rightarrow> h\<lparr>conflicts := conflicts h + 1\<rparr>
   | UploadDuration (Secs s) \<Rightarrow> if s < 0 then h else
       h\<lparr>upload_duration_sum := upload_duration_sum h + s, upload_duration_count := upload_duration_count h + 1\<rparr>
   | DownloadDuration (Secs s) \<Rightarrow> if s < 0 then h else
       h\<lparr>download_duration_sum := download_duration_sum h + s, download_duration_count := download_duration_count h + 1\<rparr>
   | _ \<Rightarrow> h)"

text \<open>A tap before \<open>init\<close> does nothing.\<close>

definition record_tap :: "tap \<Rightarrow> telemetry \<Rightarrow> telemetry" where
  "record_tap e t = (case tm_registry t of None \<Rightarrow> t
     | Some r \<Rightarrow> t\<lparr>tm_registry := Some (tap_registry e r), tm_shadow := tap_shadow e (tm_shadow t)\<rparr>)"

datatype setter = SetSyncState string | SetFileCount int | SetActiveOps int | SetLastSeq int
  | SetCircuitState string string | SetCertExpires int | SetUploadPool int int

definition set_gauge :: "string \<Rightarrow> int \<Rightarrow> telemetry \<Rightarrow> telemetry" where
  "set_gauge g n t = t\<lparr>tm_registry := map_option (\<lambda>r. r\<lparr>rg_gauges := (rg_gauges r)(g \<mapsto> n)\<rparr>) (tm_registry t)\<rparr>"

definition set_value :: "setter \<Rightarrow> telemetry \<Rightarrow> telemetry" where
  "set_value e t = (let h = tm_shadow t in case e of
     SetSyncState s \<Rightarrow> t\<lparr>tm_shadow := h\<lparr>sync_state := s\<rparr>\<rparr>
   | SetFileCount n \<Rightarrow> set_gauge ''files_total'' n (t\<lparr>tm_shadow := h\<lparr>file_count := n\<rparr>\<rparr>)
   | SetActiveOps n \<Rightarrow> set_gauge ''active_ops'' n (t\<lparr>tm_shadow := h\<lparr>active_ops := n\<rparr>\<rparr>)
   | SetLastSeq n \<Rightarrow> set_gauge ''last_seq'' n (t\<lparr>tm_shadow := h\<lparr>last_seq := n\<rparr>\<rparr>)
   | SetCircuitState target s \<Rightarrow> if target = ''upload'' then t\<lparr>tm_shadow := h\<lparr>circuit_state_upload := s\<rparr>\<rparr> else t
   | SetCertExpires n \<Rightarrow> set_gauge ''cert_expires_in_seconds'' n (t\<lparr>tm_shadow := h\<lparr>cert_expires_in_seconds := n\<rparr>\<rparr>)
   | SetUploadPool a q \<Rightarrow> t\<lparr>tm_shadow := h\<lparr>upload_pool_inflight := a, upload_pool_queue := q\<rparr>\<rparr>)"

section \<open>Snapshots\<close>

definition sampled :: "pool_sample \<Rightarrow> shadow \<Rightarrow> shadow" where
  "sampled p h = (case p of PoolSample a q \<Rightarrow>
       (let h = (case a of Some n \<Rightarrow> h\<lparr>upload_pool_inflight := n\<rparr> | None \<Rightarrow> h)
        in case q of Some n \<Rightarrow> h\<lparr>upload_pool_queue := n\<rparr> | None \<Rightarrow> h)
     | _ \<Rightarrow> h)"

definition snapshot_fields :: "pool_sample \<Rightarrow> telemetry \<Rightarrow> telemetry" where
  "snapshot_fields p t = (if tm_provider t then t\<lparr>tm_shadow := sampled p (tm_shadow t)\<rparr> else t)"

text \<open>One write of both files; each write can fail and leaves the old file.\<close>

record flush_env =
  fl_sample :: pool_sample
  fl_uptime :: int
  fl_stats_fails :: bool
  fl_prom_fails :: bool

definition flush_stats :: "flush_env \<Rightarrow> telemetry \<Rightarrow> telemetry" where
  "flush_stats F t = (let t = snapshot_fields (fl_sample F) t in
     if fl_stats_fails F then t
     else t\<lparr>tm_stats := Some \<lparr>sn_uptime = fl_uptime F, sn_fields = tm_shadow t, sn_metrics = tm_registry t\<rparr>\<rparr>)"

definition flush_prom :: "flush_env \<Rightarrow> telemetry \<Rightarrow> telemetry" where
  "flush_prom F t = (case tm_registry t of None \<Rightarrow> t
     | Some r \<Rightarrow> if fl_prom_fails F then t else t\<lparr>tm_prom := Some r\<rparr>)"

definition start_writer :: "flush_env \<Rightarrow> telemetry \<Rightarrow> telemetry" where
  "start_writer F t = (if tm_writer t then t else (flush_prom F (flush_stats F t))\<lparr>tm_writer := True\<rparr>)"

definition stop_writer :: "flush_env \<Rightarrow> telemetry \<Rightarrow> telemetry" where
  "stop_writer F t = (if tm_writer t then (flush_prom F (flush_stats F t))\<lparr>tm_writer := False\<rparr> else t)"

datatype tm_event = Tap tap | Setting setter | Provider bool | StatsTick flush_env | PromTick flush_env
  | StartWriter flush_env | StopWriter flush_env

definition tm_step :: "telemetry \<Rightarrow> tm_event \<Rightarrow> telemetry" where
  "tm_step t e = (case e of
     Tap x \<Rightarrow> record_tap x t
   | Setting x \<Rightarrow> set_value x t
   | Provider on \<Rightarrow> t\<lparr>tm_provider := on\<rparr>
   | StatsTick F \<Rightarrow> if tm_writer t then flush_stats F t else t
   | PromTick F \<Rightarrow> if tm_writer t then flush_prom F t else t
   | StartWriter F \<Rightarrow> start_writer F t
   | StopWriter F \<Rightarrow> stop_writer F t)"

text \<open>\<open>renderPrometheus\<close> over the framework's renderer, which takes flat fields and families.\<close>

definition render_prometheus :: "(shadow option \<Rightarrow> registry option \<Rightarrow> string) \<Rightarrow> snapshot \<Rightarrow> string" where
  "render_prometheus R s = (case sn_metrics s of Some r \<Rightarrow> R None (Some r) | None \<Rightarrow> R (Some (sn_fields s)) None)"

section \<open>The two views agree\<close>

definition total :: "family \<Rightarrow> registry \<Rightarrow> nat" where
  "total f r = length (filter (\<lambda>(g, _). g = f) (rg_incs r))"

definition labelled :: "family \<Rightarrow> string \<Rightarrow> registry \<Rightarrow> nat" where
  "labelled f l r = length (filter (\<lambda>x. x = (f, l)) (rg_incs r))"

definition mirrors :: "shadow \<Rightarrow> registry \<Rightarrow> bool" where
  "mirrors h r \<longleftrightarrow>
     uploads_ok h = labelled Uploads ''ok'' r \<and> uploads_error h = labelled Uploads ''error'' r \<and>
     downloads_ok h = labelled Downloads ''ok'' r \<and> downloads_error h = labelled Downloads ''error'' r \<and>
     upload_retries h = total UploadRetries r \<and> circuit_opens_upload h = total CircuitOpens r \<and>
     ws_reconnects h = total WsReconnects r \<and> ws_auth_errors h = total WsAuthErrors r \<and>
     ws_upgrade_rejects h = total WsUpgradeRejects r \<and> conflicts h = total Conflicts r \<and>
     upload_duration_sum h = sum_list (rg_uploads r) \<and> upload_duration_count h = length (rg_uploads r) \<and>
     download_duration_sum h = sum_list (rg_downloads r) \<and> download_duration_count h = length (rg_downloads r)"

lemma mirrors_first: "mirrors first_shadow \<lparr>rg_incs = [], rg_gauges = Map.empty, rg_uploads = [], rg_downloads = []\<rparr>"
  by (simp add: mirrors_def first_shadow_def labelled_def total_def)

lemma mirrors_tap: "mirrors h r \<Longrightarrow> mirrors (tap_shadow e h) (tap_registry e r)"
  by (cases e) (auto simp: mirrors_def tap_shadow_def tap_registry_def inc_def labelled_def total_def outcome_def split: seconds.split)

lemma mirrors_gauges: "mirrors h (r\<lparr>rg_gauges := g\<rparr>) = mirrors h r"
  by (simp add: mirrors_def labelled_def total_def)

lemma mirrors_sampled: "mirrors (sampled p h) r = mirrors h r"
  by (cases p) (auto simp: mirrors_def sampled_def Let_def split: option.split)

definition tm_ok :: "telemetry \<Rightarrow> bool" where
  "tm_ok t \<longleftrightarrow> (\<exists>r. tm_registry t = Some r \<and> mirrors (tm_shadow t) r) \<and>
     (\<forall>s. tm_stats t = Some s \<longrightarrow> (\<exists>r. sn_metrics s = Some r \<and> mirrors (sn_fields s) r))"

lemma tm_ok_flush: "tm_ok t \<Longrightarrow> tm_ok (flush_stats F t)" "tm_ok t \<Longrightarrow> tm_ok (flush_prom F t)"
  by (auto simp: tm_ok_def flush_stats_def flush_prom_def snapshot_fields_def mirrors_sampled Let_def split: option.split)

lemma tm_ok_writer: "tm_ok (t\<lparr>tm_writer := w\<rparr>) = tm_ok t" "tm_ok (t\<lparr>tm_provider := w\<rparr>) = tm_ok t"
  by (simp_all add: tm_ok_def)

lemma tm_ok_setter: "tm_ok t \<Longrightarrow> tm_ok (set_value e t)"
  by (cases e) (auto simp: tm_ok_def set_value_def set_gauge_def mirrors_gauges Let_def, auto simp: mirrors_def)

lemma tm_ok_step: "tm_ok t \<Longrightarrow> tm_ok (tm_step t e)"
  by (cases e) (auto simp: tm_step_def start_writer_def stop_writer_def tm_ok_flush tm_ok_writer tm_ok_setter,
    auto simp: tm_ok_def record_tap_def mirrors_tap)

text \<open>From \<open>init\<close> on, whatever is counted and whichever writes fail, the flat values that \<open>stats\<close> shows and the
  labelled families a scraper reads agree, in the process and in every snapshot on disk.\<close>

theorem telemetry_views_agree: "tm_ok (foldl tm_step (metrics_init no_telemetry) es)"
proof -
  have "tm_ok t \<Longrightarrow> tm_ok (foldl tm_step t es)" for t
    by (induction es arbitrary: t) (simp_all add: tm_ok_step)
  moreover have "tm_ok (metrics_init no_telemetry)"
    using mirrors_first by (simp add: tm_ok_def metrics_init_def no_telemetry_def)
  ultimately show ?thesis by blast
qed

text \<open>Counters only grow, so two snapshots of one process are ordered.\<close>

lemma tap_registry_grows: "\<exists>xs. rg_incs (tap_registry e r) = rg_incs r @ xs"
  by (cases e) (auto simp: tap_registry_def inc_def split: seconds.split)

lemma counters_grow:
  assumes "tm_registry t = Some r"
  shows "\<exists>r' xs. tm_registry (tm_step t e) = Some r' \<and> rg_incs r' = rg_incs r @ xs"
  using assms tap_registry_grows
  by (cases e) (auto simp: tm_step_def record_tap_def set_value_def set_gauge_def start_writer_def stop_writer_def
      flush_stats_def flush_prom_def snapshot_fields_def Let_def split: setter.split)

text \<open>After the final flush of a stopped writer, the sidecar and the snapshot were rendered from one registry:
  a scrape that finds no sidecar and falls back to the snapshot reads the same series.\<close>

theorem fallback_matches_sidecar:
  assumes "tm_writer t" and "tm_registry t = Some r" and "\<not> fl_stats_fails F" and "\<not> fl_prom_fails F"
    and "\<And>r. R None (Some r) = exposition r"
  shows "map_option exposition (tm_prom (stop_writer F t)) = map_option (render_prometheus R) (tm_stats (stop_writer F t))"
    and "tm_prom (stop_writer F t) = Some r"
  using assms by (simp_all add: stop_writer_def flush_stats_def flush_prom_def snapshot_fields_def render_prometheus_def Let_def)

end
