(* ===== verification/State_Open.thy ===== *)
theory State_Open
  imports Js_Value
begin

text \<open>
  The life of the state database's file (\<open>lib/state-db.js\<close>): opening with and without recovery, the schema
  and its one migration, the dump for support; and the persisted name of this installation
  (\<open>lib/ws-client.js\<close>, \<open>instanceId\<close>).
\<close>

section \<open>The file\<close>

text \<open>A database file as opening sees it: whether the tables exist, whether \<open>files\<close> has the column
  \<open>needsBytes\<close>, and the rows.\<close>

record 'rows db_image =
  di_tables :: bool
  di_needs_bytes :: bool
  di_rows :: 'rows

datatype 'rows db_disk = NoDb | Damaged 'rows | Stored "'rows db_image"

record 'rows db_world =
  dw_disk :: "'rows db_disk"
  dw_aside :: "'rows db_disk list"    \<comment> \<open>what recovery renamed aside\<close>
  dw_handle :: bool                   \<comment> \<open>\<open>_handle\<close> is set\<close>

datatype recovery = Refuse | RenameAndRecreate

datatype open_error = NoDirectory | NotOpened | IsCorrupt | RecoveryFailed | MigrationFailed

text \<open>What the host answers: opening a file that is there can fail, with a message that looks like damage or
  not; the second attempt after a recovery can fail; so can the rename, \<open>ALTER TABLE\<close> on a table without
  the column, and the probe of the table's columns.\<close>

record db_host =
  dh_dir_fails :: bool
  dh_open_fails :: "bool option"
  dh_rename_fails :: bool
  dh_again_fails :: bool
  dh_alter_fails :: bool
  dh_probe_fails :: bool

definition fresh_image :: "'rows \<Rightarrow> 'rows db_image" where
  "fresh_image none = \<lparr>di_tables = True, di_needs_bytes = True, di_rows = none\<rparr>"

text \<open>\<open>CREATE TABLE IF NOT EXISTS\<close> for both tables.\<close>

definition with_schema :: "'rows \<Rightarrow> 'rows db_image \<Rightarrow> 'rows db_image" where
  "with_schema none i = (if di_tables i then i else fresh_image none)"

datatype attempt = Opened | LooksCorrupt | OtherFailure

definition attempt_open :: "'rows \<Rightarrow> bool option \<Rightarrow> 'rows db_disk \<Rightarrow> attempt \<times> 'rows db_disk" where
  "attempt_open none fails d =
     (case fails of Some corrupt \<Rightarrow> (if corrupt then LooksCorrupt else OtherFailure, d)
      | None \<Rightarrow> (case d of NoDb \<Rightarrow> (Opened, Stored (fresh_image none))
          | Damaged r \<Rightarrow> (LooksCorrupt, d)
          | Stored i \<Rightarrow> (Opened, Stored (with_schema none i))))"

text \<open>\<open>b.localDb.thin\<close>: one attempt; on damage and with recovery, the file is renamed aside and a second one
  starts fresh.\<close>

definition thin :: "db_host \<Rightarrow> 'rows \<Rightarrow> recovery \<Rightarrow> 'rows db_world \<Rightarrow> (open_error + unit) \<times> 'rows db_world" where
  "thin H none m w = (case attempt_open none (dh_open_fails H) (dw_disk w) of
     (Opened, d) \<Rightarrow> (Inr (), w\<lparr>dw_disk := d\<rparr>)
   | (OtherFailure, _) \<Rightarrow> (Inl NotOpened, w)
   | (LooksCorrupt, _) \<Rightarrow>
       (if m = Refuse then (Inl IsCorrupt, w)
        else if dw_disk w \<noteq> NoDb \<and> dh_rename_fails H then (Inl RecoveryFailed, w)
        else (let w = (if dw_disk w = NoDb then w else w\<lparr>dw_aside := dw_aside w @ [dw_disk w], dw_disk := NoDb\<rparr>)
          in if dh_again_fails H then (Inl NotOpened, w)
             else (Inr (), w\<lparr>dw_disk := Stored (fresh_image none)\<rparr>))))"

text \<open>\<open>_migrateNeedsBytes\<close>: the statement fails on a table that has the column; the probe tells that failure
  from the others.\<close>

definition migrate_needs_bytes :: "db_host \<Rightarrow> 'rows db_image \<Rightarrow> 'rows db_image option" where
  "migrate_needs_bytes H i =
     (if \<not> di_needs_bytes i \<and> \<not> dh_alter_fails H then Some (i\<lparr>di_needs_bytes := True\<rparr>)
      else if dh_probe_fails H then None
      else if di_needs_bytes i then Some i else None)"

definition open_db :: "db_host \<Rightarrow> 'rows \<Rightarrow> recovery \<Rightarrow> 'rows db_world \<Rightarrow> (open_error + unit) \<times> 'rows db_world" where
  "open_db H none m w = (let w = w\<lparr>dw_handle := False\<rparr> in
     if dh_dir_fails H then (Inl NoDirectory, w)
     else case thin H none m w of
       (Inl e, w) \<Rightarrow> (Inl e, w)
     | (Inr _, w) \<Rightarrow> (let w = w\<lparr>dw_handle := True\<rparr> in
         if m = Refuse then (Inr (), w)
         else case dw_disk w of
           Stored i \<Rightarrow> (case migrate_needs_bytes H i of
               Some i' \<Rightarrow> (Inr (), w\<lparr>dw_disk := Stored i'\<rparr>) | None \<Rightarrow> (Inl MigrationFailed, w))
         | _ \<Rightarrow> (Inr (), w)))"

section \<open>What opening keeps\<close>

fun rows_of :: "'rows db_disk \<Rightarrow> 'rows list" where
  "rows_of NoDb = []"
| "rows_of (Damaged r) = [r]"
| "rows_of (Stored i) = (if di_tables i then [di_rows i] else [])"

definition rows_kept :: "'rows db_world \<Rightarrow> 'rows set" where
  "rows_kept w = set (rows_of (dw_disk w)) \<union> (\<Union>d \<in> set (dw_aside w). set (rows_of d))"

lemmas open_defs = open_db_def thin_def attempt_open_def migrate_needs_bytes_def with_schema_def fresh_image_def Let_def

text \<open>No opening, successful or not, loses rows: they stay in the file, or in a file beside it.\<close>

theorem open_keeps_rows: "rows_kept w \<subseteq> rows_kept (snd (open_db H none m w))"
proof (cases "dw_disk w")
  case (Stored i)
  then show ?thesis by (cases "di_tables i"; cases m) (auto simp: open_defs rows_kept_def split: option.split)
qed (auto simp: open_defs rows_kept_def split: option.split)

text \<open>A reader, which opens with \<open>refuse\<close>, leaves a database that has its tables exactly as it was, and a
  damaged one too.\<close>

theorem reader_changes_nothing:
  assumes "dw_disk w = Damaged r \<or> dw_disk w = Stored i \<and> di_tables i"
  shows "dw_disk (snd (open_db H none Refuse w)) = dw_disk w \<and> dw_aside (snd (open_db H none Refuse w)) = dw_aside w"
  using assms by (auto simp: open_defs split: option.split)

text \<open>Once the daemon's own opening has returned, both tables and the column are there.\<close>

theorem daemon_open_complete:
  assumes "fst (open_db H none RenameAndRecreate w) = Inr ()"
  obtains i where "dw_disk (snd (open_db H none RenameAndRecreate w)) = Stored i" "di_tables i" "di_needs_bytes i"
    "dw_handle (snd (open_db H none RenameAndRecreate w))"
proof -
  have "\<exists>i. dw_disk (snd (open_db H none RenameAndRecreate w)) = Stored i \<and> di_tables i \<and> di_needs_bytes i \<and>
      dw_handle (snd (open_db H none RenameAndRecreate w))"
    using assms by (cases "dw_disk w") (auto simp: open_defs split: option.splits if_splits)
  with that show ?thesis by blast
qed

text \<open>A reader on a host whose daemon has not run yet writes all the same: it creates the file.\<close>

theorem reader_creates_database:
  "\<not> dh_dir_fails H \<Longrightarrow> dh_open_fails H = None \<Longrightarrow> dw_disk w = NoDb \<Longrightarrow>
     dw_disk (snd (open_db H none Refuse w)) = Stored (fresh_image none)"
  by (simp add: open_defs)

text \<open>When the migration fails, \<open>open\<close> throws but leaves its handle set.\<close>

theorem failed_migration_leaves_handle:
  "fst (open_db H none m w) = Inl MigrationFailed \<Longrightarrow> dw_handle (snd (open_db H none m w))"
  by (cases "dw_disk w") (auto simp: open_defs split: option.splits if_splits)

section \<open>The dump for support\<close>

record db_object =
  ob_type :: string
  ob_name :: string
  ob_sql :: string

definition name_start :: "char \<Rightarrow> bool" where
  "name_start c \<longleftrightarrow> (65 :: nat) \<le> of_char c \<and> of_char c \<le> (90 :: nat) \<or>
     (97 :: nat) \<le> of_char c \<and> of_char c \<le> (122 :: nat) \<or> c = CHR ''_''"

definition plain_name :: "string \<Rightarrow> bool" where
  "plain_name s = (case s of [] \<Rightarrow> False | c # cs \<Rightarrow> name_start c \<and> (\<forall>x \<in> set cs. name_start x \<or> is_digit x))"

definition count_query :: "string \<Rightarrow> string" where
  "count_query n = ''SELECT COUNT(*) AS n FROM '' @ [CHR 0x22] @ n @ [CHR 0x22]"

text \<open>\<open>ask\<close> runs a query: a count, no row, or a failure. The result pairs each table with its count.\<close>

definition table_count :: "(string \<Rightarrow> nat option) \<Rightarrow> string \<Rightarrow> nat option" where
  "table_count ask n = (if \<not> plain_name n then None else ask (count_query n))"

definition dump_schema :: "string + db_object list \<Rightarrow> (string \<Rightarrow> nat option) \<Rightarrow>
    string option \<times> db_object list \<times> (string \<rightharpoonup> nat option)" where
  "dump_schema listed ask = (case listed of Inl msg \<Rightarrow> (Some msg, [], Map.empty)
     | Inr os \<Rightarrow> (None, os,
         foldl (\<lambda>m ob. if ob_type ob \<noteq> ''table'' then m else m(ob_name ob \<mapsto> table_count ask (ob_name ob))) Map.empty os))"

lemma plain_name_unquoted: "plain_name n \<Longrightarrow> CHR 0x22 \<notin> set n"
proof -
  have "\<not> name_start (CHR 0x22)" "\<not> is_digit (CHR 0x22)" by code_simp+
  then show "plain_name n \<Longrightarrow> CHR 0x22 \<notin> set n" by (auto simp: plain_name_def split: list.splits)
qed

text \<open>Whatever names a damaged or planted database lists, only queries of the fixed shape with a plain
  name between the quotes are run.\<close>

theorem dump_runs_fixed_queries:
  assumes "\<And>n. plain_name n \<Longrightarrow> ask (count_query n) = ask' (count_query n)"
  shows "dump_schema listed ask = dump_schema listed ask'"
proof -
  from assms have same: "table_count ask = table_count ask'" by (auto simp: table_count_def)
  show ?thesis unfolding dump_schema_def by (subst same) (rule refl)
qed

section \<open>The name of this installation\<close>

definition id_char :: "char \<Rightarrow> bool" where
  "id_char c \<longleftrightarrow> name_start c \<or> is_digit c \<or> c = CHR ''-''"

definition id_ok :: "string \<Rightarrow> bool" where
  "id_ok s \<longleftrightarrow> 8 \<le> length s \<and> length s \<le> 64 \<and> (\<forall>c \<in> set s. id_char c)"

text \<open>The file's text if it can be read, a fresh token, whether the write fails: the name, and the file.\<close>

definition instance_id :: "string option \<Rightarrow> string \<Rightarrow> bool \<Rightarrow> string option \<times> string option" where
  "instance_id stored token write_fails =
     (case map_option js_trim stored of
        Some s \<Rightarrow> if id_ok s then (Some s, stored) else
          (let fresh = take 32 (filter id_char token) in
           if length fresh \<ge> 8 \<and> \<not> write_fails then (Some fresh, Some (fresh @ [CHR 0x0A])) else (None, stored))
      | None \<Rightarrow>
          (let fresh = take 32 (filter id_char token) in
           if length fresh \<ge> 8 \<and> \<not> write_fails then (Some fresh, Some (fresh @ [CHR 0x0A])) else (None, stored)))"

lemma id_char_not_space: "id_char c \<Longrightarrow> \<not> js_space c"
  by (auto simp: id_char_def name_start_def is_digit_def js_space_def is_space_def)

lemma trim_id:
  assumes "id_ok s"
  shows "js_trim (s @ [CHR 0x0A]) = s"
proof -
  have keep: "dropWhile js_space xs = xs" if "\<forall>c \<in> set xs. id_char c" for xs
    using that by (cases xs) (auto simp: id_char_not_space)
  have "js_space (CHR 0x0A)" by code_simp
  with assms keep [of s] keep [of "rev s"] show ?thesis
    by (cases s) (auto simp: id_ok_def js_trim_def id_char_not_space)
qed

text \<open>What is sent is well formed whatever the file holds, and the next run of the client sends the same.\<close>

theorem instance_id_stable:
  assumes "instance_id stored token write_fails = (Some n, stored')"
  shows "id_ok n \<and> instance_id stored' token' write_fails' = (Some n, stored')"
proof -
  let ?fresh = "take 32 (filter id_char token)"
  have fresh: "id_ok ?fresh" if "8 \<le> length ?fresh"
    using that by (auto simp: id_ok_def dest!: in_set_takeD)
  show ?thesis
    using assms trim_id fresh
    by (auto simp: instance_id_def Let_def split: option.splits if_splits)
qed

end
