(* ===== verification/Command_Line.thy ===== *)
theory Command_Line
  imports Client_Tools Telemetry State_Open
begin

text \<open>
  The command line around the daemon (\<open>lib/cli.js\<close>): the choice of the command, what \<open>status\<close> and \<open>stats\<close>
  show, the tail of \<open>log\<close>, the arguments of \<open>diagnose\<close>.
\<close>

section \<open>Commands\<close>

datatype command = CmdInit | CmdStart | CmdStatus | CmdStats | CmdStop | CmdLog | CmdResync | CmdRepair
  | CmdDiagnose | CmdVersion | CmdHelp | CmdUnknown string

definition run_command :: "string list \<Rightarrow> command" where
  "run_command args = (let c = (case args of [] \<Rightarrow> ''help'' | a # _ \<Rightarrow> if a = [] then ''help'' else a) in
     if c = ''init'' then CmdInit else if c = ''start'' then CmdStart else if c = ''status'' then CmdStatus
     else if c = ''stats'' then CmdStats else if c = ''stop'' then CmdStop else if c = ''log'' then CmdLog
     else if c = ''resync'' then CmdResync else if c = ''repair'' then CmdRepair else if c = ''diagnose'' then CmdDiagnose
     else if c = ''version'' then CmdVersion else if c \<in> {''help'', ''--help'', ''-h''} then CmdHelp else CmdUnknown c)"

text \<open>Only the first argument chooses, and a command that is not known is never taken for one that is.\<close>

lemma run_command_unknown: "run_command args = CmdUnknown c \<Longrightarrow> \<exists>rest. args = c # rest"
  by (cases args) (auto simp: run_command_def Let_def split: if_splits)

section \<open>The tail of the log\<close>

definition nl :: char where
  "nl = CHR 0x0A"

fun join_on :: "char \<Rightarrow> string list \<Rightarrow> string" where
  "join_on c [] = []"
| "join_on c [l] = l"
| "join_on c (l # ls) = l @ c # join_on c ls"

definition last_lines :: "nat \<Rightarrow> string \<Rightarrow> string" where
  "last_lines n content = (let ls = split_on nl (js_trim content) in join_on nl (drop (length ls - n) ls))"

datatype log_reply = NoLogFile | LogSymlink | LogThrows | LogText string

datatype log_shown = NothingFound | RefusedSymlink | Threw | Shown string

definition cmd_log_tail :: "log_reply \<Rightarrow> log_shown" where
  "cmd_log_tail r = (case r of NoLogFile \<Rightarrow> NothingFound | LogSymlink \<Rightarrow> RefusedSymlink | LogThrows \<Rightarrow> Threw
     | LogText t \<Rightarrow> Shown (last_lines 50 t))"

lemma join_on_Cons: "ls \<noteq> [] \<Longrightarrow> join_on c (l # ls) = l @ c # join_on c ls"
  by (cases ls) auto

lemma join_split: "join_on c (split_on c s) = s"
proof (induction s)
  case (Cons x s)
  obtain l ls where "split_on c s = l # ls" using split_on_nonempty by (metis list.exhaust)
  with Cons show ?case by (cases ls) auto
qed simp

lemma join_drop_suffix: "suffix (join_on c (drop k ls)) (join_on c ls)"
proof (induction k arbitrary: ls)
  case (Suc k)
  show ?case
  proof (cases ls)
    case (Cons l ls')
    show ?thesis
    proof (cases ls')
      case (Cons l' ls'')
      have "suffix (join_on c ls') (join_on c (l # ls'))"
        unfolding Cons suffix_def by (auto intro: exI [of _ "l @ [c]"])
      with Suc.IH [of ls'] show ?thesis unfolding \<open>ls = l # ls'\<close> by (auto intro: suffix_order.trans)
    qed (simp add: Cons suffix_def)
  qed simp
qed simp

text \<open>\<open>log\<close> prints the end of the trimmed log, at most the lines asked for, and all of a shorter one.\<close>

theorem last_lines_suffix:
  "suffix (last_lines n content) (js_trim content) \<and>
   (length (split_on nl (js_trim content)) \<le> n \<longrightarrow> last_lines n content = js_trim content)"
  using join_drop_suffix [of nl _ "split_on nl (js_trim content)"] by (simp add: last_lines_def Let_def join_split)

section \<open>Arguments of diagnose\<close>

fun diagnose_out :: "(path \<Rightarrow> path) \<Rightarrow> path \<Rightarrow> string list \<Rightarrow> path" where
  "diagnose_out resolve out [] = out"
| "diagnose_out resolve out [a] = out"
| "diagnose_out resolve out (a # b # rest) =
     (if a = ''--out'' \<and> b \<noteq> [] then diagnose_out resolve (resolve b) rest else diagnose_out resolve out (b # rest))"

definition cmd_diagnose_out :: "(path \<Rightarrow> path) \<Rightarrow> path \<Rightarrow> string list \<Rightarrow> path" where
  "cmd_diagnose_out resolve standard args = diagnose_out resolve standard (drop 1 args)"

lemma diagnose_out_chosen:
  "diagnose_out resolve out args = out \<or> (\<exists>p \<in> set args. p \<noteq> [] \<and> diagnose_out resolve out args = resolve p)"
  by (induction resolve out args rule: diagnose_out.induct) auto

lemma diagnose_out_default: "''--out'' \<notin> set args \<Longrightarrow> diagnose_out resolve out args = out"
  by (induction resolve out args rule: diagnose_out.induct) auto

section \<open>Status and stats\<close>

text \<open>The rows \<open>status\<close> names: the first five in error, and how many more.\<close>

definition error_lines :: "path list \<Rightarrow> path list \<times> nat" where
  "error_lines errors = (take 5 errors, if length errors > 5 then length errors - 5 else 0)"

lemma error_lines_account: "length (fst (error_lines errors)) + snd (error_lines errors) = length errors"
  by (simp add: error_lines_def)

text \<open>How the snapshot is framed: the daemon's PID if it runs, the age of the snapshot in whole seconds.\<close>

datatype stats_view = Historical | Stalled string | Live

definition stats_view_of :: "int option \<Rightarrow> int \<Rightarrow> stats_view" where
  "stats_view_of running age = (if running = None then Historical
     else if age > 60 then Stalled (fmt_duration age) else Live)"

definition average :: "rat \<Rightarrow> nat \<Rightarrow> rat option" where
  "average whole n = (if n > 0 then Some (whole / of_nat n) else None)"

definition latency_line :: "snapshot \<Rightarrow> (rat option \<times> rat option) option" where
  "latency_line s = (let f = sn_fields s in
     if upload_duration_count f > 0 \<or> download_duration_count f > 0
     then Some (average (upload_duration_sum f) (upload_duration_count f),
                average (download_duration_sum f) (download_duration_count f))
     else None)"

text \<open>\<open>stats --prometheus\<close>: the sidecar's bytes when it can be read, else the snapshot rendered, else exit 1.\<close>

datatype sidecar = NoSidecar | SidecarUnreadable | SidecarText string

definition prometheus_output :: "(shadow option \<Rightarrow> registry option \<Rightarrow> string) \<Rightarrow> sidecar \<Rightarrow> snapshot option \<Rightarrow> int + string" where
  "prometheus_output R s snap = (case s of SidecarText t \<Rightarrow> Inr t
     | _ \<Rightarrow> (case snap of None \<Rightarrow> Inl 1 | Some sn \<Rightarrow> Inr (render_prometheus R sn)))"

text \<open>What \<open>status\<close> and \<open>stats\<close> read of the database, which they open as readers.\<close>

definition reader_info :: "db_host \<Rightarrow> 'rows \<Rightarrow> ('rows \<Rightarrow> 'info) \<Rightarrow> bool \<Rightarrow> 'rows db_world \<Rightarrow> 'info option \<times> 'rows db_world" where
  "reader_info H none read configured w =
     (if \<not> configured then (None, w)
      else case open_db H none Refuse w of
        (Inl e, w) \<Rightarrow> (None, w)
      | (Inr _, w) \<Rightarrow> (case dw_disk w of Stored i \<Rightarrow> (Some (read (di_rows i)), w\<lparr>dw_handle := False\<rparr>)
          | _ \<Rightarrow> (None, w\<lparr>dw_handle := False\<rparr>)))"

text \<open>A probe of a running or stopped client never changes a database that is there, damaged or not.\<close>

theorem probes_leave_database:
  assumes "dw_disk w = Damaged r \<or> dw_disk w = Stored i \<and> di_tables i"
  shows "dw_disk (snd (reader_info H none read configured w)) = dw_disk w \<and>
    dw_aside (snd (reader_info H none read configured w)) = dw_aside w"
proof -
  obtain r w' where o: "open_db H none Refuse w = (r, w')" by (cases "open_db H none Refuse w")
  with reader_changes_nothing [OF assms, of H none] have "dw_disk w' = dw_disk w" "dw_aside w' = dw_aside w" by simp_all
  with o show ?thesis by (auto simp: reader_info_def split: sum.split db_disk.split)
qed

text \<open>The averages shown are those of the observations the process made.\<close>

theorem latency_of_observations:
  assumes "mirrors (sn_fields s) r" and "rg_uploads r \<noteq> []"
  shows "\<exists>d. latency_line s = Some (Some (sum_list (rg_uploads r) / of_nat (length (rg_uploads r))), d)"
  using assms by (simp add: latency_line_def mirrors_def average_def Let_def)

end
