(* ===== verification/Spec2Isabelle.thy ===== *)
theory Spec2Isabelle
  imports Event_Renames Event_Cursor Mtls_Rotation Local_Safety Local_Termination Local_Rows
    Recovery_Safety Scan_Safety Path_Lock Lifecycle_Safety Control_Channel Watcher_Forward
    Upload_Framing Server_Trust Updater_Safety Diagnose_Safety Boot_Gates Start_Command
    Update_Feed Logging Command_Line
begin

text \<open>
  A verification library for hermitstash-sync, a Node.js client that keeps a local folder and a
  server share in sync.

  \<^bold>\<open>The program.\<close> \<open>init\<close> and \<open>repair\<close> (\<open>lib/cli.js\<close>) exchange a one-time code for a client certificate
  and an API key, store the key (\<open>lib/keychain.js\<close>) and write the configuration (\<open>lib/config.js\<close>).
  \<open>start\<close> passes a row of gates (\<open>bin/hermitstash-sync.js\<close>, \<open>lib/cli.js\<close>) and becomes the daemon
  (\<open>lib/daemon.js\<close>), which runs one \<open>SyncEngine\<close> (\<open>lib/sync-engine.js\<close>) and one updater
  (\<open>lib/updater.js\<close>). A WebSocket (\<open>lib/ws-client.js\<close>) delivers numbered server events; an HTTP client
  (\<open>lib/http-client.js\<close>) transfers bytes; a watcher (\<open>lib/watcher.js\<close>) reports local changes; a SQLite
  database (\<open>lib/state-db.js\<close>) keeps one row per tracked file and the number of the last event applied,
  the cursor, from which a reconnect asks the server to replay. Server events, the first sync, recovery
  sweeps and rescans run one at a time on a chain of promises (the apply chain). Watcher events and the
  timers of buffered deletes run beside it. A mutex per path keeps an upload and a download of one file
  apart, and a count of suppressed paths tells the watcher's handlers that the engine itself is writing.

  \<^bold>\<open>How it is modelled.\<close> A method of the engine is a program over its state with exceptions
  (\<open>Exn_Monad\<close>): every \<open>throw\<close>, \<open>try\<close>, \<open>finally\<close> and early return of the source is a constructor of
  the model. What the host, the server and the vendored framework answer while a handler runs is a
  record of functions, the environment \<open>env\<close> (\<open>Engine_State\<close>): which file operation fails and with
  which code, what the server replies, which database statement fails, what \<open>conflictPath\<close>, the path
  resolver and Unicode normalisation return. The other parts have such a record of their own
  (\<open>upd_host\<close>, \<open>check_env\<close>, \<open>setup_env\<close> and so on). The theorems hold for every environment, except
  where a hypothesis names a documented behaviour, such as a conflict name that is not in use. At the
  awaits of a transfer and of the hash of a changed file the environment says whether \<open>stop()\<close> or
  \<open>resync()\<close> landed. Parts driven by events (the WebSocket client, the watcher, an upload's streams, the
  path lock, the daemon) are step functions or inductive step relations over any sequence of events.
  Calls of the logger and of the metrics are left out of the handlers.

  \<^bold>\<open>Theories: shared.\<close>
  \<^item> \<open>HS_Prelude\<close>: JavaScript's absent values (\<open>jsv\<close>), truthiness and \<open>||\<close>, path strings, shared lemmas.
    \<open>Js_Value\<close>: the untyped values of a parsed JSON file, numbers and their text.
  \<^item> \<open>Exn_Monad\<close>: the programs, their weakest preconditions \<open>wp\<close> and the invariants \<open>keeps\<close>.

  \<^bold>\<open>Theories: the engine.\<close>
  \<^item> \<open>Path_Filter\<close> (\<open>lib/path-filter.js\<close>): matcher, classifier, \<open>shouldSync\<close>, default ignores.
  \<^item> \<open>State_Db\<close> (\<open>lib/state-db.js\<close>): both tables, every operation, the two transactions with a fault at
    any statement; the locale \<open>row_store\<close> states the laws of the file table. \<open>State_Open\<close>: opening the file,
    as its owner and as a reader, the migration, the dump for support; the name of the installation
    (\<open>instanceId\<close> of \<open>lib/ws-client.js\<close>).
  \<^item> \<open>Engine_State\<close>, \<open>Engine_Cursor\<close>, \<open>Engine_Transfer\<close>: the record of the engine and the small methods;
    \<open>_updateSeq\<close>, \<open>_noteUnappliedSeq\<close>, heartbeats and the end of catch-up; downloads, conflict copies and
    local unlinks.
  \<^item> \<open>Server_Events\<close>: the dispatcher and the handlers of added, replaced, removed and renamed files.
    \<open>Engine_Views\<close>, \<open>Event_Balance\<close>, \<open>Event_Safety\<close>, \<open>Event_Cursor\<close>, \<open>Event_Renames\<close> prove what they
    guarantee; the locales \<open>quiet_view\<close> and \<open>cursor_contract\<close> are the interfaces between the handlers'
    bookkeeping and those proofs.
  \<^item> \<open>Engine_Upload\<close>: \<open>_uploadFile\<close> and the pool.
  \<^item> \<open>Local_Changes\<close>: watcher events, buffered deletes, rename detection and the fallback of a failed
    rename. \<open>Local_Safety\<close>, \<open>Local_Termination\<close>, \<open>Local_Rows\<close> prove what they guarantee; the locale
    \<open>change_contract\<close> carries an invariant through one local change.
  \<^item> \<open>Recovery\<close>, \<open>Recovery_Safety\<close>: the reconcile sweep and the redial of a wedged catch-up.
  \<^item> \<open>Folder_Walk\<close>, \<open>Folder_Scan\<close>, \<open>Scan_Safety\<close>: the folder walk, the cleanup of temporary files, the
    rescan, the first sync.
  \<^item> \<open>Path_Lock\<close>: \<open>_withPathLock\<close> over any number of concurrent calls, as a step relation.
  \<^item> \<open>Engine_Lifecycle\<close>, \<open>Lifecycle_Safety\<close>: \<open>start\<close>, \<open>stop\<close>, \<open>resync\<close>, the WebSocket listeners, the jobs
    of the apply chain, the case-folding probe.
  \<^item> \<open>Mtls_Rotation\<close>: the client certificate's rotation, boot recovery and renewal as file operations
    that may stop at any point.

  \<^bold>\<open>Theories: the channels.\<close>
  \<^item> \<open>Ws_Client\<close>: failure classes, dialling, the reconnect ladder, the socket's listeners.
    \<open>Control_Channel\<close> composes them with the engine's listeners of \<open>Engine_Lifecycle\<close>.
  \<^item> \<open>Watcher\<close>, \<open>Watcher_Safety\<close>: handles, errors, the recovery ladder, start and stop. \<open>Watcher_Forward\<close>:
    the ignore patterns handed to the framework, and the framework's own matcher, set against
    \<open>Path_Filter\<close>.
  \<^item> \<open>Http_Download\<close> (\<open>downloadFile\<close>): byte ceiling, verification, swap. \<open>Http_Requests\<close>: refusals,
    metadata requests, the encrypted session and its one retry. \<open>Http_Upload\<close>: \<open>uploadFile\<close> from its checks
    to the last byte, over any interleaving of stream events; \<open>Text_Search\<close> and \<open>Upload_Framing\<close> read the
    multipart body back.
  \<^item> \<open>Server_Trust\<close>: the post-quantum floor, name check, pins and tunnel mode of both channels.

  \<^bold>\<open>Theories: the process around the engine.\<close>
  \<^item> \<open>Config\<close>, \<open>Config_Safety\<close>: loading, environment overlay, \<open>validate\<close> and the well-typed configurations.
  \<^item> \<open>Keychain\<close>: the native stores and the hardened file. \<open>Enrollment\<close>, \<open>Enrollment_Safety\<close>: setup and
    repair; the locales \<open>steady\<close> and \<open>steady_config\<close> carry an invariant through every step of a setup.
  \<^item> \<open>Boot_Gates\<close>: Node floor, check of the vendored files, self-tests. \<open>Start_Command\<close>: \<open>start\<close> with all
    its gates, and setup followed by start.
  \<^item> \<open>Daemon\<close>, \<open>Daemon_Safety\<close>: the PID file and its commands, and the running process as a machine over
    signals, shutdown phases, reloads, updates and crashes; the locale \<open>daemon_invariant\<close> is interpreted
    for each of its invariants.
  \<^item> \<open>Updater\<close>, \<open>Updater_Safety\<close>: check, download, verification, swap, probation marker, boot rollback.
    \<open>Update_Feed\<close>: asset and signature names, the conditional poll, the loop of checks.
  \<^item> \<open>Diagnose\<close>, \<open>Diagnose_Safety\<close>: what the support bundle lets leave the host.
  \<^item> \<open>Telemetry\<close> (\<open>lib/metrics.js\<close>): counters, the flat values beside them, the files of the writer.
    \<open>Logging\<close> (\<open>lib/logger.js\<close>): levels, limits, opening and reopening, both outputs.
  \<^item> \<open>Client_Tools\<close>: long paths, the log follower, duration text, TLS probes, the drain of an old pool,
    limits from the environment. \<open>Command_Line\<close>: the choice of the command, what \<open>status\<close>, \<open>stats\<close>, \<open>log\<close>
    and \<open>diagnose\<close> read and select.

  \<^bold>\<open>What is shown.\<close>
  \<^item> Nobody's bytes are lost: server events, sweeps and the first sync leave every local file in place,
    at its conflict name, or identical on the server; a local delete is sent only on evidence.
  \<^item> Rows are honest: a row says synced only about bytes both sides have.
  \<^item> Nothing is skipped: the cursor never passes a failed event, and is what a reconnect asks from.
  \<^item> Stranded work converges: a sweep on a healthy engine finishes every stranded upload.
  \<^item> The lock is a queue per path, and a stopped engine is inert; a resync starts over.
  \<^item> Neither the control channel nor the watcher is ever silently off: live, retrying, or given up aloud.
  \<^item> The wire carries the declared bytes and only those, a reader gets them back, an encrypted request is
    sent again only when its session is dead, and no request leaves on a socket of an unproved server.
  \<^item> A configuration passes \<open>validate\<close> exactly when it is well typed. A setup spends one code, only on a
    protected connection, and the start after it runs with the server and key it was given.
  \<^item> Only verified bytes become the executable, only a crashing one on probation is rolled back, and a
    clean stop never causes that. The teardown runs once. Unverified vendored code is never loaded.
  \<^item> The logs in a support bundle contain no secret of the configuration.
  \<^item> Opening the database never loses rows; the flat and the labelled telemetry agree in every snapshot;
    a reopened log writes every record of its level.
  \<^item> A rotation that stops anywhere is repaired to a whole identity.
  The findings, places where the code does not do what it or its comments say, are theorems too, named in the
  text in front of them (\<open>failed_resync_wedges\<close>, \<open>stop_mid_install_loses_executable\<close>,
  \<open>failed_update_not_retried\<close> and others).

  \<^bold>\<open>Bounds.\<close> \<open>unlink_loop\<close> makes the five attempts of the code's delay table, a download its three.
  \<open>modify_locked\<close> takes a bound on its rounds, one more than the number of buffered deletes; each round
  consumes one, so the bound is never exhausted (\<open>Local_Termination\<close>). The watcher's recovery ladder
  makes at most four handles until one survives, and a replaced pool is
  destroyed within twenty ticks (\<open>drain_bounded\<close>). Loops over rows, directory entries, characters and
  lists of events are structural.

  \<^bold>\<open>Not modelled.\<close> TLS itself, proxies, SQLite, the retry and circuit-breaker loops, path resolution, the
  regular expression engine, JSON and atomic file primitives: they are the vendored framework's or the
  platform's, and parameters of the model. The wording of terminal output and
  prompts; build, release and test scripts, which are no part of the running client. Handlers of the
  engine are modelled as running without another handler's steps in between, except where an await of a
  transfer is named above; the path lock, which justifies this for one path, is modelled on its own.
\<close>

end
